(* ===== verification/Prelude.thy ===== *)
theory Prelude
  imports Main "HOL-Library.Multiset" "HOL-Library.Word"
begin

text \<open>
  Vocabulary shared by the components: the outcome of polling a future, results, machine
  integers, time, the oneshot channels of the runtime, and the lemmas on lists, maps and
  multisets that several components need.
\<close>

section \<open>Proof collections\<close>

named_theorems conserve \<open>conservation equations for the owners of connections\<close>

section \<open>Polls, results, integers, time\<close>

text \<open>
  One call of \<open>Future::poll\<close> returns \<open>Poll::Pending\<close>, returns \<open>Poll::Ready v\<close>, or
  panics. A Rust \<open>Result<T, E>\<close> is the sum \<open>'e + 't\<close>, the error on the left.
\<close>

datatype 'a poll = Pending | Ready 'a | Panicked

fun map_ready :: "('a \<Rightarrow> 'b) \<Rightarrow> 'a poll \<Rightarrow> 'b poll" where
  "map_ready f Pending = Pending"
| "map_ready f (Ready v) = Ready (f v)"
| "map_ready f Panicked = Panicked"

text \<open>A call that may panic.\<close>

datatype 'a run = Return 'a | Panic

fun run_bind :: "'a run \<Rightarrow> ('a \<Rightarrow> 'b run) \<Rightarrow> 'b run" where
  "run_bind (Return v) f = f v"
| "run_bind Panic f = Panic"

definition expect :: "'e + 'a \<Rightarrow> 'a run" where
  "expect r = (case r of Inl _ \<Rightarrow> Panic | Inr v \<Rightarrow> Return v)"

lemma expect_simps [simp]: "expect (Inl e) = Panic" "expect (Inr v) = Return v"
  by (simp_all add: expect_def)

definition result_bind :: "'e + 'a \<Rightarrow> ('a \<Rightarrow> 'e + 'b) \<Rightarrow> 'e + 'b" where
  "result_bind r f = (case r of Inl e \<Rightarrow> Inl e | Inr v \<Rightarrow> f v)"

lemma result_bind_simps [simp]:
  "result_bind (Inl e) f = Inl e" "result_bind (Inr v) f = f v"
  by (simp_all add: result_bind_def)

definition ok_or :: "'e \<Rightarrow> 'a option \<Rightarrow> 'e + 'a" where
  "ok_or e o' = (case o' of None \<Rightarrow> Inl e | Some v \<Rightarrow> Inr v)"

lemma ok_or_simps [simp]: "ok_or e None = Inl e" "ok_or e (Some v) = Inr v"
  by (simp_all add: ok_or_def)

definition map_err :: "('e \<Rightarrow> 'f) \<Rightarrow> 'e + 'a \<Rightarrow> 'f + 'a" where
  "map_err f r = map_sum f id r"

lemma map_err_simps [simp]:
  "map_err f (Inl e) = Inl (f e)"
  "map_err f (Inr v) = Inr v"
  by (simp_all add: map_err_def)

type_synonym byte = "8 word"
type_synonym u16 = "16 word"
type_synonym u32 = "32 word"
type_synonym usize = "64 word"

text \<open>
  Instants and durations are counted in nanoseconds. An \<open>Instant\<close> on Linux holds signed
  64-bit seconds, so \<open>Instant::checked_sub\<close> fails only below \<open>instant_min\<close>.
\<close>

type_synonym instant = int
type_synonym duration = nat

definition instant_min :: instant where
  "instant_min = - (2 ^ 63) * 10 ^ 9"

definition checked_sub :: "instant \<Rightarrow> duration \<Rightarrow> instant option" where
  "checked_sub t d = (if t - int d < instant_min then None else Some (t - int d))"

text \<open>The kinds of \<open>std::io::ErrorKind\<close> the sources tell apart.\<close>

datatype io_kind =
  NotFound | PermissionDenied | AddrInUse | InvalidData | InvalidInput | Interrupted
| ConnectionReset | TimedOut | OtherKind

section \<open>Oneshot channels\<close>

text \<open>
  The documented behaviour of \<open>tokio::sync::oneshot\<close>: a value is sent at most once, an end
  that is dropped is noticed by the other, and a receiver polled after it completed panics.
\<close>

datatype 'p cell = Empty | Full 'p | TxDropped | RxDropped | Taken

fun rx_poll :: "'p cell \<Rightarrow> (unit + 'p) poll \<times> 'p cell" where
  "rx_poll Empty = (Pending, Empty)"
| "rx_poll (Full p) = (Ready (Inr p), Taken)"
| "rx_poll TxDropped = (Ready (Inl ()), Taken)"
| "rx_poll RxDropped = (Panicked, RxDropped)"
| "rx_poll Taken = (Panicked, Taken)"

fun tx_drop :: "'p cell \<Rightarrow> 'p cell" where
  "tx_drop Empty = TxDropped"
| "tx_drop c = c"

section \<open>Decimal numerals\<close>

text \<open>As \<open>format!\<close> prints an integer, and as \<open>str::parse\<close> reads its digits.\<close>

fun decimal :: "nat \<Rightarrow> string" where
  "decimal n = (if n < 10 then [char_of (48 + n)] else decimal (n div 10) @ [char_of (48 + n mod 10)])"

declare decimal.simps [simp del]

definition digit_value :: "char \<Rightarrow> nat option" where
  "digit_value c = (let n = of_char c :: nat in if 48 \<le> n \<and> n < 58 then Some (n - 48) else None)"

fun read_digits :: "nat \<Rightarrow> string \<Rightarrow> nat option" where
  "read_digits acc [] = Some acc"
| "read_digits acc (c # cs) =
     (case digit_value c of None \<Rightarrow> None | Some d \<Rightarrow> read_digits (10 * acc + d) cs)"

definition read_nat :: "string \<Rightarrow> nat option" where
  "read_nat s = (if s = [] then None else read_digits 0 s)"

lemma digit_value_digit: "n < 10 \<Longrightarrow> digit_value (char_of (48 + n)) = Some n"
  by (simp add: digit_value_def Let_def of_char_of)

lemma read_digits_append:
  "read_digits acc (xs @ ys) = (case read_digits acc xs of None \<Rightarrow> None | Some n \<Rightarrow> read_digits n ys)"
  by (induction xs arbitrary: acc) (auto split: option.splits)

lemma decimal_not_Nil [simp]: "decimal n \<noteq> []"
  by (subst decimal.simps) simp

lemma read_decimal: "read_digits 0 (decimal n) = Some n"
proof (induction n rule: decimal.induct)
  case (1 n)
  then show ?case by (subst decimal.simps) (auto simp: read_digits_append digit_value_digit)
qed

lemma read_nat_decimal [simp]: "read_nat (decimal n) = Some n"
  by (simp add: read_nat_def read_decimal)

lemma decimal_digits: "c \<in> set (decimal n) \<Longrightarrow> digit_value c \<noteq> None"
proof (induction n rule: decimal.induct)
  case (1 n)
  then show ?case by (subst (asm) (2) decimal.simps) (auto simp: digit_value_digit split: if_splits)
qed

section \<open>Lists and maps\<close>

definition remove_at :: "nat \<Rightarrow> 'a list \<Rightarrow> 'a list" where
  "remove_at i xs = take i xs @ drop (Suc i) xs"

lemma mset_remove_at:
  "i < length xs \<Longrightarrow> mset xs = add_mset (xs ! i) (mset (remove_at i xs))"
  by (subst id_take_nth_drop [of i xs]) (auto simp: remove_at_def)

lemma set_remove_at: "set (remove_at i xs) \<subseteq> set xs"
  by (auto simp: remove_at_def dest: in_set_takeD in_set_dropD)

lemma length_remove_at: "i < length xs \<Longrightarrow> length (remove_at i xs) = length xs - 1"
  by (simp add: remove_at_def)

definition list_msum :: "('a \<Rightarrow> 'b multiset) \<Rightarrow> 'a list \<Rightarrow> 'b multiset" where
  "list_msum f xs = sum_list (map f xs)"

lemma list_msum_simps [simp]:
  "list_msum f [] = {#}"
  "list_msum f (x # xs) = f x + list_msum f xs"
  "list_msum f (xs @ ys) = list_msum f xs + list_msum f ys"
  by (simp_all add: list_msum_def)

lemma list_msum_split:
  "i < length xs \<Longrightarrow> list_msum f xs = f (xs ! i) + list_msum f (remove_at i xs)"
  by (subst id_take_nth_drop [of i xs]) (auto simp: remove_at_def ac_simps)

lemma list_msum_update:
  "i < length xs \<Longrightarrow> list_msum f (xs[i := x]) + f (xs ! i) = list_msum f xs + f x"
  by (subst (3) id_take_nth_drop [of i xs]) (auto simp: upd_conv_take_nth_drop ac_simps)

lemma list_msum_update_same:
  "f x = f (xs ! i) \<Longrightarrow> list_msum f (xs[i := x]) = list_msum f xs"
  using list_msum_update [of i xs f x] by (cases "i < length xs") (auto simp: list_update_beyond)

text \<open>A part \<open>Y\<close> of \<open>B\<close> replaced by \<open>X\<close>, from which \<open>E\<close> was taken out.\<close>

lemma mset_exchange:
  fixes A B E X Y :: "'a multiset"
  assumes "A + Y = B + X" and "X + E \<subseteq># Y"
  shows "A + E \<subseteq># B"
proof -
  have "(A + E) + X \<subseteq># A + Y"
    using assms(2) by (simp add: add.commute add.left_commute)
  then have "(A + E) + X \<subseteq># B + X" by (simp add: assms(1))
  then show ?thesis by simp
qed

text \<open>The contents of a finite map, summed over its keys.\<close>

definition opt_msum :: "('v \<Rightarrow> 'b multiset) \<Rightarrow> 'v option \<Rightarrow> 'b multiset" where
  "opt_msum f ov = (case ov of None \<Rightarrow> {#} | Some v \<Rightarrow> f v)"

lemma opt_msum_simps [simp]:
  "opt_msum f None = {#}"
  "opt_msum f (Some v) = f v"
  by (simp_all add: opt_msum_def)

definition map_msum :: "('v \<Rightarrow> 'b multiset) \<Rightarrow> ('k \<rightharpoonup> 'v) \<Rightarrow> 'b multiset" where
  "map_msum f m = (\<Sum>k \<in> dom m. opt_msum f (m k))"

lemma map_msum_empty [simp]: "map_msum f Map.empty = {#}"
  by (simp add: map_msum_def)

lemma map_msum_superset:
  "finite K \<Longrightarrow> dom m \<subseteq> K \<Longrightarrow> map_msum f m = (\<Sum>k \<in> K. opt_msum f (m k))"
  unfolding map_msum_def by (rule sum.mono_neutral_left) (auto simp: domIff)

lemma map_msum_upd:
  assumes "finite (dom m)"
  shows "map_msum f (m(k := ov)) + opt_msum f (m k) = map_msum f m + opt_msum f ov"
proof -
  let ?K = "insert k (dom m)"
  have K: "finite ?K" using assms by simp
  have "map_msum f (m(k := ov)) = (\<Sum>j \<in> ?K. opt_msum f ((m(k := ov)) j))"
    by (rule map_msum_superset [OF K]) auto
  also have "\<dots> = opt_msum f ov + (\<Sum>j \<in> ?K - {k}. opt_msum f (m j))"
    by (subst sum.remove [OF K, of k]) (auto intro!: sum.cong)
  finally have upd: "map_msum f (m(k := ov)) = opt_msum f ov + (\<Sum>j \<in> ?K - {k}. opt_msum f (m j))" .
  have "map_msum f m = (\<Sum>j \<in> ?K. opt_msum f (m j))"
    by (rule map_msum_superset [OF K]) auto
  also have "\<dots> = opt_msum f (m k) + (\<Sum>j \<in> ?K - {k}. opt_msum f (m j))"
    by (subst sum.remove [OF K, of k]) auto
  finally show ?thesis using upd by (simp add: ac_simps)
qed

end
