(* ===== verification/Poolable.thy ===== *)
theory Poolable
  imports Prelude
begin

text \<open>
  The contract between the pool and the connections it stores: the trait
  \<open>PoolableConnection\<close> of \<open>client/pool/mod.rs\<close> as a record of its methods, and the laws
  every implementation keeps as the locale \<open>poolable_connection\<close>. The implementations
  (\<open>HttpConnection\<close>, \<open>MockStream\<close>, \<open>MockSender\<close>) follow, each with its interpretation.
\<close>

section \<open>The trait\<close>

text \<open>
  A connection's answers may change over time (the peer may close it), so one value of
  this record is the trait's methods as they answer at one moment.
\<close>

record 'c conn_ops =
  is_open :: "'c \<Rightarrow> bool"
  can_share :: "'c \<Rightarrow> bool"
  reuse :: "'c \<Rightarrow> 'c option"

locale poolable_connection =
  fixes ops :: "'c conn_ops"
  assumes reuse_shares: "reuse ops c = Some c' \<Longrightarrow> can_share ops c \<and> can_share ops c'"
    and reuse_open: "reuse ops c = Some c' \<Longrightarrow> is_open ops c' = is_open ops c"
    and share_reuse: "can_share ops c \<Longrightarrow> is_open ops c \<Longrightarrow> reuse ops c \<noteq> None"
begin

lemma unshared_no_reuse: "\<not> can_share ops c \<Longrightarrow> reuse ops c = None"
  using reuse_shares by (cases "reuse ops c") auto

lemma reuse_iff_open_share: "is_open ops c \<Longrightarrow> (reuse ops c \<noteq> None) = can_share ops c"
  using reuse_shares [of c] share_reuse [of c] by (cases "reuse ops c = None") auto

end

section \<open>HTTP connections (client/conn/connection.rs)\<close>

text \<open>
  The request senders \<open>'h1\<close> and \<open>'h2\<close> are hyper's; \<open>ready1\<close> and \<open>ready2\<close> stand for their
  \<open>is_ready\<close> methods. Cloning an HTTP/2 sender gives a handle to the same connection.
\<close>

datatype ('h1, 'h2) http_connection = H2 'h2 | H1 'h1

datatype version = HTTP_09 | HTTP_10 | HTTP_11 | HTTP_2 | HTTP_3

fun http_version :: "('h1, 'h2) http_connection \<Rightarrow> version" where
  "http_version (H2 _) = HTTP_2"
| "http_version (H1 _) = HTTP_11"

fun http_is_open :: "('h1 \<Rightarrow> bool) \<Rightarrow> ('h2 \<Rightarrow> bool) \<Rightarrow> ('h1, 'h2) http_connection \<Rightarrow> bool" where
  "http_is_open ready1 ready2 (H2 conn) = ready2 conn"
| "http_is_open ready1 ready2 (H1 conn) = ready1 conn"

fun http_can_share :: "('h1, 'h2) http_connection \<Rightarrow> bool" where
  "http_can_share (H2 _) = True"
| "http_can_share (H1 _) = False"

fun http_reuse :: "('h1, 'h2) http_connection \<Rightarrow> ('h1, 'h2) http_connection option" where
  "http_reuse (H2 conn) = Some (H2 conn)"
| "http_reuse (H1 _) = None"

definition http_ops :: "('h1 \<Rightarrow> bool) \<Rightarrow> ('h2 \<Rightarrow> bool) \<Rightarrow> ('h1, 'h2) http_connection conn_ops" where
  "http_ops ready1 ready2 =
     \<lparr>is_open = http_is_open ready1 ready2, can_share = http_can_share, reuse = http_reuse\<rparr>"

lemma http_reuse_Some: "http_reuse c = Some c' \<longleftrightarrow> (\<exists>h. c = H2 h \<and> c' = H2 h)"
  by (cases c) auto

interpretation http_pool: poolable_connection "http_ops ready1 ready2"
  by unfold_locales (auto simp: http_ops_def http_reuse_Some elim: http_can_share.elims)

text \<open>\<open>Connection::send_request\<close> stamps the request with the connection's version.\<close>

definition http_send_version :: "('h1, 'h2) http_connection \<Rightarrow> version \<Rightarrow> version" where
  "http_send_version c requested = (case c of H2 _ \<Rightarrow> HTTP_2 | H1 _ \<Rightarrow> HTTP_11)"

section \<open>Mock streams (client/conn/stream/mock.rs)\<close>

text \<open>
  Clones of a mock stream share the flag \<open>open\<close>, an \<open>Arc<AtomicBool>\<close>: here the flag's
  address, read in a store of flags. \<open>StreamID::new\<close> draws from a wrapping 16-bit counter.
\<close>

record mock_stream =
  ms_open :: nat
  ms_reuse :: bool
  ms_ident :: u16

type_synonym flags = "nat \<Rightarrow> bool"

definition stream_id_new :: "u16 \<Rightarrow> u16 \<times> u16" where
  "stream_id_new ident = (ident, ident + 1)"

definition mock_new :: "bool \<Rightarrow> nat \<Rightarrow> u16 \<Rightarrow> flags \<Rightarrow> mock_stream \<times> u16 \<times> flags" where
  "mock_new re a ident fl =
     (let (i, ident') = stream_id_new ident
      in (\<lparr>ms_open = a, ms_reuse = re, ms_ident = i\<rparr>, ident', fl(a := True)))"

definition mock_close :: "flags \<Rightarrow> mock_stream \<Rightarrow> flags" where
  "mock_close fl s = fl(ms_open s := False)"

definition mock_is_open :: "flags \<Rightarrow> mock_stream \<Rightarrow> bool" where
  "mock_is_open fl s = fl (ms_open s)"

definition mock_can_share :: "mock_stream \<Rightarrow> bool" where
  "mock_can_share s = ms_reuse s"

definition mock_stream_reuse :: "flags \<Rightarrow> mock_stream \<Rightarrow> mock_stream option" where
  "mock_stream_reuse fl s =
     (if ms_reuse s \<and> mock_is_open fl s
      then Some \<lparr>ms_open = ms_open s, ms_reuse = True, ms_ident = ms_ident s\<rparr>
      else None)"

definition mock_ops :: "flags \<Rightarrow> mock_stream conn_ops" where
  "mock_ops fl = \<lparr>is_open = mock_is_open fl, can_share = mock_can_share, reuse = mock_stream_reuse fl\<rparr>"

lemma mock_ops_simps [simp]:
  "is_open (mock_ops fl) s = fl (ms_open s)"
  "can_share (mock_ops fl) s = ms_reuse s"
  "reuse (mock_ops fl) s = mock_stream_reuse fl s"
  by (simp_all add: mock_ops_def mock_is_open_def mock_can_share_def)

interpretation mock_pool: poolable_connection "mock_ops fl"
  by unfold_locales (auto simp: mock_stream_reuse_def mock_is_open_def split: if_splits)

text \<open>Closing one handle closes every clone of it, and no other stream.\<close>

lemma mock_close_clone:
  "mock_stream_reuse fl s = Some s' \<Longrightarrow> \<not> mock_is_open (mock_close fl s) s'"
  by (auto simp: mock_stream_reuse_def mock_close_def mock_is_open_def split: if_splits)

lemma mock_close_other:
  "ms_open s \<noteq> ms_open s' \<Longrightarrow> mock_is_open (mock_close fl s) s' = mock_is_open fl s'"
  by (simp add: mock_close_def mock_is_open_def)

section \<open>Mock senders (client/conn/protocol/mock.rs)\<close>

definition sender_ops :: "unit conn_ops" where
  "sender_ops = \<lparr>is_open = (\<lambda>_. True), can_share = (\<lambda>_. True), reuse = (\<lambda>c. Some c)\<rparr>"

interpretation sender_pool: poolable_connection sender_ops
  by unfold_locales (auto simp: sender_ops_def)

end
