(* ===== verification/Idle.thy ===== *)
theory Idle
  imports Poolable
begin

text \<open>
  The idle connections of one host: \<open>IdleConnections\<close> of \<open>client/pool/idle.rs\<close>, a vector
  used as a stack, with the instant each connection became idle. The interface the pool
  relies on is the locale \<open>idle_store\<close>, interpreted on these operations.
\<close>

section \<open>Operations\<close>

record 'c idle =
  idle_at :: instant
  idle_inner :: 'c

type_synonym 'c idle_connections = "'c idle list"

definition idle_new :: "instant \<Rightarrow> 'c \<Rightarrow> 'c idle" where
  "idle_new now c = \<lparr>idle_at = now, idle_inner = c\<rparr>"

definition idle_push :: "instant \<Rightarrow> 'c \<Rightarrow> 'c idle_connections \<Rightarrow> 'c idle_connections" where
  "idle_push now c xs = xs @ [idle_new now c]"

definition expiry :: "instant \<Rightarrow> duration option \<Rightarrow> instant option" where
  "expiry now tmo =
     (case tmo of
        None \<Rightarrow> None
      | Some timeout \<Rightarrow> if 0 < timeout then checked_sub now timeout else None)"

definition expired_at :: "instant option \<Rightarrow> 'c idle \<Rightarrow> bool" where
  "expired_at ex e = (case ex of None \<Rightarrow> False | Some expired \<Rightarrow> idle_at e < expired)"

text \<open>
  The loop of \<open>pop\<close>: the entries from the end of the vector, what is left of them, the
  entry found and the flag \<open>empty\<close>.
\<close>

fun idle_scan :: "('c \<Rightarrow> bool) \<Rightarrow> instant option \<Rightarrow> 'c idle list \<Rightarrow> 'c idle list \<times> 'c option \<times> bool" where
  "idle_scan op ex [] = ([], None, False)"
| "idle_scan op ex (e # es) =
     (if expired_at ex e then (es, None, True)
      else if op (idle_inner e) then (es, Some (idle_inner e), False)
      else idle_scan op ex es)"

definition idle_pop ::
  "('c \<Rightarrow> bool) \<Rightarrow> instant \<Rightarrow> duration option \<Rightarrow> 'c idle_connections \<Rightarrow> 'c idle_connections \<times> 'c option" where
  "idle_pop op now tmo xs =
     (if xs = [] then (xs, None)
      else
        (let (rest, entry, empty) = idle_scan op (expiry now tmo) (rev xs);
             empty' = (empty \<or> rest = [])
         in (if empty' then [] else rev rest, entry)))"

section \<open>What one pop does\<close>

definition conns :: "'c idle_connections \<Rightarrow> 'c multiset" where
  "conns xs = mset (map idle_inner xs)"

lemma conns_simps [simp]:
  "conns [] = {#}"
  "conns (e # es) = add_mset (idle_inner e) (conns es)"
  "conns (xs @ ys) = conns xs + conns ys"
  "conns (rev xs) = conns xs"
  by (simp_all add: conns_def rev_map)

lemma conns_push [simp]: "conns (idle_push now c xs) = add_mset c (conns xs)"
  by (simp add: idle_push_def idle_new_def)

lemma scan_entry:
  "fst (snd (idle_scan op ex es)) =
     find op (map idle_inner (takeWhile (\<lambda>e. \<not> expired_at ex e) es))"
  by (induction es) auto

lemma scan_conns:
  "idle_scan op ex es = (rest, entry, fl) \<Longrightarrow>
     conns rest + opt_msum (\<lambda>c. {#c#}) entry \<subseteq># conns es"
  by (induction es) (auto split: if_splits intro: subset_mset.order_trans)

lemma scan_suffix:
  "idle_scan op ex es = (rest, entry, fl) \<Longrightarrow> \<exists>used. es = used @ rest"
proof (induction es)
  case (Cons e es)
  then show ?case
    by (cases "expired_at ex e \<or> op (idle_inner e)") (auto split: if_splits intro: exI [of _ "[e]"])
qed simp

lemma pop_entry:
  "snd (idle_pop op now tmo xs) =
     find op (map idle_inner (takeWhile (\<lambda>e. \<not> expired_at (expiry now tmo) e) (rev xs)))"
  by (auto simp: idle_pop_def scan_entry [symmetric] split: prod.splits)

lemma pop_open: "idle_pop op now tmo xs = (xs', Some c) \<Longrightarrow> op c"
proof -
  assume "idle_pop op now tmo xs = (xs', Some c)"
  then have "find op (map idle_inner (takeWhile (\<lambda>e. \<not> expired_at (expiry now tmo) e) (rev xs))) = Some c"
    using pop_entry [of op now tmo xs] by simp
  then show "op c" by (auto simp: find_Some_iff)
qed

lemma pop_conns:
  "idle_pop op now tmo xs = (xs', entry) \<Longrightarrow> conns xs' + opt_msum (\<lambda>c. {#c#}) entry \<subseteq># conns xs"
  by (auto simp: idle_pop_def Let_def split: if_splits prod.splits
      dest!: scan_conns intro: subset_mset.order_trans [OF mset_subset_eq_add_right])

locale idle_store =
  fixes push :: "instant \<Rightarrow> 'c \<Rightarrow> 's \<Rightarrow> 's"
    and pop :: "('c \<Rightarrow> bool) \<Rightarrow> instant \<Rightarrow> duration option \<Rightarrow> 's \<Rightarrow> 's \<times> 'c option"
    and contents :: "'s \<Rightarrow> 'c multiset"
  assumes push_contents: "contents (push now c s) = add_mset c (contents s)"
    and pop_contents: "pop op now tmo s = (s', entry) \<Longrightarrow>
      contents s' + opt_msum (\<lambda>c. {#c#}) entry \<subseteq># contents s"
    and pop_is_open: "pop op now tmo s = (s', Some c) \<Longrightarrow> op c"
begin

lemma pop_Some_contents: "pop op now tmo s = (s', Some c) \<Longrightarrow> add_mset c (contents s') \<subseteq># contents s"
  using pop_contents by force

lemma pop_None_contents: "pop op now tmo s = (s', None) \<Longrightarrow> contents s' \<subseteq># contents s"
  using pop_contents by force

end

interpretation idle: idle_store idle_push idle_pop conns
  by unfold_locales (auto dest: pop_conns pop_open)

section \<open>Nothing useful is discarded\<close>

text \<open>
  The stack is ordered by age when the clock does not run backwards, so an expired entry
  means that everything below it is expired too.
\<close>

definition by_age :: "'c idle_connections \<Rightarrow> bool" where
  "by_age xs = sorted (map idle_at xs)"

lemma by_age_push: "by_age xs \<Longrightarrow> \<forall>e \<in> set xs. idle_at e \<le> now \<Longrightarrow> by_age (idle_push now c xs)"
  by (auto simp: by_age_def idle_push_def idle_new_def sorted_append)

lemma scan_keeps:
  assumes "idle_scan op ex es = (rest, entry, fl)" and "sorted (rev (map idle_at es))"
    and "e \<in> set es" and "op (idle_inner e)" and "\<not> expired_at ex e"
  shows "entry = Some (idle_inner e) \<or> (e \<in> set rest \<and> \<not> fl)"
  using assms
proof (induction es)
  case (Cons a es)
  show ?case
  proof (cases "expired_at ex a")
    case True
    with Cons.prems(2,3,5) have "expired_at ex e"
      by (auto simp: expired_at_def sorted_append split: option.splits)
    with Cons.prems(5) show ?thesis by simp
  next
    case False
    with Cons show ?thesis by (auto simp: sorted_append split: if_splits)
  qed
qed simp

lemma pop_keeps:
  assumes "idle_pop op now tmo xs = (xs', entry)" and "by_age xs"
    and "e \<in> set xs" and "op (idle_inner e)" and "\<not> expired_at (expiry now tmo) e"
  shows "entry = Some (idle_inner e) \<or> e \<in> set xs'"
proof -
  from assms(3) have ne: "xs \<noteq> []" by auto
  obtain rest en fl where scan: "idle_scan op (expiry now tmo) (rev xs) = (rest, en, fl)"
    by (cases "idle_scan op (expiry now tmo) (rev xs)") auto
  have sorted: "sorted (rev (map idle_at (rev xs)))"
    using assms(2) by (simp add: by_age_def rev_map [symmetric])
  from assms(3) have "e \<in> set (rev xs)" by simp
  from scan_keeps [OF scan sorted this assms(4,5)]
  have "en = Some (idle_inner e) \<or> (e \<in> set rest \<and> \<not> fl)" .
  moreover from assms(1) ne scan
  have "xs' = (if fl \<or> rest = [] then [] else rev rest)" and "entry = en"
    by (auto simp: idle_pop_def Let_def)
  ultimately show ?thesis by auto
qed

lemma pop_by_age: "idle_pop op now tmo xs = (xs', entry) \<Longrightarrow> by_age xs \<Longrightarrow> by_age xs'"
proof -
  assume pop: "idle_pop op now tmo xs = (xs', entry)" and age: "by_age xs"
  obtain rest en fl where scan: "idle_scan op (expiry now tmo) (rev xs) = (rest, en, fl)"
    by (cases "idle_scan op (expiry now tmo) (rev xs)") auto
  from scan_suffix [OF scan] obtain used where "rev xs = used @ rest" by blast
  then have "xs = rev rest @ rev used" by (metis rev_append rev_rev_ident)
  with age have "by_age (rev rest)" by (simp add: by_age_def sorted_append)
  with pop scan show ?thesis
    by (cases "xs = []") (auto simp: idle_pop_def Let_def by_age_def split: if_splits)
qed

section \<open>Properties\<close>

text \<open>C10: \<open>IdleConnections::pop\<close> is the last-pushed open connection above the first
  expired one: the search of the vector from its end, cut at the first expired entry.\<close>

theorem idle_pop_lifo:
  "snd (idle_pop op now tmo xs) =
     find op (map idle_inner (takeWhile (\<lambda>e. \<not> expired_at (expiry now tmo) e) (rev xs)))"
  by (rule pop_entry)

text \<open>On a vector ordered by age, \<open>IdleConnections::pop\<close> loses no usable connection:
  every open, unexpired entry is the one returned or stays in the vector.\<close>

theorem idle_pop_keeps_usable:
  assumes "idle_pop op now tmo xs = (xs', entry)" and "by_age xs"
    and "e \<in> set xs" and "op (idle_inner e)" and "\<not> expired_at (expiry now tmo) e"
  shows "entry = Some (idle_inner e) \<or> e \<in> set xs'"
  using assms by (rule pop_keeps)

theorem idle_pop_keeps_usable_witness:
  "let xs = [\<lparr>idle_at = 60, idle_inner = 1\<rparr>, \<lparr>idle_at = 70, idle_inner = (2::nat)\<rparr>];
       r = idle_pop (\<lambda>c. c \<noteq> 2) 100 (Some 50) xs
   in snd r = Some 1 \<or> \<lparr>idle_at = 60, idle_inner = 1\<rparr> \<in> set (fst r)"
proof -
  let ?e = "\<lparr>idle_at = 60, idle_inner = (1::nat)\<rparr>"
  let ?xs = "[?e, \<lparr>idle_at = 70, idle_inner = 2\<rparr>]"
  have "by_age ?xs" and "\<not> expired_at (expiry 100 (Some 50)) ?e"
    by (simp_all add: by_age_def expired_at_def expiry_def checked_sub_def instant_min_def)
  with idle_pop_keeps_usable [OF prod.collapse [symmetric], of ?xs ?e "\<lambda>c. c \<noteq> 2" 100 "Some 50"]
  show ?thesis by (simp add: Let_def)
qed

end
