(* ===== verification/Pool_Inner.thy ===== *)
theory Pool_Inner
  imports Idle
begin

text \<open>
  The shared state of the connection pool: \<open>PoolInner\<close>, \<open>Config\<close> and \<open>Pooled\<close> of
  \<open>client/pool/mod.rs\<close> and the optional weak references of \<open>client/pool/weakopt.rs\<close>.
  Calls on the runtime's channels are inputs and outputs here: \<open>closed n\<close> is the answer of
  \<open>Sender::is_closed\<close> for the sender \<open>n\<close>, and \<open>push\<close> returns the values it sends.
\<close>

section \<open>Weak references (client/pool/weakopt.rs)\<close>

text \<open>
  A heap maps the addresses of live \<open>Arc\<close> allocations to their contents; the contents are
  gone once the last strong reference is dropped.
\<close>

datatype 'p weak_opt = WeakOpt "'p option"

definition weak_none :: "'p weak_opt" where
  "weak_none = WeakOpt None"

definition weak_downgrade :: "'p \<Rightarrow> 'p weak_opt" where
  "weak_downgrade arc = WeakOpt (Some arc)"

fun weak_upgrade :: "('p \<rightharpoonup> 'v) \<Rightarrow> 'p weak_opt \<Rightarrow> 'v option" where
  "weak_upgrade heap (WeakOpt w) = Option.bind w heap"

text \<open>\<open>if let Some(pool) = self.pool.upgrade() { if let Ok(mut inner) = pool.lock() { ... } }\<close>\<close>

fun with_pool :: "('p \<rightharpoonup> 'v) \<Rightarrow> 'p weak_opt \<Rightarrow> ('v \<Rightarrow> 'v) \<Rightarrow> ('p \<rightharpoonup> 'v)" where
  "with_pool heap (WeakOpt None) f = heap"
| "with_pool heap (WeakOpt (Some a)) f =
     (case heap a of None \<Rightarrow> heap | Some inner \<Rightarrow> heap(a \<mapsto> f inner))"

section \<open>Data\<close>

record config =
  idle_timeout :: "duration option"
  max_idle_per_host :: usize

definition config_default :: config where
  "config_default = \<lparr>idle_timeout = Some (90 * 10 ^ 9), max_idle_per_host = 32\<rparr>"

type_synonym sender = nat

record ('k, 'c) pooled =
  p_connection :: "'c option"
  p_is_reused :: bool
  p_key :: 'k
  p_pool :: "nat weak_opt"

type_synonym ('k, 'c) sends = "(sender \<times> ('k, 'c) pooled) list"

record ('k, 'c) pool_inner =
  cfg :: config
  connecting :: "'k set"
  waiting :: "'k \<rightharpoonup> sender list"
  idle_conns :: "'k \<rightharpoonup> 'c idle_connections"

type_synonym ('k, 'c) pool_heap = "nat \<rightharpoonup> ('k, 'c) pool_inner"

definition pool_new :: "config \<Rightarrow> ('k, 'c) pool_inner" where
  "pool_new c = \<lparr>cfg = c, connecting = {}, waiting = Map.empty, idle_conns = Map.empty\<rparr>"

section \<open>Operations\<close>

definition cancel_connection :: "'k \<Rightarrow> ('k, 'c) pool_inner \<Rightarrow> ('k, 'c) pool_inner" where
  "cancel_connection key i = i\<lparr>connecting := connecting i - {key}\<rparr>"

definition connected_in_handshake :: "'k \<Rightarrow> ('k, 'c) pool_inner \<Rightarrow> ('k, 'c) pool_inner" where
  "connected_in_handshake key i = i\<lparr>connecting := insert key (connecting i)\<rparr>"

text \<open>
  The loop over the waiters: the values sent, the waiters left in the queue, and the
  connection if it was not given away.
\<close>

fun push_walk ::
  "'c conn_ops \<Rightarrow> (sender \<Rightarrow> bool) \<Rightarrow> 'k \<Rightarrow> nat weak_opt \<Rightarrow> sender list \<Rightarrow> 'c
     \<Rightarrow> ('k, 'c) sends \<times> sender list \<times> 'c option" where
  "push_walk ops closed key pool_ref [] connection = ([], [], Some connection)"
| "push_walk ops closed key pool_ref (waiter # waiters) connection =
     (if closed waiter then push_walk ops closed key pool_ref waiters connection
      else case reuse ops connection of
        Some conn \<Rightarrow>
          (let pooled = \<lparr>p_connection = Some conn, p_is_reused = True, p_key = key, p_pool = pool_ref\<rparr>;
               (sends, rest, left) = push_walk ops closed key pool_ref waiters connection
           in ((waiter, pooled) # sends, rest, left))
      | None \<Rightarrow>
          (let pooled = \<lparr>p_connection = Some connection, p_is_reused = False, p_key = key, p_pool = pool_ref\<rparr>
           in ([(waiter, pooled)], waiters, None)))"

definition store_idle :: "instant \<Rightarrow> 'k \<Rightarrow> 'c \<Rightarrow> ('k, 'c) pool_inner \<Rightarrow> ('k, 'c) pool_inner" where
  "store_idle now key c i =
     (let entry = (case idle_conns i key of None \<Rightarrow> [] | Some xs \<Rightarrow> xs)
      in i\<lparr>idle_conns := (idle_conns i)(key \<mapsto> idle_push now c entry)\<rparr>)"

definition push ::
  "'c conn_ops \<Rightarrow> (sender \<Rightarrow> bool) \<Rightarrow> instant \<Rightarrow> 'k \<Rightarrow> 'c \<Rightarrow> nat weak_opt
     \<Rightarrow> ('k, 'c) pool_inner \<Rightarrow> ('k, 'c) pool_inner \<times> ('k, 'c) sends" where
  "push ops closed now key connection pool_ref i0 =
     (let i = i0\<lparr>connecting := connecting i0 - {key}\<rparr>
      in case waiting i key of
           None \<Rightarrow> (store_idle now key connection i, [])
         | Some waiters \<Rightarrow>
             (let (sends, rest, left) = push_walk ops closed key pool_ref waiters connection;
                  i' = i\<lparr>waiting := (waiting i)(key \<mapsto> rest)\<rparr>
              in case left of
                   None \<Rightarrow> (i', sends)
                 | Some c \<Rightarrow> (store_idle now key c i', sends)))"

definition pop ::
  "'c conn_ops \<Rightarrow> instant \<Rightarrow> 'k \<Rightarrow> ('k, 'c) pool_inner \<Rightarrow> ('k, 'c) pool_inner \<times> 'c option" where
  "pop ops now key i =
     (case idle_conns i key of
        None \<Rightarrow> (i, None)
      | Some idle \<Rightarrow>
          (let (idle', idle_entry) = idle_pop (is_open ops) now (idle_timeout (cfg i)) idle;
               empty = (idle' = []);
               share = (case idle_entry of None \<Rightarrow> False | Some c \<Rightarrow> can_share ops c)
           in (if empty \<and> \<not> share then i\<lparr>idle_conns := (idle_conns i)(key := None)\<rparr>
               else i\<lparr>idle_conns := (idle_conns i)(key \<mapsto> idle')\<rparr>, idle_entry)))"

text \<open>\<open>Drop for Pooled\<close>: an open connection that is not a clone goes back to its pool.\<close>

definition drop_pooled ::
  "'c conn_ops \<Rightarrow> (sender \<Rightarrow> bool) \<Rightarrow> instant \<Rightarrow> ('k, 'c) pool_heap \<Rightarrow> ('k, 'c) pooled
     \<Rightarrow> ('k, 'c) pool_heap \<times> ('k, 'c) sends" where
  "drop_pooled ops closed now heap p =
     (case p_connection p of
        None \<Rightarrow> (heap, [])
      | Some connection \<Rightarrow>
          if is_open ops connection \<and> \<not> p_is_reused p
          then (case p_pool p of
                  WeakOpt None \<Rightarrow> (heap, [])
                | WeakOpt (Some a) \<Rightarrow>
                    (case heap a of
                       None \<Rightarrow> (heap, [])
                     | Some i \<Rightarrow>
                         (let (i', sends) = push ops closed now (p_key p) connection (p_pool p) i
                          in (heap(a \<mapsto> i'), sends))))
          else (heap, []))"

section \<open>What the walk over the waiters does\<close>

definition live :: "(sender \<Rightarrow> bool) \<Rightarrow> sender list \<Rightarrow> sender list" where
  "live closed ws = filter (\<lambda>n. \<not> closed n) ws"

lemma live_simps [simp]:
  "live closed [] = []"
  "live closed (n # ws) = (if closed n then live closed ws else n # live closed ws)"
  by (simp_all add: live_def)

lemma live_Nil_conv: "live closed ws = [] \<longleftrightarrow> (\<forall>n \<in> set ws. closed n)"
  by (simp add: live_def filter_empty_conv)

text \<open>A connection that cannot be reused goes to the first live waiter only.\<close>

lemma walk_single:
  assumes "reuse ops c = None"
  shows "push_walk ops closed key ref ws c =
    (case live closed ws of
       [] \<Rightarrow> ([], [], Some c)
     | n # _ \<Rightarrow> ([(n, \<lparr>p_connection = Some c, p_is_reused = False, p_key = key, p_pool = ref\<rparr>)],
                 tl (dropWhile closed ws), None))"
  using assms by (induction ws) (auto split: list.splits)

text \<open>A connection that can be reused goes to every live waiter, as a clone, and is kept.\<close>

lemma walk_shared:
  assumes "reuse ops c = Some c'"
  shows "push_walk ops closed key ref ws c =
    (map (\<lambda>n. (n, \<lparr>p_connection = Some c', p_is_reused = True, p_key = key, p_pool = ref\<rparr>))
       (live closed ws), [], Some c)"
  using assms by (induction ws) auto

lemma walk_targets:
  "push_walk ops closed key ref ws c = (sends, rest, left) \<Longrightarrow>
     (\<forall>(n, p) \<in> set sends. n \<in> set ws \<and> \<not> closed n) \<and> set rest \<subseteq> set ws \<and>
     (distinct ws \<longrightarrow> distinct (map fst sends @ rest))"
proof (induction ws arbitrary: sends rest left)
  case (Cons n ws)
  show ?case
  proof (cases "closed n")
    case True
    with Cons show ?thesis by fastforce
  next
    case open_n: False
    show ?thesis
    proof (cases "reuse ops c")
      case None
      with Cons.prems open_n show ?thesis by auto
    next
      case (Some c')
      obtain s r l where rec: "push_walk ops closed key ref ws c = (s, r, l)"
        by (cases "push_walk ops closed key ref ws c") auto
      from Cons.IH [OF rec] Cons.prems open_n Some rec show ?thesis by fastforce
    qed
  qed
qed auto

section \<open>Ownership\<close>

definition pooled_conns :: "('k, 'c) pooled \<Rightarrow> 'c multiset" where
  "pooled_conns p = opt_msum (\<lambda>c. {#c#}) (p_connection p)"

definition sends_conns :: "('k, 'c) sends \<Rightarrow> 'c multiset" where
  "sends_conns sends = list_msum (\<lambda>(n, p). pooled_conns p) sends"

definition inner_conns :: "('k, 'c) pool_inner \<Rightarrow> 'c multiset" where
  "inner_conns i = map_msum conns (idle_conns i)"

definition wf_inner :: "('k, 'c) pool_inner \<Rightarrow> bool" where
  "wf_inner i = finite (dom (idle_conns i))"

definition unshared :: "('c \<Rightarrow> bool) \<Rightarrow> 'c multiset \<Rightarrow> 'c multiset" where
  "unshared share M = filter_mset (\<lambda>c. \<not> share c) M"

lemma unshared_simps [simp]:
  "unshared share {#} = {#}"
  "unshared share (A + B) = unshared share A + unshared share B"
  "unshared share (add_mset c A) = (if share c then unshared share A else add_mset c (unshared share A))"
  by (simp_all add: unshared_def)

lemma unshared_mono: "A \<subseteq># B \<Longrightarrow> unshared share A \<subseteq># unshared share B"
  by (simp add: unshared_def multiset_filter_mono)

lemma sends_conns_simps [simp]:
  "sends_conns [] = {#}"
  "sends_conns ((n, p) # s) = pooled_conns p + sends_conns s"
  by (simp_all add: sends_conns_def)

lemma inner_conns_new [simp]: "inner_conns (pool_new c) = {#}" "wf_inner (pool_new c)"
  by (simp_all add: inner_conns_def pool_new_def wf_inner_def)

lemma inner_conns_frame [simp]:
  "inner_conns (i\<lparr>connecting := x\<rparr>) = inner_conns i"
  "inner_conns (i\<lparr>waiting := y\<rparr>) = inner_conns i"
  "wf_inner (i\<lparr>connecting := x\<rparr>) = wf_inner i"
  "wf_inner (i\<lparr>waiting := y\<rparr>) = wf_inner i"
  by (simp_all add: inner_conns_def wf_inner_def)

lemma wf_store [simp]: "wf_inner i \<Longrightarrow> wf_inner (store_idle now key c i)"
  by (simp add: wf_inner_def store_idle_def Let_def)

lemma store_conns [conserve]:
  "wf_inner i \<Longrightarrow> inner_conns (store_idle now key c i) = add_mset c (inner_conns i)"
  using map_msum_upd [of "idle_conns i" conns key
      "Some (idle_push now c (case idle_conns i key of None \<Rightarrow> [] | Some xs \<Rightarrow> xs))"]
  by (cases "idle_conns i key") (auto simp: inner_conns_def store_idle_def Let_def wf_inner_def
      idle.push_contents)

lemma walk_unshared:
  assumes "poolable_connection ops" and "push_walk ops closed key ref ws c = (sends, rest, left)"
  shows "unshared (can_share ops) (sends_conns sends + opt_msum (\<lambda>c. {#c#}) left)
    = unshared (can_share ops) {#c#}"
proof (cases "reuse ops c")
  case None
  with walk_single [OF this, of closed key ref ws] assms(2) show ?thesis
    by (auto simp: pooled_conns_def split: list.splits)
next
  case (Some c')
  from poolable_connection.reuse_shares [OF assms(1) Some] have shared: "can_share ops c'" by simp
  have "unshared (can_share ops) (sends_conns
    (map (\<lambda>n. (n, \<lparr>p_connection = Some c', p_is_reused = True, p_key = key, p_pool = ref\<rparr>)) ns)) = {#}" for ns
    by (induction ns) (auto simp: pooled_conns_def shared)
  with walk_shared [OF Some, of closed key ref ws] assms(2) show ?thesis by auto
qed

lemma push_cases:
  "push ops closed now key c ref i =
     (let i1 = cancel_connection key i;
          (sends, rest, left) = (case waiting i key of None \<Rightarrow> ([], [], Some c)
             | Some ws \<Rightarrow> push_walk ops closed key ref ws c);
          i2 = (case waiting i key of None \<Rightarrow> i1 | Some ws \<Rightarrow> i1\<lparr>waiting := (waiting i1)(key \<mapsto> rest)\<rparr>)
      in (case left of None \<Rightarrow> i2 | Some c' \<Rightarrow> store_idle now key c' i2, sends))"
  by (simp add: push_def Let_def cancel_connection_def split: option.splits prod.splits)

lemma wf_push: "wf_inner i \<Longrightarrow> push ops closed now key c ref i = (i', sends) \<Longrightarrow> wf_inner i'"
  by (auto simp: push_def Let_def split: option.splits prod.splits)

lemma push_unshared:
  assumes "poolable_connection ops" and "wf_inner i" and "push ops closed now key c ref i = (i', sends)"
  shows "unshared (can_share ops) (inner_conns i' + sends_conns sends)
    = unshared (can_share ops) (add_mset c (inner_conns i))"
proof (cases "waiting i key")
  case None
  with assms(2,3) show ?thesis by (auto simp: push_def Let_def conserve)
next
  case (Some ws)
  obtain s r l where walk: "push_walk ops closed key ref ws c = (s, r, l)"
    by (cases "push_walk ops closed key ref ws c") auto
  from walk_unshared [OF assms(1) walk] assms(2,3) walk Some show ?thesis
    by (cases l) (auto simp: push_def Let_def conserve split: if_splits)
qed

lemma pop_unshared:
  assumes "wf_inner i" and "pop ops now key i = (i', entry)"
  shows "wf_inner i'" and "inner_conns i' + opt_msum (\<lambda>c. {#c#}) entry \<subseteq># inner_conns i"
proof -
  show "wf_inner i'"
    using assms by (auto simp: pop_def wf_inner_def Let_def split: option.splits prod.splits if_splits)
  show "inner_conns i' + opt_msum (\<lambda>c. {#c#}) entry \<subseteq># inner_conns i"
  proof (cases "idle_conns i key")
    case None
    with assms(2) show ?thesis by (auto simp: pop_def)
  next
    case (Some xs)
    obtain xs' where ip: "idle_pop (is_open ops) now (idle_timeout (cfg i)) xs = (xs', entry)"
      using assms(2) Some by (auto simp: pop_def Let_def split: prod.splits)
    from assms(1) have fin: "finite (dom (idle_conns i))" by (simp add: wf_inner_def)
    define ov where "ov = (if xs' = [] \<and> \<not> (case entry of None \<Rightarrow> False | Some c \<Rightarrow> can_share ops c)
      then None else Some xs')"
    have i': "i' = i\<lparr>idle_conns := (idle_conns i)(key := ov)\<rparr>"
      using assms(2) Some ip by (auto simp: pop_def Let_def ov_def split: prod.splits)
    have ov: "opt_msum conns ov = conns xs'" by (simp add: ov_def)
    have "inner_conns i' + conns xs = inner_conns i + conns xs'"
      using map_msum_upd [OF fin, of conns key ov] Some ov by (simp add: inner_conns_def i')
    moreover from idle.pop_contents [OF ip] have "conns xs' + opt_msum (\<lambda>c. {#c#}) entry \<subseteq># conns xs" .
    ultimately show ?thesis by (rule mset_exchange)
  qed
qed

lemma pop_frame: "pop ops now key i = (i', entry) \<Longrightarrow> waiting i' = waiting i \<and> connecting i' = connecting i"
  by (auto simp: pop_def Let_def split: option.splits prod.splits if_splits)

section \<open>The queues of waiters\<close>

definition queued :: "('k, 'c) pool_inner \<Rightarrow> sender set" where
  "queued i = (\<Union>ws \<in> ran (waiting i). set ws)"

definition queues_ok :: "('k, 'c) pool_inner \<Rightarrow> bool" where
  "queues_ok i \<longleftrightarrow>
     (\<forall>k ws. waiting i k = Some ws \<longrightarrow> distinct ws) \<and>
     (\<forall>k k' ws ws' n. waiting i k = Some ws \<longrightarrow> waiting i k' = Some ws' \<longrightarrow>
        n \<in> set ws \<longrightarrow> n \<in> set ws' \<longrightarrow> k = k')"

lemma queued_iff: "n \<in> queued i \<longleftrightarrow> (\<exists>k ws. waiting i k = Some ws \<and> n \<in> set ws)"
  by (auto simp: queued_def ran_def)

lemma queues_frame [simp]:
  "queued (i\<lparr>connecting := x\<rparr>) = queued i"
  "queued (i\<lparr>idle_conns := y\<rparr>) = queued i"
  "queues_ok (i\<lparr>connecting := x\<rparr>) = queues_ok i"
  "queues_ok (i\<lparr>idle_conns := y\<rparr>) = queues_ok i"
  by (simp_all add: queued_def queues_ok_def)

lemma queues_new [simp]: "queued (pool_new c) = {}" "queues_ok (pool_new c)"
  by (simp_all add: queued_def queues_ok_def pool_new_def)

lemma store_frame [simp]:
  "waiting (store_idle now key c i) = waiting i"
  "connecting (store_idle now key c i) = connecting i"
  "cfg (store_idle now key c i) = cfg i"
  by (simp_all add: store_idle_def Let_def)

lemma queues_cong: "waiting i = waiting j \<Longrightarrow> queued i = queued j \<and> queues_ok i = queues_ok j"
  by (simp add: queued_def queues_ok_def)

lemma push_waiting:
  "push ops closed now key c ref i = (i', sends) \<Longrightarrow>
     (waiting i key = None \<and> waiting i' = waiting i \<and> sends = []) \<or>
     (\<exists>ws rest left. waiting i key = Some ws \<and> push_walk ops closed key ref ws c = (sends, rest, left) \<and>
        waiting i' = (waiting i)(key \<mapsto> rest))"
  by (auto simp: push_def Let_def split: option.splits prod.splits)

lemma push_queues:
  assumes "push ops closed now key c ref i = (i', sends)" and "queues_ok i"
  shows "queues_ok i'" and "queued i' \<subseteq> queued i" and "distinct (map fst sends)"
    and "\<forall>n \<in> fst ` set sends. n \<in> queued i \<and> n \<notin> queued i' \<and> \<not> closed n"
proof -
  consider (none) "waiting i' = waiting i" "sends = []"
    | (walk) ws rest left where "waiting i key = Some ws"
        "push_walk ops closed key ref ws c = (sends, rest, left)"
        "waiting i' = (waiting i)(key \<mapsto> rest)"
    using push_waiting [OF assms(1)] by blast
  then have "queues_ok i' \<and> queued i' \<subseteq> queued i \<and> distinct (map fst sends) \<and>
    (\<forall>n \<in> fst ` set sends. n \<in> queued i \<and> n \<notin> queued i' \<and> \<not> closed n)"
  proof cases
    case none
    then show ?thesis using queues_cong [of i' i] assms(2) by simp
  next
    case walk
    from assms(2) walk(1) have dist: "distinct ws" by (auto simp: queues_ok_def)
    from walk_targets [OF walk(2)] dist
    have t: "\<forall>(n, p) \<in> set sends. n \<in> set ws \<and> \<not> closed n" "set rest \<subseteq> set ws"
      "distinct (map fst sends @ rest)" by auto
    from assms(2) walk(1,3) t(2,3) have ok: "queues_ok i'"
      by (auto simp: queues_ok_def split: if_splits; blast)
    from walk(1,3) t(2) have sub: "queued i' \<subseteq> queued i"
      by (auto simp: queued_iff split: if_splits) blast+
    have "n \<in> queued i \<and> n \<notin> queued i' \<and> \<not> closed n" if "n \<in> fst ` set sends" for n
    proof -
      from that t(1) have n: "n \<in> set ws" "\<not> closed n" by auto
      from that t(3) have "n \<notin> set rest" by auto
      with n(1) walk(1,3) assms(2) have "n \<notin> queued i'"
        by (auto simp: queued_iff queues_ok_def split: if_splits; blast)
      with n walk(1) show ?thesis by (auto simp: queued_iff)
    qed
    with ok sub t(3) show ?thesis by auto
  qed
  then show "queues_ok i'" and "queued i' \<subseteq> queued i" and "distinct (map fst sends)"
    and "\<forall>n \<in> fst ` set sends. n \<in> queued i \<and> n \<notin> queued i' \<and> \<not> closed n" by blast+
qed

section \<open>Properties\<close>

lemma live_tail: "live closed (tl (dropWhile closed ws)) = tl (live closed ws)"
  by (induction ws) auto

text \<open>C9: a connection that cannot be shared is handed to the longest-waiting live waiter,
  and to nobody else: \<open>PoolInner::push\<close> sends it once, keeps the later waiters queued,
  leaves the idle connections alone and clears the in-progress mark of the key.\<close>

theorem push_first_waiter:
  assumes "reuse ops c = None" and "waiting i key = Some ws" and "live closed ws = n # ns"
    and "push ops closed now key c ref i = (i', sends)"
  shows "sends = [(n, \<lparr>p_connection = Some c, p_is_reused = False, p_key = key, p_pool = ref\<rparr>)] \<and>
    idle_conns i' = idle_conns i \<and>
    (\<exists>rest. waiting i' = (waiting i)(key \<mapsto> rest) \<and> live closed rest = ns) \<and>
    connecting i' = connecting i - {key}"
  using assms walk_single [OF assms(1), of closed key ref ws]
  by (auto simp: push_def Let_def live_tail)

theorem push_first_waiter_witness:
  "let ops = \<lparr>is_open = (\<lambda>_. True), can_share = (\<lambda>_. False), reuse = (\<lambda>_. None)\<rparr>;
       i = (pool_new config_default)\<lparr>waiting := [''h'' \<mapsto> [0, 1, 2]]\<rparr>;
       r = push ops (\<lambda>n. n = 0) 5 ''h'' (7::nat) weak_none i
   in snd r = [(1, \<lparr>p_connection = Some 7, p_is_reused = False, p_key = ''h'', p_pool = weak_none\<rparr>)]"
  using push_first_waiter [OF _ _ _ prod.collapse [symmetric],
      of "\<lparr>is_open = (\<lambda>_. True), can_share = (\<lambda>_. False), reuse = (\<lambda>_. None)\<rparr>" "7::nat"
         "(pool_new config_default)\<lparr>waiting := [''h'' \<mapsto> [0, 1, 2]]\<rparr>" "''h''" "[0, 1, 2]" "\<lambda>n. n = 0" 1 "[2]"]
  by (simp add: Let_def)

text \<open>A connection that can be shared is handed as a clone to every live waiter at
  once; \<open>PoolInner::push\<close> empties the queue and stores the connection as the newest idle one.\<close>

theorem push_all_waiters:
  assumes "reuse ops c = Some c'" and "waiting i key = Some ws"
    and "push ops closed now key c ref i = (i', sends)"
  shows "sends = map (\<lambda>n. (n, \<lparr>p_connection = Some c', p_is_reused = True, p_key = key, p_pool = ref\<rparr>))
      (filter (\<lambda>n. \<not> closed n) ws) \<and>
    waiting i' = (waiting i)(key \<mapsto> []) \<and>
    idle_conns i' key = Some ((case idle_conns i key of None \<Rightarrow> [] | Some xs \<Rightarrow> xs)
      @ [\<lparr>idle_at = now, idle_inner = c\<rparr>])"
  using assms walk_shared [OF assms(1), of closed key ref ws]
  by (auto simp: push_def Let_def live_def store_idle_def idle_push_def idle_new_def)

theorem push_all_waiters_witness:
  "let i = (pool_new config_default)\<lparr>waiting := [''h'' \<mapsto> [0, 1, 2]]\<rparr>;
       p = \<lparr>p_connection = Some (), p_is_reused = True, p_key = ''h'', p_pool = weak_none\<rparr>
   in snd (push sender_ops (\<lambda>n. n = 1) 5 ''h'' () weak_none i) = [(0, p), (2, p)]"
  using push_all_waiters [OF _ _ prod.collapse [symmetric], of sender_ops "()" "()"
         "(pool_new config_default)\<lparr>waiting := [''h'' \<mapsto> [0, 1, 2]]\<rparr>" "''h''" "[0, 1, 2]"]
  by (simp add: Let_def sender_ops_def)

text \<open>A connection that was returned to the pool and finds no waiter is the one the
  next \<open>PoolInner::pop\<close> of its key yields, while it is open and not expired.\<close>

theorem push_pop_roundtrip:
  assumes "push ops closed now key c ref i = (i', sends)"
    and "live closed (case waiting i key of None \<Rightarrow> [] | Some ws \<Rightarrow> ws) = []"
    and "is_open ops c" and "\<not> expired_at (expiry now' (idle_timeout (cfg i))) (idle_new now c)"
  shows "snd (pop ops now' key i') = Some c"
proof -
  have walk: "push_walk ops closed key ref ws c = ([], [], Some c)" if "live closed ws = []" for ws
    using that walk_single [of ops c closed key ref ws] walk_shared [of ops c _ closed key ref ws]
    by (cases "reuse ops c") auto
  from assms(1,2) have i': "idle_conns i' key = Some (idle_push now c (case idle_conns i key of None \<Rightarrow> [] | Some xs \<Rightarrow> xs))"
    and cfg: "cfg i' = cfg i"
    by (auto simp: push_def Let_def walk store_idle_def split: option.splits)
  have "snd (idle_pop (is_open ops) now' (idle_timeout (cfg i)) (idle_push now c xs)) = Some c" for xs
    using assms(3,4) by (simp add: pop_entry idle_push_def idle_new_def)
  with i' cfg show ?thesis by (auto simp: pop_def Let_def split: prod.splits) (metis snd_conv)+
qed

theorem push_pop_roundtrip_witness:
  "snd (pop sender_ops 30 ''h'' (fst (push sender_ops (\<lambda>_. False) 5 ''h'' () weak_none (pool_new config_default))))
     = Some ()"
  by (rule push_pop_roundtrip [OF prod.collapse [symmetric]])
    (simp_all add: sender_ops_def pool_new_def config_default_def idle_new_def expired_at_def
      expiry_def checked_sub_def instant_min_def)

text \<open>\<open>Config::max_idle_per_host\<close> is never enforced: whatever the configuration, the
  connections \<open>PoolInner::push\<close> returns to a pool without waiters all stay in its vector of
  idle connections, in order.\<close>

theorem push_ignores_max_idle:
  assumes "cs \<noteq> []"
  shows "map_option (map idle_inner)
    (idle_conns (foldl (\<lambda>i c. fst (push ops closed now key c ref i)) (pool_new conf) cs) key) = Some cs"
proof -
  let ?f = "\<lambda>i c. fst (push ops closed now key c ref i)"
  have "waiting (foldl ?f (pool_new conf) cs) key = None \<and>
    map_option (map idle_inner) (idle_conns (foldl ?f (pool_new conf) cs) key) = (if cs = [] then None else Some cs)"
  proof (induction cs rule: rev_induct)
    case (snoc c cs)
    let ?i = "foldl ?f (pool_new conf) cs"
    from snoc have "fst (push ops closed now key c ref ?i) = store_idle now key c (?i\<lparr>connecting := connecting ?i - {key}\<rparr>)"
      by (simp add: push_def Let_def)
    with snoc show ?case
      by (auto simp: store_idle_def idle_push_def idle_new_def split: if_splits)
  qed (simp add: pool_new_def)
  then show ?thesis using assms by simp
qed

theorem push_ignores_max_idle_witness:
  "map_option (map idle_inner) (idle_conns (foldl (\<lambda>i c. fst (push
       \<lparr>is_open = (\<lambda>_. True), can_share = (\<lambda>_. False), reuse = (\<lambda>_. None)\<rparr>
       (\<lambda>_. False) 0 ''h'' c weak_none i))
     (pool_new \<lparr>idle_timeout = None, max_idle_per_host = 1\<rparr>) [4, 5, 6::nat]) ''h'') = Some [4, 5, 6]"
  by (rule push_ignores_max_idle) simp

end
