(* ===== verification/Checkout.thy ===== *)
theory Checkout
  imports Pool_Inner
begin

text \<open>
  Checking a connection out of the pool: \<open>Checkout\<close>, \<open>Waiting\<close> and their futures of
  \<open>client/pool/checkout.rs\<close>, and \<open>Pool::checkout\<close> of \<open>client/pool/mod.rs\<close>. What the
  futures of the connector and the runtime's channel answer when polled is an input of
  each poll (\<open>poll_inputs\<close>); the values sent to waiters are an output. The mutex of the
  pool is never poisoned: no operation under its lock panics.
\<close>

section \<open>Data\<close>

datatype 'e pool_error = Connecting_Error 'e | Handshaking_Error 'e | Unavailable

text \<open>A receiver is named by its channel.\<close>

datatype waiting = Waiting_Idle nat | Waiting_Connecting nat | NoPool

datatype ('k, 'c) waiting_poll = Connected_By "('k, 'c) pooled" | Closed | NotReady

text \<open>
  \<open>InnerCheckoutConnecting\<close>: \<open>'f\<close> is a connector (its transport future and handshake
  closure), \<open>'t\<close> the transport a handshake runs on.
\<close>

datatype ('f, 't) inner_checkout = Inner_Waiting | Inner_Connected | Inner_Connecting 'f | Inner_Handshaking 't

record ('k, 'c, 'f, 't) checkout =
  ck_key :: 'k
  ck_pool :: "nat weak_opt"
  ck_waiter :: waiting
  ck_inner :: "('f, 't) inner_checkout"
  ck_connection :: "'c option"

record ('k, 'c, 't, 'e) poll_inputs =
  in_rx :: "(unit + ('k, 'c) pooled) poll"
  in_transport :: "('e + 't) poll"
  in_handshake :: "'t \<Rightarrow> ('e + 'c) poll"

section \<open>Creating a checkout\<close>

definition checkout_detached :: "'k \<Rightarrow> 'f \<Rightarrow> ('k, 'c, 'f, 't) checkout" where
  "checkout_detached key connector =
     \<lparr>ck_key = key, ck_pool = weak_none, ck_waiter = NoPool,
      ck_inner = Inner_Connecting connector, ck_connection = None\<rparr>"

definition checkout_new ::
  "'k \<Rightarrow> nat \<Rightarrow> nat \<Rightarrow> 'f option \<Rightarrow> 'c option \<Rightarrow> ('k, 'c, 'f, 't) checkout" where
  "checkout_new key pool waiter connect connection =
     (let pool_ref = weak_downgrade pool in
      if connection \<noteq> None
      then \<lparr>ck_key = key, ck_pool = pool_ref, ck_waiter = Waiting_Idle waiter,
            ck_inner = Inner_Connected, ck_connection = connection\<rparr>
      else case connect of
        Some connector \<Rightarrow>
          \<lparr>ck_key = key, ck_pool = pool_ref, ck_waiter = Waiting_Idle waiter,
           ck_inner = Inner_Connecting connector, ck_connection = connection\<rparr>
      | None \<Rightarrow>
          \<lparr>ck_key = key, ck_pool = pool_ref, ck_waiter = Waiting_Connecting waiter,
           ck_inner = Inner_Waiting, ck_connection = connection\<rparr>)"

text \<open>
  \<open>Pool::checkout\<close> on the pool at address \<open>pool\<close>, with the fresh channel \<open>ch\<close>. The last
  component says whether the sender was kept in the queue; otherwise it is dropped on return.
\<close>

definition push_waiter :: "'k \<Rightarrow> sender \<Rightarrow> ('k, 'c) pool_inner \<Rightarrow> ('k, 'c) pool_inner" where
  "push_waiter key tx i =
     i\<lparr>waiting := (waiting i)(key \<mapsto> (case waiting i key of None \<Rightarrow> [] | Some ws \<Rightarrow> ws) @ [tx])\<rparr>"

definition pool_checkout ::
  "'c conn_ops \<Rightarrow> instant \<Rightarrow> nat \<Rightarrow> nat \<Rightarrow> 'k \<Rightarrow> bool \<Rightarrow> 'f \<Rightarrow> ('k, 'c) pool_inner
     \<Rightarrow> ('k, 'c) pool_inner \<times> ('k, 'c, 'f, 't) checkout \<times> bool" where
  "pool_checkout ops now pool ch key multiplex connector i0 =
     (let (i, popped) = pop ops now key i0
      in case popped of
           Some connection \<Rightarrow> (i, checkout_new key pool ch None (Some connection), False)
         | None \<Rightarrow>
             (let i' = push_waiter key ch i
              in if key \<in> connecting i' then (i', checkout_new key pool ch None None, True)
                 else (if multiplex then i'\<lparr>connecting := insert key (connecting i')\<rparr> else i',
                       checkout_new key pool ch (Some connector) None, True)))"

section \<open>Polling\<close>

text \<open>\<open>Future for Waiting\<close>; \<open>poll_waiter\<close> only projects to it.\<close>

fun poll_waiter :: "(unit + ('k, 'c) pooled) poll \<Rightarrow> waiting \<Rightarrow> ('k, 'c) waiting_poll poll" where
  "poll_waiter rx (Waiting_Idle _) =
     (case rx of
        Ready (Inr connection) \<Rightarrow> Ready (Connected_By connection)
      | Ready (Inl _) \<Rightarrow> Ready Closed
      | Pending \<Rightarrow> Ready NotReady
      | Panicked \<Rightarrow> Panicked)"
| "poll_waiter rx (Waiting_Connecting _) =
     (case rx of
        Ready (Inr connection) \<Rightarrow> Ready (Connected_By connection)
      | Ready (Inl _) \<Rightarrow> Ready Closed
      | Pending \<Rightarrow> Pending
      | Panicked \<Rightarrow> Panicked)"
| "poll_waiter rx NoPool = Ready Closed"

text \<open>\<open>Checkout::connected\<close>: registers a new connection with the pool.\<close>

definition connected ::
  "'c conn_ops \<Rightarrow> (sender \<Rightarrow> bool) \<Rightarrow> instant \<Rightarrow> ('k, 'c) pool_heap \<Rightarrow> ('k, 'c, 'f, 't) checkout \<Rightarrow> 'c
     \<Rightarrow> ('k, 'c) pool_heap \<times> ('k, 'c) sends \<times> ('k, 'c) pooled" where
  "connected ops closed now heap co connection =
     (case ck_pool co of
        WeakOpt None \<Rightarrow>
          (heap, [], \<lparr>p_connection = Some connection, p_is_reused = False,
                      p_key = ck_key co, p_pool = weak_none\<rparr>)
      | WeakOpt (Some a) \<Rightarrow>
          (case heap a of
             None \<Rightarrow>
               (heap, [], \<lparr>p_connection = Some connection, p_is_reused = False,
                           p_key = ck_key co, p_pool = weak_none\<rparr>)
           | Some i \<Rightarrow>
               (case reuse ops connection of
                  Some reused \<Rightarrow>
                    (let (i', sends) = push ops closed now (ck_key co) reused (ck_pool co) i
                     in (heap(a \<mapsto> i'), sends,
                         \<lparr>p_connection = Some connection, p_is_reused = True,
                          p_key = ck_key co, p_pool = weak_none\<rparr>))
                | None \<Rightarrow>
                    (heap, [], \<lparr>p_connection = Some connection, p_is_reused = False,
                                p_key = ck_key co, p_pool = weak_downgrade a\<rparr>))))"

text \<open>
  \<open>Future for Checkout\<close>. The loop runs at most twice: a transport that is ready moves the
  checkout to the handshake, which is polled in the same call.
\<close>

type_synonym ('k, 'c, 'f, 't, 'e) poll_output =
  "('k, 'c) pool_heap \<times> ('k, 'c) sends \<times> ('k, 'c, 'f, 't) checkout \<times> ('e pool_error + ('k, 'c) pooled) poll"

definition poll_handshaking ::
  "'c conn_ops \<Rightarrow> (sender \<Rightarrow> bool) \<Rightarrow> instant \<Rightarrow> ('k, 'c, 't, 'e) poll_inputs \<Rightarrow> ('k, 'c) pool_heap
     \<Rightarrow> ('k, 'c, 'f, 't) checkout \<Rightarrow> 't \<Rightarrow> ('k, 'c, 'f, 't, 'e) poll_output" where
  "poll_handshaking ops closed now inp heap co t =
     (case in_handshake inp t of
        Pending \<Rightarrow> (heap, [], co, Pending)
      | Panicked \<Rightarrow> (heap, [], co, Panicked)
      | Ready (Inl e) \<Rightarrow> (heap, [], co, Ready (Inl (Handshaking_Error e)))
      | Ready (Inr connection) \<Rightarrow>
          (let (heap', sends, pooled) = connected ops closed now heap co connection
           in (heap', sends, co, Ready (Inr pooled))))"

definition poll_connect ::
  "'c conn_ops \<Rightarrow> ('t \<Rightarrow> bool) \<Rightarrow> (sender \<Rightarrow> bool) \<Rightarrow> instant \<Rightarrow> ('k, 'c, 't, 'e) poll_inputs
     \<Rightarrow> ('k, 'c) pool_heap \<Rightarrow> ('k, 'c, 'f, 't) checkout \<Rightarrow> ('k, 'c, 'f, 't, 'e) poll_output" where
  "poll_connect ops transport_share closed now inp heap co =
     (case ck_inner co of
        Inner_Waiting \<Rightarrow> (heap, [], co, Ready (Inl Unavailable))
      | Inner_Connected \<Rightarrow>
          (case ck_connection co of
             None \<Rightarrow> (heap, [], co, Panicked)
           | Some connection \<Rightarrow>
               (let co' = co\<lparr>ck_connection := None\<rparr>;
                    (heap', sends, pooled) = connected ops closed now heap co' connection
                in (heap', sends, co', Ready (Inr pooled))))
      | Inner_Connecting f \<Rightarrow>
          (case in_transport inp of
             Pending \<Rightarrow> (heap, [], co, Pending)
           | Panicked \<Rightarrow> (heap, [], co, Panicked)
           | Ready (Inl e) \<Rightarrow> (heap, [], co, Ready (Inl (Connecting_Error e)))
           | Ready (Inr t) \<Rightarrow>
               (let heap' = (if transport_share t
                             then with_pool heap (ck_pool co) (connected_in_handshake (ck_key co))
                             else heap)
                in poll_handshaking ops closed now inp heap' (co\<lparr>ck_inner := Inner_Handshaking t\<rparr>) t))
      | Inner_Handshaking t \<Rightarrow> poll_handshaking ops closed now inp heap co t)"

definition checkout_poll ::
  "'c conn_ops \<Rightarrow> ('t \<Rightarrow> bool) \<Rightarrow> (sender \<Rightarrow> bool) \<Rightarrow> instant \<Rightarrow> ('k, 'c, 't, 'e) poll_inputs
     \<Rightarrow> ('k, 'c) pool_heap \<Rightarrow> ('k, 'c, 'f, 't) checkout \<Rightarrow> ('k, 'c, 'f, 't, 'e) poll_output" where
  "checkout_poll ops transport_share closed now inp heap co =
     (case poll_waiter (in_rx inp) (ck_waiter co) of
        Pending \<Rightarrow> (heap, [], co, Pending)
      | Panicked \<Rightarrow> (heap, [], co, Panicked)
      | Ready (Connected_By pooled) \<Rightarrow> (heap, [], co, Ready (Inr pooled))
      | Ready _ \<Rightarrow> poll_connect ops transport_share closed now inp heap co)"

text \<open>\<open>PinnedDrop for Checkout\<close>; dropping the receiver afterwards is the runtime's part.\<close>

definition checkout_drop :: "('k, 'c) pool_heap \<Rightarrow> ('k, 'c, 'f, 't) checkout \<Rightarrow> ('k, 'c) pool_heap" where
  "checkout_drop heap co = with_pool heap (ck_pool co) (cancel_connection (ck_key co))"

section \<open>Ownership through a checkout\<close>

definition heap_conns :: "('k, 'c) pool_heap \<Rightarrow> nat \<Rightarrow> 'c multiset" where
  "heap_conns heap a = opt_msum inner_conns (heap a)"

definition checkout_conns :: "('k, 'c, 'f, 't) checkout \<Rightarrow> 'c multiset" where
  "checkout_conns co = opt_msum (\<lambda>c. {#c#}) (ck_connection co)"

definition wf_heap :: "('k, 'c) pool_heap \<Rightarrow> nat \<Rightarrow> bool" where
  "wf_heap heap a = (case heap a of None \<Rightarrow> True | Some i \<Rightarrow> wf_inner i)"

text \<open>The pool at address \<open>a\<close> is the only one a reference can name.\<close>

definition refers :: "nat \<Rightarrow> nat weak_opt \<Rightarrow> bool" where
  "refers a r = (r = WeakOpt None \<or> r = WeakOpt (Some a))"

lemma refers_simps [simp]:
  "refers a weak_none" "refers a (weak_downgrade a)"
  by (simp_all add: refers_def weak_none_def weak_downgrade_def)

lemma with_pool_upd:
  "with_pool heap r f = (case r of WeakOpt None \<Rightarrow> heap
     | WeakOpt (Some b) \<Rightarrow> heap(b := map_option f (heap b)))"
  by (cases r) (auto split: option.splits)

lemma with_pool_conns:
  assumes "\<And>i. inner_conns (f i) = inner_conns i" and "\<And>i. wf_inner (f i) = wf_inner i"
  shows "heap_conns (with_pool heap r f) a = heap_conns heap a"
    and "wf_heap (with_pool heap r f) a = wf_heap heap a"
  by (auto simp: with_pool_upd heap_conns_def wf_heap_def opt_msum_def assms split: option.splits weak_opt.splits)

lemma checkout_drop_conns:
  "heap_conns (checkout_drop heap co) a = heap_conns heap a"
  "wf_heap (checkout_drop heap co) a = wf_heap heap a"
  by (auto simp: checkout_drop_def cancel_connection_def intro!: with_pool_conns)

lemma handshake_mark_conns:
  "heap_conns (with_pool heap r (connected_in_handshake key)) a = heap_conns heap a"
  "wf_heap (with_pool heap r (connected_in_handshake key)) a = wf_heap heap a"
  by (auto simp: connected_in_handshake_def intro!: with_pool_conns)

lemma push_heap_unshared:
  assumes "poolable_connection ops" and "wf_heap heap a" and "heap a = Some i"
    and "push ops closed now key c ref i = (i', sends)" and "heap' = heap(a \<mapsto> i')"
  shows "wf_heap heap' a"
    and "unshared (can_share ops) (heap_conns heap' a + sends_conns sends)
      = unshared (can_share ops) (add_mset c (heap_conns heap a))"
  using push_unshared [OF assms(1) _ assms(4)] wf_push [OF _ assms(4)] assms(2,3,5)
  by (auto simp: wf_heap_def heap_conns_def split: if_splits)

lemma drop_pooled_cases:
  assumes "drop_pooled ops closed now heap p = (heap', sends)" and "refers a (p_pool p)"
  obtains "heap' = heap" "sends = []"
    | c i i' where "p_connection p = Some c" "is_open ops c" "\<not> p_is_reused p" "heap a = Some i"
        "push ops closed now (p_key p) c (p_pool p) i = (i', sends)" "heap' = heap(a \<mapsto> i')"
proof (cases "p_connection p \<noteq> None \<and> is_open ops (the (p_connection p)) \<and> \<not> p_is_reused p
    \<and> p_pool p = WeakOpt (Some a) \<and> heap a \<noteq> None")
  case True
  then obtain c i where c: "p_connection p = Some c" "is_open ops c" "\<not> p_is_reused p"
    and pl: "p_pool p = WeakOpt (Some a)" and i: "heap a = Some i" by auto
  obtain i' s' where push: "push ops closed now (p_key p) c (p_pool p) i = (i', s')" by fastforce
  with assms(1) c pl i have "heap' = heap(a \<mapsto> i')" "sends = s'" by (simp_all add: drop_pooled_def)
  with that(2) c i push show thesis by blast
next
  case False
  with assms have "heap' = heap \<and> sends = []"
    by (auto simp: drop_pooled_def refers_def split: option.splits if_splits)
  then show thesis using that(1) by blast
qed

lemma drop_pooled_unshared:
  assumes "poolable_connection ops" and "wf_heap heap a" and "refers a (p_pool p)"
    and "drop_pooled ops closed now heap p = (heap', sends)"
  shows "wf_heap heap' a" and "unshared (can_share ops) (heap_conns heap' a + sends_conns sends)
    \<subseteq># unshared (can_share ops) (heap_conns heap a + pooled_conns p)"
proof -
  have "wf_heap heap' a \<and> unshared (can_share ops) (heap_conns heap' a + sends_conns sends)
    \<subseteq># unshared (can_share ops) (heap_conns heap a + pooled_conns p)"
    using assms(4,3)
  proof (cases rule: drop_pooled_cases)
    case 1
    then show ?thesis using assms(2) by simp
  next
    case (2 c i i')
    from push_heap_unshared [OF assms(1,2) 2(4,5,6)] 2(1) show ?thesis
      by (simp add: pooled_conns_def)
  qed
  then show "wf_heap heap' a" and "unshared (can_share ops) (heap_conns heap' a + sends_conns sends)
    \<subseteq># unshared (can_share ops) (heap_conns heap a + pooled_conns p)" by simp_all
qed

lemma connected_cases:
  assumes "connected ops closed now heap co c = (heap', sends, p)" and "refers a (ck_pool co)"
  obtains (plain) "heap' = heap" "sends = []" "p_connection p = Some c" "\<not> p_is_reused p"
        "p_key p = ck_key co" "refers a (p_pool p)" "heap a \<noteq> None \<and> ck_pool co = WeakOpt (Some a) \<longrightarrow> reuse ops c = None"
    | (shared) c' i i' where "heap a = Some i" "reuse ops c = Some c'"
        "push ops closed now (ck_key co) c' (ck_pool co) i = (i', sends)" "heap' = heap(a \<mapsto> i')"
        "p = \<lparr>p_connection = Some c, p_is_reused = True, p_key = ck_key co, p_pool = weak_none\<rparr>"
proof (cases "ck_pool co = WeakOpt (Some a) \<and> heap a \<noteq> None \<and> reuse ops c \<noteq> None")
  case True
  then obtain i c' where i: "ck_pool co = WeakOpt (Some a)" "heap a = Some i" "reuse ops c = Some c'" by auto
  obtain i' s' where push: "push ops closed now (ck_key co) c' (ck_pool co) i = (i', s')" by fastforce
  with assms(1) i have "heap' = heap(a \<mapsto> i')" "sends = s'"
    "p = \<lparr>p_connection = Some c, p_is_reused = True, p_key = ck_key co, p_pool = weak_none\<rparr>"
    by (simp_all add: connected_def)
  with shared i push show thesis by blast
next
  case False
  with assms have "heap' = heap \<and> sends = [] \<and> p_connection p = Some c \<and> \<not> p_is_reused p \<and>
    p_key p = ck_key co \<and> refers a (p_pool p)"
    by (auto simp: connected_def refers_def weak_none_def weak_downgrade_def split: option.splits)
  then show thesis using plain False by blast
qed

lemma connected_unshared:
  assumes "poolable_connection ops" and "wf_heap heap a" and "refers a (ck_pool co)"
    and "connected ops closed now heap co c = (heap', sends, p)"
  shows "wf_heap heap' a" and "refers a (p_pool p)"
    and "unshared (can_share ops) (heap_conns heap' a + sends_conns sends + pooled_conns p)
      = unshared (can_share ops) (add_mset c (heap_conns heap a))"
proof -
  have "wf_heap heap' a \<and> refers a (p_pool p) \<and>
    unshared (can_share ops) (heap_conns heap' a + sends_conns sends + pooled_conns p)
      = unshared (can_share ops) (add_mset c (heap_conns heap a))"
    using assms(4,3)
  proof (cases rule: connected_cases)
    case plain
    then show ?thesis using assms(2) by (simp add: pooled_conns_def)
  next
    case (shared c' i i')
    from poolable_connection.reuse_shares [OF assms(1) shared(2)]
    have "can_share ops c" "can_share ops c'" by auto
    with push_heap_unshared [OF assms(1,2) shared(1,3,4)] shared(5) show ?thesis
      by (simp add: pooled_conns_def)
  qed
  then show "wf_heap heap' a" and "refers a (p_pool p)"
    and "unshared (can_share ops) (heap_conns heap' a + sends_conns sends + pooled_conns p)
      = unshared (can_share ops) (add_mset c (heap_conns heap a))" by simp_all
qed

end
