(* ===== verification/Pool_System.thy ===== *)
theory Pool_System
  imports Checkout
begin

text \<open>
  The pool together with its clients: checkouts being polled, pooled connections in use,
  and the runtime's oneshot channels between them. The state \<open>world\<close> holds one pool, at
  address 0 while it is alive; \<open>step\<close> is any operation a client can perform. The channels are
  those of the prelude (\<open>cell\<close>); every other step is
  an operation of \<open>Pool_Inner\<close> or \<open>Checkout\<close>.
\<close>

section \<open>Channels\<close>

type_synonym ('k, 'c) cells = "('k, 'c) pooled cell list"

definition rx_closed :: "'p cell list \<Rightarrow> sender \<Rightarrow> bool" where
  "rx_closed cells n = (cells ! n = RxDropped)"

fun deliver :: "(sender \<times> 'p) list \<Rightarrow> 'p cell list \<Rightarrow> 'p cell list" where
  "deliver [] cells = cells"
| "deliver ((n, p) # sends) cells = deliver sends (cells[n := Full p])"

fun rx_channel :: "waiting \<Rightarrow> nat option" where
  "rx_channel (Waiting_Idle n) = Some n"
| "rx_channel (Waiting_Connecting n) = Some n"
| "rx_channel NoPool = None"

section \<open>The world and its steps\<close>

record ('k, 'c, 'f, 't) world =
  w_heap :: "('k, 'c) pool_heap"
  w_cells :: "('k, 'c) cells"
  w_checkouts :: "('k, 'c, 'f, 't) checkout list"
  w_held :: "('k, 'c) pooled list"

definition world_init :: "config \<Rightarrow> ('k, 'c, 'f, 't) world" where
  "world_init c = \<lparr>w_heap = [0 \<mapsto> pool_new c], w_cells = [], w_checkouts = [], w_held = []\<rparr>"

text \<open>Dropping a \<open>Pooled\<close>, its sends included.\<close>

definition release ::
  "'c conn_ops \<Rightarrow> instant \<Rightarrow> ('k, 'c) pooled \<Rightarrow> ('k, 'c) pool_heap \<Rightarrow> ('k, 'c) cells
     \<Rightarrow> ('k, 'c) pool_heap \<times> ('k, 'c) cells" where
  "release ops now p heap cells =
     (let (heap', sends) = drop_pooled ops (rx_closed cells) now heap p
      in (heap', deliver sends cells))"

text \<open>Dropping a receiver; a value it holds is dropped with it.\<close>

definition drop_rx ::
  "'c conn_ops \<Rightarrow> instant \<Rightarrow> waiting \<Rightarrow> ('k, 'c) pool_heap \<Rightarrow> ('k, 'c) cells
     \<Rightarrow> ('k, 'c) pool_heap \<times> ('k, 'c) cells" where
  "drop_rx ops now w heap cells =
     (case rx_channel w of
        None \<Rightarrow> (heap, cells)
      | Some n \<Rightarrow>
          (case cells ! n of
             Full p \<Rightarrow> release ops now p heap (cells[n := Taken])
           | Empty \<Rightarrow> (heap, cells[n := RxDropped])
           | _ \<Rightarrow> (heap, cells)))"

text \<open>Dropping a checkout: its \<open>PinnedDrop\<close>, then its fields.\<close>

definition end_checkout ::
  "'c conn_ops \<Rightarrow> instant \<Rightarrow> ('k, 'c, 'f, 't) checkout \<Rightarrow> ('k, 'c) pool_heap \<Rightarrow> ('k, 'c) cells
     \<Rightarrow> ('k, 'c) pool_heap \<times> ('k, 'c) cells" where
  "end_checkout ops now co heap cells = drop_rx ops now (ck_waiter co) (checkout_drop heap co) cells"

definition do_checkout ::
  "'c conn_ops \<Rightarrow> instant \<Rightarrow> 'k \<Rightarrow> bool \<Rightarrow> 'f \<Rightarrow> ('k, 'c, 'f, 't) world \<Rightarrow> ('k, 'c, 'f, 't) world" where
  "do_checkout ops now key multiplex f w =
     (case w_heap w 0 of
        None \<Rightarrow> w
      | Some i \<Rightarrow>
          (let (i', co, kept) = pool_checkout ops now 0 (length (w_cells w)) key multiplex f i
           in w\<lparr>w_heap := (w_heap w)(0 \<mapsto> i'),
                w_cells := w_cells w @ [if kept then Empty else TxDropped],
                w_checkouts := w_checkouts w @ [co]\<rparr>))"

definition do_poll ::
  "'c conn_ops \<Rightarrow> ('t \<Rightarrow> bool) \<Rightarrow> instant \<Rightarrow> ('e + 't) poll \<Rightarrow> ('t \<Rightarrow> ('e + 'c) poll) \<Rightarrow> nat
     \<Rightarrow> ('k, 'c, 'f, 't) world \<Rightarrow> ('k, 'c, 'f, 't) world \<times> ('e pool_error + ('k, 'c) pooled) poll" where
  "do_poll ops tshare now tr hs j w =
     (let co = w_checkouts w ! j;
          (rx, cells) = (case rx_channel (ck_waiter co) of
               None \<Rightarrow> (Panicked, w_cells w)
             | Some n \<Rightarrow> (let (r, c) = rx_poll (w_cells w ! n) in (r, (w_cells w)[n := c])));
          (heap', sends, co', res) =
            checkout_poll ops tshare (rx_closed cells) now
              \<lparr>in_rx = rx, in_transport = tr, in_handshake = hs\<rparr> (w_heap w) co;
          cells' = deliver sends cells
      in case res of
           Pending \<Rightarrow> (w\<lparr>w_heap := heap', w_cells := cells', w_checkouts := (w_checkouts w)[j := co']\<rparr>, res)
         | _ \<Rightarrow>
             (let (heap'', cells'') = end_checkout ops now co' heap' cells'
              in (w\<lparr>w_heap := heap'', w_cells := cells'', w_checkouts := remove_at j (w_checkouts w),
                    w_held := w_held w @ (case res of Ready (Inr p) \<Rightarrow> [p] | _ \<Rightarrow> [])\<rparr>, res)))"

definition do_cancel ::
  "'c conn_ops \<Rightarrow> instant \<Rightarrow> nat \<Rightarrow> ('k, 'c, 'f, 't) world \<Rightarrow> ('k, 'c, 'f, 't) world" where
  "do_cancel ops now j w =
     (let (heap', cells') = end_checkout ops now (w_checkouts w ! j) (w_heap w) (w_cells w)
      in w\<lparr>w_heap := heap', w_cells := cells', w_checkouts := remove_at j (w_checkouts w)\<rparr>)"

definition do_release ::
  "'c conn_ops \<Rightarrow> instant \<Rightarrow> nat \<Rightarrow> ('k, 'c, 'f, 't) world \<Rightarrow> ('k, 'c, 'f, 't) world" where
  "do_release ops now j w =
     (let (heap', cells') = release ops now (w_held w ! j) (w_heap w) (w_cells w)
      in w\<lparr>w_heap := heap', w_cells := cells', w_held := remove_at j (w_held w)\<rparr>)"

text \<open>Dropping the last handle of the pool drops every sender in its queues.\<close>

definition do_drop_pool :: "('k, 'c, 'f, 't) world \<Rightarrow> ('k, 'c, 'f, 't) world" where
  "do_drop_pool w = w\<lparr>w_heap := (w_heap w)(0 := None), w_cells := map tx_drop (w_cells w)\<rparr>"

section \<open>Ownership\<close>

definition cell_conns :: "('k, 'c) pooled cell \<Rightarrow> 'c multiset" where
  "cell_conns cell = (case cell of Full p \<Rightarrow> pooled_conns p | _ \<Rightarrow> {#})"

definition cells_conns :: "('k, 'c) cells \<Rightarrow> 'c multiset" where
  "cells_conns cells = list_msum cell_conns cells"

definition world_conns :: "('k, 'c, 'f, 't) world \<Rightarrow> 'c multiset" where
  "world_conns w = heap_conns (w_heap w) 0 + cells_conns (w_cells w)
     + list_msum checkout_conns (w_checkouts w) + list_msum pooled_conns (w_held w)"

inductive step :: "('c \<Rightarrow> bool) \<Rightarrow> ('k, 'c, 'f, 't) world \<Rightarrow> ('k, 'c, 'f, 't) world \<Rightarrow> bool"
  for share where
  checkout: "poolable_connection ops \<Longrightarrow> can_share ops = share \<Longrightarrow>
     step share w (do_checkout ops now key multiplex f w)"
| poll: "poolable_connection ops \<Longrightarrow> can_share ops = share \<Longrightarrow> j < length (w_checkouts w) \<Longrightarrow>
     (\<And>t c. hs t = Ready (Inr c) \<Longrightarrow> share c \<or> c \<notin># world_conns w) \<Longrightarrow>
     step share w (fst (do_poll ops tshare now (tr :: (unit + 't) poll) hs j w))"
| cancel: "poolable_connection ops \<Longrightarrow> can_share ops = share \<Longrightarrow> j < length (w_checkouts w) \<Longrightarrow>
     step share w (do_cancel ops now j w)"
| release: "poolable_connection ops \<Longrightarrow> can_share ops = share \<Longrightarrow> j < length (w_held w) \<Longrightarrow>
     step share w (do_release ops now j w)"
| drop_pool: "step share w (do_drop_pool w)"

section \<open>The invariant of heap and channels\<close>

text \<open>
  Every queued sender is in one queue only and its channel is unused, so that no send is
  lost or overwrites a value; every reference to a pool is to the one at address 0.
\<close>

definition chan_ok :: "('k, 'c) pool_inner \<Rightarrow> ('k, 'c) cells \<Rightarrow> bool" where
  "chan_ok i cells \<longleftrightarrow> queues_ok i \<and>
     (\<forall>n \<in> queued i. n < length cells \<and> (cells ! n = Empty \<or> cells ! n = RxDropped))"

definition linv :: "('k, 'c) pool_heap \<Rightarrow> ('k, 'c) cells \<Rightarrow> bool" where
  "linv heap cells \<longleftrightarrow> wf_heap heap 0 \<and> (\<forall>i. heap 0 = Some i \<longrightarrow> chan_ok i cells) \<and>
     (\<forall>p. Full p \<in> set cells \<longrightarrow> refers 0 (p_pool p))"

definition conserves :: "('c \<Rightarrow> bool) \<Rightarrow> ('k, 'c) pool_heap \<times> ('k, 'c) cells \<Rightarrow> ('k, 'c) pool_heap \<Rightarrow> ('k, 'c) cells
    \<Rightarrow> 'c multiset \<Rightarrow> bool" where
  "conserves share hc heap cells gain \<longleftrightarrow>
     unshared share (heap_conns (fst hc) 0 + cells_conns (snd hc))
       \<subseteq># unshared share (heap_conns heap 0 + cells_conns cells + gain)"

lemma deliver_length [simp]: "length (deliver sends cells) = length cells"
  by (induction sends cells rule: deliver.induct) auto

lemma deliver_other: "n \<notin> fst ` set sends \<Longrightarrow> deliver sends cells ! n = cells ! n"
  by (induction sends cells rule: deliver.induct) auto

lemma deliver_set: "set (deliver sends cells) \<subseteq> set cells \<union> Full ` snd ` set sends"
proof (induction sends cells rule: deliver.induct)
  case (2 n p sends cells)
  then show ?case using set_update_subset_insert [of cells n "Full p"] by auto
qed simp

lemma cells_update:
  "n < length cells \<Longrightarrow> cells_conns (cells[n := c]) + cell_conns (cells ! n) = cells_conns cells + cell_conns c"
  unfolding cells_conns_def by (rule list_msum_update)

lemma deliver_conns:
  "distinct (map fst sends) \<Longrightarrow> \<forall>n \<in> fst ` set sends. n < length cells \<and> cells ! n = Empty \<Longrightarrow>
     cells_conns (deliver sends cells) = cells_conns cells + sends_conns sends"
proof (induction sends cells rule: deliver.induct)
  case (2 n p sends cells)
  have "cells_conns (cells[n := Full p]) = cells_conns cells + pooled_conns p"
    using cells_update [of n cells "Full p"] 2(3) by (simp add: cell_conns_def)
  moreover have "\<forall>m \<in> fst ` set sends. m < length (cells[n := Full p]) \<and> cells[n := Full p] ! m = Empty"
    using 2(2,3) by (auto simp: nth_list_update)
  ultimately show ?case using 2(1,2) by (simp add: ac_simps)
qed simp

lemma push_sends_ref:
  "push ops closed now key c ref i = (i', sends) \<Longrightarrow> (n, p) \<in> set sends \<Longrightarrow> p_pool p = ref"
proof -
  have walk: "push_walk ops closed key ref ws c = (s, r, l) \<Longrightarrow> (n, p) \<in> set s \<Longrightarrow> p_pool p = ref" for ws s r l
    by (induction ws arbitrary: s r l) (auto split: if_splits option.splits prod.splits)
  show "push ops closed now key c ref i = (i', sends) \<Longrightarrow> (n, p) \<in> set sends \<Longrightarrow> p_pool p = ref"
    using push_waiting [of ops closed now key c ref i i' sends] walk by fastforce
qed

lemma push_linv:
  assumes "linv heap cells" and "heap 0 = Some i"
    and "push ops (rx_closed cells) now key c ref i = (i', sends)" and "refers 0 ref"
  shows "linv (heap(0 \<mapsto> i')) (deliver sends cells)"
    and "cells_conns (deliver sends cells) = cells_conns cells + sends_conns sends"
proof -
  from assms(1,2) have ok: "queues_ok i" and wf: "wf_inner i"
    and un: "\<forall>n \<in> queued i. n < length cells \<and> (cells ! n = Empty \<or> cells ! n = RxDropped)"
    and refs: "\<forall>p. Full p \<in> set cells \<longrightarrow> refers 0 (p_pool p)"
    by (auto simp: linv_def chan_ok_def wf_heap_def)
  note q = push_queues [OF assms(3) ok]
  from q(4) un have "\<forall>n \<in> fst ` set sends. n < length cells \<and> cells ! n = Empty"
    by (auto simp: rx_closed_def)
  then show "cells_conns (deliver sends cells) = cells_conns cells + sends_conns sends"
    by (rule deliver_conns [OF q(3)])
  have "deliver sends cells ! n = cells ! n \<and> n \<in> queued i" if "n \<in> queued i'" for n
    using that q(2,4) by (auto intro: deliver_other)
  with un q(1) have "chan_ok i' (deliver sends cells)" by (auto simp: chan_ok_def)
  moreover have "refers 0 (p_pool p)" if "Full p \<in> set (deliver sends cells)" for p
    using that deliver_set [of sends cells] refs push_sends_ref [OF assms(3)] assms(4) by fastforce
  ultimately show "linv (heap(0 \<mapsto> i')) (deliver sends cells)"
    using wf_push [OF wf assms(3)] by (auto simp: linv_def wf_heap_def)
qed

lemma release_ok:
  assumes "poolable_connection ops" and "linv heap cells" and "refers 0 (p_pool p)"
    and "release ops now p heap cells = hc"
  shows "linv (fst hc) (snd hc)" and "conserves (can_share ops) hc heap cells (pooled_conns p)"
proof -
  obtain heap' sends where drop: "drop_pooled ops (rx_closed cells) now heap p = (heap', sends)" by fastforce
  with assms(4) have hc: "hc = (heap', deliver sends cells)" by (auto simp: release_def)
  from assms(2) have wf: "wf_heap heap 0" by (simp add: linv_def)
  have "linv heap' (deliver sends cells) \<and> cells_conns (deliver sends cells) = cells_conns cells + sends_conns sends"
    using drop assms(3)
  proof (cases rule: drop_pooled_cases)
    case 1
    then show ?thesis using assms(2) by simp
  next
    case (2 c i i')
    with push_linv [OF assms(2) 2(4,5) assms(3)] show ?thesis by simp
  qed
  with drop_pooled_unshared [OF assms(1) wf assms(3) drop] hc
  show "linv (fst hc) (snd hc)" and "conserves (can_share ops) hc heap cells (pooled_conns p)"
    by (simp_all add: conserves_def ac_simps)
qed

lemma with_pool_linv:
  assumes "\<And>i. waiting (f i) = waiting i" and "\<And>i. wf_inner (f i) = wf_inner i"
  shows "linv (with_pool heap r f) cells = linv heap cells"
proof -
  have "chan_ok (f i) cells = chan_ok i cells" for i
    using queues_cong [OF assms(1) [of i]] by (simp add: chan_ok_def)
  then show ?thesis
    by (auto simp: with_pool_upd linv_def wf_heap_def assms(2) split: weak_opt.splits option.splits)
qed

lemma checkout_drop_linv: "linv (checkout_drop heap co) cells = linv heap cells"
  unfolding checkout_drop_def by (rule with_pool_linv) (simp_all add: cancel_connection_def)

lemma handshake_mark_linv:
  "linv (with_pool heap r (connected_in_handshake key)) cells = linv heap cells"
  by (rule with_pool_linv) (simp_all add: connected_in_handshake_def)

text \<open>A channel that is not queued may change, as long as it receives no value.\<close>

lemma linv_cell:
  assumes "linv heap cells" and "\<And>i. heap 0 = Some i \<Longrightarrow> n \<in> queued i \<Longrightarrow> c = Empty \<or> c = RxDropped"
    and "\<And>p. c = Full p \<Longrightarrow> refers 0 (p_pool p)"
  shows "linv heap (cells[n := c])"
proof -
  have "chan_ok i (cells[n := c])" if "heap 0 = Some i" for i
    using assms(1,2) that by (cases "n < length cells") (auto simp: linv_def chan_ok_def nth_list_update)
  moreover have "refers 0 (p_pool p)" if "Full p \<in> set (cells[n := c])" for p
    using that set_update_subset_insert [of cells n c] assms(1,3) by (auto simp: linv_def)
  ultimately show ?thesis using assms(1) by (simp add: linv_def)
qed

lemma queued_cell:
  "linv heap cells \<Longrightarrow> heap 0 = Some i \<Longrightarrow> n \<in> queued i \<Longrightarrow> cells ! n = Empty \<or> cells ! n = RxDropped"
  by (auto simp: linv_def chan_ok_def)

lemma drop_rx_ok:
  assumes "poolable_connection ops" and "linv heap cells"
    and "\<And>n. rx_channel w = Some n \<Longrightarrow> n < length cells" and "drop_rx ops now w heap cells = hc"
  shows "linv (fst hc) (snd hc)" and "conserves (can_share ops) hc heap cells {#}"
proof -
  have "linv (fst hc) (snd hc) \<and> conserves (can_share ops) hc heap cells {#}"
  proof (cases "rx_channel w")
    case None
    with assms(2,4) show ?thesis by (auto simp: drop_rx_def conserves_def)
  next
    case (Some n)
    with assms(3) have n: "n < length cells" by simp
    show ?thesis
    proof (cases "cells ! n")
      case (Full p)
      then have fp: "Full p \<in> set cells" using n by (metis nth_mem)
      with assms(2) have ref: "refers 0 (p_pool p)" by (auto simp: linv_def)
      have "linv heap (cells[n := Taken])"
        using queued_cell [OF assms(2), of _ n] Full by (intro linv_cell [OF assms(2)]) auto
      from release_ok [OF assms(1) this ref, of now hc] Full Some assms(4)
      have "linv (fst hc) (snd hc) \<and> conserves (can_share ops) hc heap (cells[n := Taken]) (pooled_conns p)"
        by (simp add: drop_rx_def)
      moreover have "cells_conns cells = cells_conns (cells[n := Taken]) + pooled_conns p"
        using cells_update [OF n, of Taken] Full by (simp add: cell_conns_def)
      ultimately show ?thesis by (simp add: conserves_def ac_simps)
    next
      case Empty
      have "linv heap (cells[n := RxDropped])" by (rule linv_cell [OF assms(2)]) simp_all
      with Empty Some assms(4) cells_update [OF n, of RxDropped] show ?thesis
        by (auto simp: drop_rx_def conserves_def cell_conns_def)
    qed (use Some assms(2,4) in \<open>auto simp: drop_rx_def conserves_def\<close>)
  qed
  then show "linv (fst hc) (snd hc)" and "conserves (can_share ops) hc heap cells {#}" by simp_all
qed

lemma release_length: "length (snd (release ops now p heap cells)) = length cells"
  by (auto simp: release_def split: prod.splits)

lemma drop_rx_length: "length (snd (drop_rx ops now w heap cells)) = length cells"
  by (auto simp: drop_rx_def release_length split: option.splits cell.splits)

lemma end_checkout_ok:
  assumes "poolable_connection ops" and "linv heap cells"
    and "\<And>n. rx_channel (ck_waiter co) = Some n \<Longrightarrow> n < length cells"
    and "end_checkout ops now co heap cells = hc"
  shows "linv (fst hc) (snd hc)" and "conserves (can_share ops) hc heap cells {#}"
    and "length (snd hc) = length cells"
proof -
  from assms(2) have "linv (checkout_drop heap co) cells" by (simp add: checkout_drop_linv)
  from drop_rx_ok [OF assms(1) this assms(3)] assms(4)
  show "linv (fst hc) (snd hc)" and "conserves (can_share ops) hc heap cells {#}"
    by (simp_all add: end_checkout_def conserves_def checkout_drop_conns)
  from assms(4) show "length (snd hc) = length cells"
    by (auto simp: end_checkout_def drop_rx_length)
qed

lemma connected_ok:
  assumes "poolable_connection ops" and "linv heap cells" and "refers 0 (ck_pool co)"
    and "connected ops (rx_closed cells) now heap co c = (heap', sends, p)"
  shows "linv heap' (deliver sends cells)" and "refers 0 (p_pool p)"
    and "unshared (can_share ops) (heap_conns heap' 0 + cells_conns (deliver sends cells) + pooled_conns p)
      = unshared (can_share ops) (heap_conns heap 0 + cells_conns cells + {#c#})"
proof -
  from assms(2) have wf: "wf_heap heap 0" by (simp add: linv_def)
  note u = connected_unshared [OF assms(1) wf assms(3,4)]
  have l: "linv heap' (deliver sends cells) \<and> cells_conns (deliver sends cells) = cells_conns cells + sends_conns sends"
    using assms(4,3)
  proof (cases rule: connected_cases)
    case plain
    then show ?thesis using assms(2) by simp
  next
    case (shared c' i i')
    with push_linv [OF assms(2) shared(1,3) assms(3)] show ?thesis by simp
  qed
  then show "linv heap' (deliver sends cells)" by simp
  from u(2) show "refers 0 (p_pool p)" .
  from u(3) l show "unshared (can_share ops) (heap_conns heap' 0 + cells_conns (deliver sends cells) + pooled_conns p)
      = unshared (can_share ops) (heap_conns heap 0 + cells_conns cells + {#c#})"
    by (simp add: ac_simps)
qed

section \<open>Polling keeps the invariant\<close>

definition res_conns :: "('e pool_error + ('k, 'c) pooled) poll \<Rightarrow> 'c multiset" where
  "res_conns res = (case res of Ready (Inr p) \<Rightarrow> pooled_conns p | _ \<Rightarrow> {#})"

text \<open>What a handshake may bring in: nothing, or one connection it answered.\<close>

definition gains :: "('t \<Rightarrow> ('e + 'c) poll) \<Rightarrow> 'c multiset \<Rightarrow> bool" where
  "gains hs M \<longleftrightarrow> M = {#} \<or> (\<exists>t c. hs t = Ready (Inr c) \<and> M = {#c#})"

lemma gains_empty [simp]: "gains hs {#}"
  by (simp add: gains_def)

definition poll_good ::
  "('c \<Rightarrow> bool) \<Rightarrow> ('t \<Rightarrow> ('e + 'c) poll) \<Rightarrow> 'c multiset \<Rightarrow> ('k, 'c, 'f, 't) checkout \<Rightarrow> ('k, 'c) cells
     \<Rightarrow> ('k, 'c, 'f, 't, 'e) poll_output \<Rightarrow> bool" where
  "poll_good share hs before co cells out \<longleftrightarrow>
     (case out of (heap', sends, co', res) \<Rightarrow>
        linv heap' (deliver sends cells) \<and> ck_pool co' = ck_pool co \<and> ck_waiter co' = ck_waiter co \<and>
        (\<forall>p. res = Ready (Inr p) \<longrightarrow> refers 0 (p_pool p)) \<and>
        (\<exists>M. gains hs M \<and>
           unshared share (heap_conns heap' 0 + cells_conns (deliver sends cells) + checkout_conns co' + res_conns res)
             \<subseteq># unshared share (before + M)))"

lemma good_stay:
  assumes "linv heap cells" and "\<And>p. res = Ready (Inr p) \<Longrightarrow> refers 0 (p_pool p)"
    and "ck_pool co' = ck_pool co" and "ck_waiter co' = ck_waiter co"
    and "before = heap_conns heap 0 + cells_conns cells + checkout_conns co' + res_conns res"
  shows "poll_good share hs before co cells (heap, [], co', res)"
  using assms by (auto simp: poll_good_def intro: exI [of _ "{#}"])

lemma good_connected:
  fixes p :: "('k, 'c) pooled" and hs :: "'t \<Rightarrow> ('e + 'c) poll"
  assumes "poolable_connection ops" and "linv heap cells" and "refers 0 (ck_pool co')"
    and "ck_pool co' = ck_pool co" and "ck_waiter co' = ck_waiter co"
    and "connected ops (rx_closed cells) now heap co' c = (heap', sends, p)"
    and "gains hs M" and "before + M = heap_conns heap 0 + cells_conns cells + checkout_conns co' + {#c#}"
  shows "poll_good (can_share ops) hs before co cells (heap', sends, co', Ready (Inr p))"
proof -
  from connected_ok [OF assms(1,2,3,6)]
  have l: "linv heap' (deliver sends cells)" "refers 0 (p_pool p)"
    and u: "unshared (can_share ops) (heap_conns heap' 0 + cells_conns (deliver sends cells) + pooled_conns p)
      = unshared (can_share ops) (heap_conns heap 0 + cells_conns cells + {#c#})" by auto
  have "unshared (can_share ops) (heap_conns heap' 0 + cells_conns (deliver sends cells) + checkout_conns co'
      + res_conns (Ready (Inr p) :: ('e pool_error + _) poll)) = unshared (can_share ops) (before + M)"
    using u unfolding assms(8) by (simp add: res_conns_def ac_simps)
  with l assms(4,5,7) show ?thesis by (auto simp: poll_good_def intro!: exI [of _ M])
qed

lemma handshaking_good:
  assumes "poolable_connection ops" and "linv heap cells" and "refers 0 (ck_pool co')"
    and "ck_pool co' = ck_pool co" and "ck_waiter co' = ck_waiter co" and "in_handshake inp = hs"
    and "before = heap_conns heap 0 + cells_conns cells + checkout_conns co'"
  shows "poll_good (can_share ops) hs before co cells (poll_handshaking ops (rx_closed cells) now inp heap co' t)"
proof (cases "hs t")
  case (Ready r)
  show ?thesis
  proof (cases r)
    case (Inl e)
    with Ready assms show ?thesis
      by (auto simp: poll_handshaking_def res_conns_def intro!: good_stay)
  next
    case (Inr c)
    obtain heap' sends p where con: "connected ops (rx_closed cells) now heap co' c = (heap', sends, p)"
      using prod_cases3 by blast
    have g: "gains hs {#c#}" using Ready Inr by (auto simp: gains_def)
    from good_connected [OF assms(1-5) con g] assms(7) con Ready Inr assms(6)
    show ?thesis by (simp add: poll_handshaking_def)
  qed
qed (use assms in \<open>auto simp: poll_handshaking_def res_conns_def intro!: good_stay\<close>)

lemma connect_good:
  assumes "poolable_connection ops" and "linv heap cells" and "refers 0 (ck_pool co)" and "in_handshake inp = hs"
    and before: "before = heap_conns heap 0 + cells_conns cells + checkout_conns co"
  shows "poll_good (can_share ops) hs before co cells (poll_connect ops tshare (rx_closed cells) now inp heap co)"
proof (cases "ck_inner co")
  case Inner_Waiting
  with assms show ?thesis by (auto simp: poll_connect_def res_conns_def intro!: good_stay)
next
  case Inner_Connected
  show ?thesis
  proof (cases "ck_connection co")
    case None
    with Inner_Connected assms show ?thesis
      by (auto simp: poll_connect_def res_conns_def intro!: good_stay)
  next
    case (Some c)
    let ?co = "co\<lparr>ck_connection := None\<rparr>"
    obtain heap' sends p where con: "connected ops (rx_closed cells) now heap ?co c = (heap', sends, p)"
      using prod_cases3 by blast
    have "poll_good (can_share ops) hs before co cells (heap', sends, ?co, Ready (Inr p))"
      by (rule good_connected [OF assms(1,2) _ _ _ con gains_empty])
        (use assms Some in \<open>auto simp: checkout_conns_def\<close>)
    with con Some Inner_Connected show ?thesis by (simp add: poll_connect_def)
  qed
next
  case (Inner_Handshaking t)
  from handshaking_good [OF assms(1-3) refl refl assms(4,5)] Inner_Handshaking show ?thesis
    by (simp add: poll_connect_def)
next
  case (Inner_Connecting f)
  show ?thesis
  proof (cases "in_transport inp")
    case (Ready r)
    show ?thesis
    proof (cases r)
      case (Inl e)
      with Ready Inner_Connecting assms show ?thesis
        by (auto simp: poll_connect_def res_conns_def intro!: good_stay)
    next
      case (Inr t)
      let ?heap = "if tshare t then with_pool heap (ck_pool co) (connected_in_handshake (ck_key co)) else heap"
      let ?co = "co\<lparr>ck_inner := Inner_Handshaking t\<rparr>"
      have "linv ?heap cells" using assms(2) by (simp add: handshake_mark_linv)
      moreover have "before = heap_conns ?heap 0 + cells_conns cells + checkout_conns ?co"
        by (simp add: before handshake_mark_conns checkout_conns_def)
      ultimately have "poll_good (can_share ops) hs before co cells
          (poll_handshaking ops (rx_closed cells) now inp ?heap ?co t)"
        by (intro handshaking_good assms) (use assms(3) in auto)
      with Ready Inr Inner_Connecting show ?thesis by (simp add: poll_connect_def)
    qed
  qed (use assms Inner_Connecting in \<open>auto simp: poll_connect_def res_conns_def intro!: good_stay\<close>)
qed

text \<open>The poll of the receiver moves a value from its channel to the answer.\<close>

definition rx_conns :: "(unit + ('k, 'c) pooled) poll \<Rightarrow> 'c multiset" where
  "rx_conns rx = (case rx of Ready (Inr p) \<Rightarrow> pooled_conns p | _ \<Rightarrow> {#})"

lemma checkout_poll_good:
  assumes "poolable_connection ops" and "linv heap cells" and "refers 0 (ck_pool co)" and "in_handshake inp = hs"
    and "\<And>p. in_rx inp = Ready (Inr p) \<Longrightarrow> refers 0 (p_pool p)"
    and "rx_channel (ck_waiter co) = None \<Longrightarrow> in_rx inp = Panicked"
    and before: "before = heap_conns heap 0 + cells_conns cells + checkout_conns co + rx_conns (in_rx inp)"
  shows "poll_good (can_share ops) hs before co cells (checkout_poll ops tshare (rx_closed cells) now inp heap co)"
proof -
  note connect = connect_good [OF assms(1-4), of before tshare now]
  show ?thesis
    using assms connect
    by (cases "ck_waiter co"; cases "in_rx inp")
      (auto simp: checkout_poll_def rx_conns_def res_conns_def split: sum.splits intro!: good_stay)
qed

section \<open>The invariant of the world\<close>

definition co_ok :: "nat \<Rightarrow> ('k, 'c, 'f, 't) checkout \<Rightarrow> bool" where
  "co_ok len co \<longleftrightarrow> refers 0 (ck_pool co) \<and> (\<forall>n. rx_channel (ck_waiter co) = Some n \<longrightarrow> n < len)"

definition winv :: "('k, 'c, 'f, 't) world \<Rightarrow> bool" where
  "winv w \<longleftrightarrow> linv (w_heap w) (w_cells w) \<and>
     (\<forall>co \<in> set (w_checkouts w). co_ok (length (w_cells w)) co) \<and>
     (\<forall>p \<in> set (w_held w). refers 0 (p_pool p))"

definition exclusive :: "('c \<Rightarrow> bool) \<Rightarrow> ('k, 'c, 'f, 't) world \<Rightarrow> bool" where
  "exclusive share w \<longleftrightarrow> (\<forall>c. \<not> share c \<longrightarrow> count (world_conns w) c \<le> 1)"

text \<open>A step adds nothing to what is owned, or one fresh connection.\<close>

definition step_conns :: "('c \<Rightarrow> bool) \<Rightarrow> ('k, 'c, 'f, 't) world \<Rightarrow> ('k, 'c, 'f, 't) world \<Rightarrow> bool" where
  "step_conns share w w' \<longleftrightarrow>
     (\<exists>M. (M = {#} \<or> (\<exists>c. M = {#c#} \<and> (share c \<or> c \<notin># world_conns w))) \<and>
        unshared share (world_conns w') \<subseteq># unshared share (world_conns w + M))"

lemma step_conns_none:
  "unshared share (world_conns w') \<subseteq># unshared share (world_conns w) \<Longrightarrow> step_conns share w w'"
  by (auto simp: step_conns_def intro!: exI [of _ "{#}"])

lemma count_unshared: "\<not> share c \<Longrightarrow> count (unshared share M) c = count M c"
  by (simp add: unshared_def)

lemma step_conns_exclusive: "step_conns share w w' \<Longrightarrow> exclusive share w \<Longrightarrow> exclusive share w'"
proof -
  assume "step_conns share w w'" and ex: "exclusive share w"
  then obtain M where M: "M = {#} \<or> (\<exists>c. M = {#c#} \<and> (share c \<or> c \<notin># world_conns w))"
    and sub: "unshared share (world_conns w') \<subseteq># unshared share (world_conns w + M)"
    by (auto simp: step_conns_def)
  have "count (world_conns w') c \<le> 1" if c: "\<not> share c" for c
  proof -
    from sub have "count (world_conns w') c \<le> count (world_conns w + M) c"
      unfolding subseteq_mset_def by (metis c count_unshared)
    also have "\<dots> \<le> 1" using M ex c by (auto simp: exclusive_def not_in_iff)
    finally show ?thesis .
  qed
  then show "exclusive share w'" by (simp add: exclusive_def)
qed

lemma winv_init: "winv (world_init c)" and exclusive_init: "exclusive share (world_init c)"
  by (auto simp: winv_def world_init_def linv_def wf_heap_def chan_ok_def exclusive_def
      world_conns_def heap_conns_def cells_conns_def)

lemma co_ok_new:
  "refers 0 (ck_pool (checkout_new key 0 ch f c))"
  "rx_channel (ck_waiter (checkout_new key 0 ch f c)) = Some ch"
  "checkout_conns (checkout_new key 0 ch f c) = opt_msum (\<lambda>c. {#c#}) c"
  by (auto simp: checkout_new_def checkout_conns_def Let_def split: option.splits)

lemma push_waiter_frame [simp]:
  "inner_conns (push_waiter key n i) = inner_conns i" "wf_inner (push_waiter key n i) = wf_inner i"
  "connecting (push_waiter key n i) = connecting i" "idle_conns (push_waiter key n i) = idle_conns i"
  by (simp_all add: push_waiter_def)

lemma push_waiter_chan:
  assumes "chan_ok i cells"
  shows "chan_ok (push_waiter key (length cells) i) (cells @ [Empty])"
proof -
  define ws where "ws = (case waiting i key of None \<Rightarrow> [] | Some ws \<Rightarrow> ws)"
  from assms have ok: "queues_ok i" and un: "\<forall>n \<in> queued i. n < length cells \<and> (cells ! n = Empty \<or> cells ! n = RxDropped)"
    by (auto simp: chan_ok_def)
  have ws: "n \<in> queued i" if "n \<in> set ws" for n
    using that by (cases "waiting i key") (auto simp: ws_def queued_iff)
  have q: "n \<in> queued i \<or> n = length cells" if "n \<in> queued (push_waiter key (length cells) i)" for n
    using that ws by (auto simp: push_waiter_def queued_iff ws_def [symmetric] split: if_splits)
  have dis: "k = k'" if "waiting i k = Some xs" "waiting i k' = Some ys" "n \<in> set xs" "n \<in> set ys" for k k' xs ys n
    using ok that by (auto simp: queues_ok_def)
  have fresh: "length cells \<notin> queued i" using un by auto
  have wd: "distinct ws" using ok by (auto simp: ws_def queues_ok_def split: option.splits)
  have wk: "n \<in> set ws \<Longrightarrow> waiting i k = Some xs \<Longrightarrow> n \<in> set xs \<Longrightarrow> k = key" for n k xs
    using dis by (cases "waiting i key") (auto simp: ws_def)
  have "queues_ok (push_waiter key (length cells) i)"
    unfolding queues_ok_def
  proof (intro conjI allI impI)
    fix k xs
    assume "waiting (push_waiter key (length cells) i) k = Some xs"
    then show "distinct xs"
      using ok wd ws fresh by (auto simp: push_waiter_def ws_def [symmetric] queues_ok_def split: if_splits)
  next
    fix k k' xs ys n
    assume "waiting (push_waiter key (length cells) i) k = Some xs"
      "waiting (push_waiter key (length cells) i) k' = Some ys" "n \<in> set xs" "n \<in> set ys"
    then show "k = k'"
      using dis wk fresh by (auto simp: push_waiter_def ws_def [symmetric] queued_iff split: if_splits)
  qed
  with q un show ?thesis by (fastforce simp: chan_ok_def nth_append)
qed

lemma chan_ok_append: "chan_ok i cells \<Longrightarrow> chan_ok i (cells @ [c])"
  by (auto simp: chan_ok_def nth_append)

section \<open>Every step keeps the invariant and the ownership\<close>

lemma linv_append: "linv heap cells \<Longrightarrow> \<forall>p. c \<noteq> Full p \<Longrightarrow> linv heap (cells @ [c])"
  by (auto simp: linv_def chan_ok_append)

lemma linv_heap: "linv heap cells \<Longrightarrow> chan_ok i cells \<Longrightarrow> wf_inner i \<Longrightarrow> linv (heap(0 \<mapsto> i)) cells"
  by (simp add: linv_def wf_heap_def)

lemma cells_conns_snoc: "cells_conns (cells @ [c]) = cells_conns cells + cell_conns c"
  by (simp add: cells_conns_def)

lemma co_ok_mono: "co_ok len co \<Longrightarrow> len \<le> len' \<Longrightarrow> co_ok len' co"
  by (auto simp: co_ok_def)

lemma pool_checkout_ok:
  assumes "pool_checkout ops now 0 (length cells) key multiplex f i = (i', co, kept)"
    and "chan_ok i cells" and "wf_inner i"
  shows "chan_ok i' (cells @ [if kept then Empty else TxDropped])" and "wf_inner i'"
    and "inner_conns i' + checkout_conns co \<subseteq># inner_conns i"
    and "co_ok (Suc (length cells)) co"
proof -
  obtain i1 popped where pop: "pop ops now key i = (i1, popped)" by fastforce
  note p = pop_unshared [OF assms(3) pop]
  from pop_frame [OF pop] have "waiting i1 = waiting i" by simp
  from queues_cong [OF this] assms(2) have c1: "chan_ok i1 cells" by (simp add: chan_ok_def)
  have chan_cong: "chan_ok (j\<lparr>connecting := x\<rparr>) cs = chan_ok j cs" for j x cs
    by (simp add: chan_ok_def)
  from assms(1) pop have "chan_ok i' (cells @ [if kept then Empty else TxDropped]) \<and> wf_inner i' \<and>
    inner_conns i' + checkout_conns co \<subseteq># inner_conns i \<and> co_ok (Suc (length cells)) co"
    using p c1 chan_ok_append [OF c1] push_waiter_chan [OF c1]
    by (auto simp: pool_checkout_def Let_def co_ok_def co_ok_new chan_cong split: option.splits if_splits)
  then show "chan_ok i' (cells @ [if kept then Empty else TxDropped])" and "wf_inner i'"
    and "inner_conns i' + checkout_conns co \<subseteq># inner_conns i"
    and "co_ok (Suc (length cells)) co" by simp_all
qed

lemma do_checkout_ok:
  fixes w :: "('k, 'c, 'f, 't) world"
  assumes "winv w"
  shows "winv (do_checkout ops now key multiplex f w)"
    and "step_conns share w (do_checkout ops now key multiplex f w)"
proof -
  let ?w = "do_checkout ops now key multiplex f w"
  have "winv ?w \<and> step_conns share w ?w"
  proof (cases "w_heap w 0")
    case None
    with assms show ?thesis by (auto simp: do_checkout_def intro: step_conns_none)
  next
    case (Some i)
    let ?cells = "w_cells w"
    obtain i' kept and co :: "('k, 'c, 'f, 't) checkout" where pc: "pool_checkout ops now 0 (length ?cells) key multiplex f i = (i', co, kept)"
      using prod_cases3 by blast
    let ?cell = "if kept then Empty else TxDropped"
    have w': "?w = w\<lparr>w_heap := (w_heap w)(0 \<mapsto> i'), w_cells := ?cells @ [?cell],
        w_checkouts := w_checkouts w @ [co]\<rparr>"
      using Some pc by (simp add: do_checkout_def)
    from assms have l: "linv (w_heap w) ?cells" by (simp add: winv_def)
    with Some have "chan_ok i ?cells" "wf_inner i" by (auto simp: linv_def wf_heap_def)
    note ok = pool_checkout_ok [OF pc this]
    have "linv (w_heap w) (?cells @ [?cell])" by (rule linv_append [OF l]) simp
    from linv_heap [OF this ok(1,2)] have "linv (w_heap ?w) (w_cells ?w)" by (simp add: w')
    moreover have "unshared share (world_conns ?w) \<subseteq># unshared share (world_conns w)"
      by (rule unshared_mono) (use ok(3) Some in \<open>simp add: world_conns_def w' heap_conns_def
        cells_conns_snoc cell_conns_def ac_simps\<close>)
    ultimately show ?thesis
      using assms ok(4) by (auto simp: winv_def w' intro: co_ok_mono step_conns_none)
  qed
  then show "winv ?w" and "step_conns share w ?w" by simp_all
qed

lemma winv_step:
  assumes "winv w" and "linv (w_heap w') (w_cells w')" and "length (w_cells w') = length (w_cells w)"
    and "\<forall>co \<in> set (w_checkouts w'). \<exists>co0 \<in> set (w_checkouts w). ck_pool co = ck_pool co0 \<and> ck_waiter co = ck_waiter co0"
    and "\<forall>p \<in> set (w_held w'). p \<in> set (w_held w) \<or> refers 0 (p_pool p)"
  shows "winv w'"
  using assms by (fastforce simp: winv_def co_ok_def)

lemma mset_le_extra: "A \<subseteq># B + C \<Longrightarrow> A \<subseteq># B + (C + D)" for A :: "'a multiset"
  by (metis add.assoc mset_subset_eq_add_left subset_mset.order_trans)

lemma do_cancel_ok:
  assumes "winv w" and "poolable_connection ops" and "can_share ops = share" and "j < length (w_checkouts w)"
  shows "winv (do_cancel ops now j w)" and "step_conns share w (do_cancel ops now j w)"
proof -
  let ?co = "w_checkouts w ! j"
  obtain heap' cells' where ec: "end_checkout ops now ?co (w_heap w) (w_cells w) = (heap', cells')" by fastforce
  from assms(1,4) have co: "co_ok (length (w_cells w)) ?co" and l: "linv (w_heap w) (w_cells w)"
    by (auto simp: winv_def)
  from co have ch: "rx_channel (ck_waiter ?co) = Some n \<Longrightarrow> n < length (w_cells w)" for n
    by (simp add: co_ok_def)
  note e = end_checkout_ok [OF assms(2) l ch ec]
  have w': "do_cancel ops now j w = w\<lparr>w_heap := heap', w_cells := cells', w_checkouts := remove_at j (w_checkouts w)\<rparr>"
    by (simp add: do_cancel_def ec)
  show "winv (do_cancel ops now j w)"
    by (rule winv_step [OF assms(1)])
      (use e set_remove_at [of j "w_checkouts w"] in \<open>auto simp: w'\<close>)
  have "unshared share (world_conns (do_cancel ops now j w)) \<subseteq># unshared share (world_conns w)"
    using e(2) list_msum_split [OF assms(4), of checkout_conns]
    by (simp add: w' world_conns_def conserves_def assms(3) ac_simps mset_le_extra)
  then show "step_conns share w (do_cancel ops now j w)" by (rule step_conns_none)
qed

lemma do_release_ok:
  assumes "winv w" and "poolable_connection ops" and "can_share ops = share" and "j < length (w_held w)"
  shows "winv (do_release ops now j w)" and "step_conns share w (do_release ops now j w)"
proof -
  let ?p = "w_held w ! j"
  obtain heap' cells' where rel: "release ops now ?p (w_heap w) (w_cells w) = (heap', cells')" by fastforce
  from assms(1,4) have p: "refers 0 (p_pool ?p)" and l: "linv (w_heap w) (w_cells w)"
    by (auto simp: winv_def)
  note e = release_ok [OF assms(2) l p rel]
  have len: "length cells' = length (w_cells w)" using release_length [of ops now ?p "w_heap w" "w_cells w"] rel by simp
  have w': "do_release ops now j w = w\<lparr>w_heap := heap', w_cells := cells', w_held := remove_at j (w_held w)\<rparr>"
    by (simp add: do_release_def rel)
  show "winv (do_release ops now j w)"
    by (rule winv_step [OF assms(1)]) (use e len set_remove_at [of j "w_held w"] in \<open>auto simp: w'\<close>)
  have "unshared share (world_conns (do_release ops now j w)) \<subseteq># unshared share (world_conns w)"
    using e(2) list_msum_split [OF assms(4), of pooled_conns]
    by (simp add: w' world_conns_def conserves_def assms(3) ac_simps)
  then show "step_conns share w (do_release ops now j w)" by (rule step_conns_none)
qed

lemma tx_drop_Full [simp]: "tx_drop c = Full p \<longleftrightarrow> c = Full p" "Full p = tx_drop c \<longleftrightarrow> c = Full p"
  by (cases c; auto)+

lemma tx_drop_conns [simp]: "cell_conns (tx_drop c) = cell_conns c"
  by (cases c) (simp_all add: cell_conns_def)

lemma do_drop_pool_ok:
  assumes "winv w"
  shows "winv (do_drop_pool w)" and "step_conns share w (do_drop_pool w)"
proof -
  show "winv (do_drop_pool w)"
    using assms by (auto simp: winv_def do_drop_pool_def linv_def wf_heap_def)
  have "cells_conns (map tx_drop (w_cells w)) = cells_conns (w_cells w)"
    by (simp add: cells_conns_def list_msum_def comp_def)
  then have "unshared share (world_conns (do_drop_pool w)) \<subseteq># unshared share (world_conns w)"
    by (intro unshared_mono) (simp add: world_conns_def do_drop_pool_def heap_conns_def)
  then show "step_conns share w (do_drop_pool w)" by (rule step_conns_none)
qed

lemma rx_poll_ok:
  assumes "linv heap cells" and "n < length cells" and "rx_poll (cells ! n) = (rx, c)"
  shows "linv heap (cells[n := c])" and "rx = Ready (Inr p) \<Longrightarrow> refers 0 (p_pool p)"
    and "cells_conns (cells[n := c]) + rx_conns rx = cells_conns cells"
proof -
  have mem: "cells ! n \<in> set cells" using assms(2) by simp
  show "linv heap (cells[n := c])"
    by (rule linv_cell [OF assms(1)])
      (use assms(3) mem queued_cell [OF assms(1), of _ n] in \<open>cases "cells ! n"; auto\<close>)+
  show "rx = Ready (Inr p) \<Longrightarrow> refers 0 (p_pool p)"
    using assms(1,3) mem by (cases "cells ! n") (auto simp: linv_def)
  show "cells_conns (cells[n := c]) + rx_conns rx = cells_conns cells"
    using cells_update [OF assms(2), of c] assms(3)
    by (cases "cells ! n") (auto simp: cell_conns_def rx_conns_def)
qed

lemma receive_ok:
  assumes "linv heap cells0" and "co_ok (length cells0) co"
    and "(case rx_channel (ck_waiter co) of None \<Rightarrow> (Panicked, cells0)
      | Some n \<Rightarrow> (let (r, c) = rx_poll (cells0 ! n) in (r, cells0[n := c]))) = (rx, cells)"
  shows "linv heap cells" and "rx = Ready (Inr p) \<Longrightarrow> refers 0 (p_pool p)" and "length cells = length cells0"
    and "cells_conns cells + rx_conns rx = cells_conns cells0" and "rx_channel (ck_waiter co) = None \<Longrightarrow> rx = Panicked"
proof -
  have "linv heap cells \<and> (\<forall>p. rx = Ready (Inr p) \<longrightarrow> refers 0 (p_pool p)) \<and> length cells = length cells0 \<and>
    cells_conns cells + rx_conns rx = cells_conns cells0 \<and> (rx_channel (ck_waiter co) = None \<longrightarrow> rx = Panicked)"
  proof (cases "rx_channel (ck_waiter co)")
    case None
    with assms(1,3) show ?thesis by (auto simp: rx_conns_def)
  next
    case (Some n)
    with assms(2) have n: "n < length cells0" by (simp add: co_ok_def)
    obtain c where c: "rx_poll (cells0 ! n) = (rx, c)" "cells = cells0[n := c]"
      using assms(3) Some by (auto split: prod.splits)
    from rx_poll_ok [OF assms(1) n c(1)] c(2) Some show ?thesis by simp
  qed
  then show "linv heap cells" and "rx = Ready (Inr p) \<Longrightarrow> refers 0 (p_pool p)" and "length cells = length cells0"
    and "cells_conns cells + rx_conns rx = cells_conns cells0" and "rx_channel (ck_waiter co) = None \<Longrightarrow> rx = Panicked"
    by auto
qed

text \<open>What the other checkouts and the lent connections own.\<close>

definition others_conns :: "nat \<Rightarrow> ('k, 'c, 'f, 't) world \<Rightarrow> 'c multiset" where
  "others_conns j w = list_msum checkout_conns (remove_at j (w_checkouts w)) + list_msum pooled_conns (w_held w)"

lemma poll_pending_ok:
  fixes w :: "('k, 'c, 'f, 't) world"
  assumes "winv w" and "j < length (w_checkouts w)" and "linv heap cells" and "length cells = length (w_cells w)"
    and "ck_pool co' = ck_pool (w_checkouts w ! j)" and "ck_waiter co' = ck_waiter (w_checkouts w ! j)"
    and "unshared share (heap_conns heap 0 + cells_conns cells + checkout_conns co') \<subseteq># unshared share N"
    and "w' = w\<lparr>w_heap := heap, w_cells := cells, w_checkouts := (w_checkouts w)[j := co']\<rparr>"
  shows "winv w'" and "unshared share (world_conns w') \<subseteq># unshared share (N + others_conns j w)"
proof -
  from assms(1,2) have "co_ok (length (w_cells w)) (w_checkouts w ! j)" by (auto simp: winv_def)
  then show "winv w'"
    by (intro winv_step [OF assms(1)])
      (use assms in \<open>auto simp: co_ok_def dest!: set_update_subset_insert [THEN subsetD]\<close>)
  have "list_msum checkout_conns ((w_checkouts w)[j := co']) =
      checkout_conns co' + list_msum checkout_conns (remove_at j (w_checkouts w))"
    using list_msum_update [OF assms(2), of checkout_conns co']
      list_msum_split [OF assms(2), of checkout_conns] by (simp add: ac_simps)
  with assms(7) show "unshared share (world_conns w') \<subseteq># unshared share (N + others_conns j w)"
    by (simp add: assms(8) world_conns_def others_conns_def ac_simps)
qed

lemma poll_over_ok:
  fixes w :: "('k, 'c, 'f, 't) world"
  assumes "winv w" and "poolable_connection ops" and "can_share ops = share" and "linv heap cells" and "length cells = length (w_cells w)"
    and "\<And>n. rx_channel (ck_waiter co') = Some n \<Longrightarrow> n < length cells" and "end_checkout ops now co' heap cells = (heap', cells')"
    and "\<And>p. res = Ready (Inr p) \<Longrightarrow> refers 0 (p_pool p)"
    and "unshared share (heap_conns heap 0 + cells_conns cells + checkout_conns co' + res_conns res) \<subseteq># unshared share N"
    and "w' = w\<lparr>w_heap := heap', w_cells := cells', w_checkouts := remove_at j (w_checkouts w),
      w_held := w_held w @ (case res of Ready (Inr p) \<Rightarrow> [p] | _ \<Rightarrow> [])\<rparr>"
  shows "winv w'" and "unshared share (world_conns w') \<subseteq># unshared share (N + others_conns j w)"
proof -
  define held where "held = (case res of Ready (Inr p) \<Rightarrow> [p] | _ \<Rightarrow> [])"
  note e = end_checkout_ok [OF assms(2,4,6,7)]
  have held: "list_msum pooled_conns held = res_conns res" and "\<forall>p \<in> set held. refers 0 (p_pool p)"
    using assms(8) by (auto simp: held_def res_conns_def split: poll.splits sum.splits)
  then show "winv w'"
    by (intro winv_step [OF assms(1)])
      (use e assms(5) set_remove_at [of j "w_checkouts w"] in \<open>auto simp: assms(10) held_def [symmetric]\<close>)
  have "unshared share (heap_conns heap' 0 + cells_conns cells' + res_conns res)
      \<subseteq># unshared share (heap_conns heap 0 + cells_conns cells + res_conns res)"
    using e(2) by (simp add: conserves_def assms(3))
  also have "\<dots> \<subseteq># unshared share (heap_conns heap 0 + cells_conns cells + checkout_conns co' + res_conns res)"
    by (rule unshared_mono) (simp add: ac_simps mset_le_extra)
  finally have "unshared share (heap_conns heap' 0 + cells_conns cells' + res_conns res) \<subseteq># unshared share N"
    using assms(9) by (rule subset_mset.order_trans)
  then show "unshared share (world_conns w') \<subseteq># unshared share (N + others_conns j w)"
    by (simp add: assms(10) held_def [symmetric] world_conns_def held others_conns_def ac_simps)
qed

lemma do_poll_ok:
  assumes "winv w" and "poolable_connection ops" and "can_share ops = share" and "j < length (w_checkouts w)"
    and "\<And>t c. hs t = Ready (Inr c) \<Longrightarrow> share c \<or> c \<notin># world_conns w"
  shows "winv (fst (do_poll ops tshare now tr hs j w))"
    and "step_conns share w (fst (do_poll ops tshare now tr hs j w))"
proof -
  let ?co = "w_checkouts w ! j" and ?heap = "w_heap w" and ?w = "fst (do_poll ops tshare now tr hs j w)"
  from assms(1,4) have co: "co_ok (length (w_cells w)) ?co" and l: "linv ?heap (w_cells w)"
    by (auto simp: winv_def)
  obtain rx cells where rx: "(case rx_channel (ck_waiter ?co) of None \<Rightarrow> (Panicked, w_cells w)
    | Some n \<Rightarrow> (let (r, c) = rx_poll (w_cells w ! n) in (r, (w_cells w)[n := c]))) = (rx, cells)" by fastforce
  note cells = receive_ok [OF l co rx]
  define before where "before = heap_conns ?heap 0 + cells_conns cells + checkout_conns ?co + rx_conns rx"
  obtain heap' sends co' res where cp: "checkout_poll ops tshare (rx_closed cells) now
      \<lparr>in_rx = rx, in_transport = tr, in_handshake = hs\<rparr> ?heap ?co = (heap', sends, co', res)"
    using prod_cases4 by blast
  have "poll_good (can_share ops) hs before ?co cells (heap', sends, co', res)"
    unfolding cp [symmetric]
    by (rule checkout_poll_good) (use assms(2) cells co in \<open>auto simp: before_def co_ok_def\<close>)
  then obtain M where good: "linv heap' (deliver sends cells)" "ck_pool co' = ck_pool ?co"
      "ck_waiter co' = ck_waiter ?co" "\<And>p. res = Ready (Inr p) \<Longrightarrow> refers 0 (p_pool p)" "gains hs M"
      "unshared share (heap_conns heap' 0 + cells_conns (deliver sends cells) + checkout_conns co' + res_conns res)
         \<subseteq># unshared share (before + M)"
    by (auto simp: poll_good_def assms(3))
  have M: "M = {#} \<or> (\<exists>c. M = {#c#} \<and> (share c \<or> c \<notin># world_conns w))"
    using good(5) assms(5) by (auto simp: gains_def)
  have world: "world_conns w = before + others_conns j w"
    using cells(4) list_msum_split [OF assms(4), of checkout_conns]
    by (simp add: world_conns_def before_def others_conns_def ac_simps)
  let ?cells = "deliver sends cells" and ?cos = "w_checkouts w"
  have len: "length ?cells = length (w_cells w)" using cells(3) by simp
  have dp: "do_poll ops tshare now tr hs j w = (case res of
       Pending \<Rightarrow> (w\<lparr>w_heap := heap', w_cells := ?cells, w_checkouts := ?cos[j := co']\<rparr>, res)
     | _ \<Rightarrow> (let (heap'', cells'') = end_checkout ops now co' heap' ?cells
            in (w\<lparr>w_heap := heap'', w_cells := cells'', w_checkouts := remove_at j ?cos,
                  w_held := w_held w @ (case res of Ready (Inr p) \<Rightarrow> [p] | _ \<Rightarrow> [])\<rparr>, res)))"
    using rx cp by (simp add: do_poll_def Let_def)
  have "winv ?w \<and> unshared share (world_conns ?w) \<subseteq># unshared share (before + M + others_conns j w)"
  proof (cases "res = Pending")
    case True
    with poll_pending_ok [OF assms(1,4) good(1) len good(2,3), of share "before + M" ?w] good(6) show ?thesis
      by (simp add: dp res_conns_def)
  next
    case False
    obtain heap'' cells'' where ec: "end_checkout ops now co' heap' ?cells = (heap'', cells'')" by fastforce
    have ch: "rx_channel (ck_waiter co') = Some n \<Longrightarrow> n < length ?cells" for n
      using co good(3) len by (simp add: co_ok_def)
    have "?w = w\<lparr>w_heap := heap'', w_cells := cells'', w_checkouts := remove_at j ?cos,
        w_held := w_held w @ (case res of Ready (Inr p) \<Rightarrow> [p] | _ \<Rightarrow> [])\<rparr>"
      using False ec by (simp add: dp split: poll.splits)
    from poll_over_ok [OF assms(1,2,3) good(1) len ch ec good(4) good(6) this] show ?thesis by blast
  qed
  moreover have "before + M + others_conns j w = world_conns w + M" by (simp add: world ac_simps)
  ultimately show "winv ?w" and "step_conns share w ?w" using M by (auto simp: step_conns_def)
qed

lemma step_ok:
  assumes "step share w w'" and "winv w"
  shows "winv w' \<and> step_conns share w w'"
  using assms
proof (cases rule: step.cases)
  case (checkout ops now key multiplex f)
  with do_checkout_ok [OF assms(2)] show ?thesis by blast
next
  case (poll ops j hs tshare now tr)
  with do_poll_ok [OF assms(2) poll(2,3,4)] show ?thesis by metis
next
  case (cancel ops j now)
  with do_cancel_ok [OF assms(2)] show ?thesis by blast
next
  case (release ops j now)
  with do_release_ok [OF assms(2)] show ?thesis by blast
next
  case drop_pool
  with do_drop_pool_ok [OF assms(2)] show ?thesis by blast
qed

lemma reachable_ok:
  "(step share)\<^sup>*\<^sup>* (world_init c) w \<Longrightarrow> winv w \<and> exclusive share w"
proof (induction rule: rtranclp_induct)
  case base
  show ?case by (simp add: winv_init exclusive_init)
next
  case (step w w')
  with step_ok [OF step(2)] show ?case using step_conns_exclusive by blast
qed

section \<open>Properties\<close>

definition exclusive_ops :: "'c conn_ops" where
  "exclusive_ops = \<lparr>is_open = (\<lambda>_. True), can_share = (\<lambda>_. False), reuse = (\<lambda>_. None)\<rparr>"

lemma exclusive_ops_lawful: "poolable_connection exclusive_ops" "can_share exclusive_ops = (\<lambda>_. False)"
  by (unfold_locales) (simp_all add: exclusive_ops_def)

lemmas world_simps = do_checkout_def do_poll_def do_cancel_def do_release_def do_drop_pool_def
  end_checkout_def drop_rx_def release_def checkout_drop_def cancel_connection_def world_init_def
  pool_checkout_def checkout_new_def pop_def pool_new_def push_waiter_def weak_downgrade_def
  checkout_poll_def poll_connect_def poll_handshaking_def connected_def weak_none_def remove_at_def
  Let_def

text \<open>C1: no connection that cannot be multiplexed ever has two owners: in every state the
  pool and its clients can reach, such a connection is in at most one of the idle stores,
  the channels, the checkouts and the pooled handles, and there once.\<close>

theorem pool_exclusive:
  assumes "(step share)\<^sup>*\<^sup>* (world_init conf) w" and "\<not> share c"
  shows "count (world_conns w) c \<le> 1"
  using reachable_ok [OF assms(1)] assms(2) by (simp add: exclusive_def)

theorem pool_exclusive_witness:
  "let w = do_checkout exclusive_ops 1 ''h'' False () (world_init config_default)
   in count (world_conns (fst (do_poll exclusive_ops (\<lambda>_. False) 2
        (Ready (Inr ()) :: (unit + unit) poll) (\<lambda>_. Ready (Inr (7::nat))) 0 w))) 7 \<le> 1"
proof -
  let ?init = "world_init config_default :: (string, nat, unit, unit) world"
  let ?w = "do_checkout exclusive_ops 1 ''h'' False () ?init"
  let ?w' = "fst (do_poll exclusive_ops (\<lambda>_. False) 2 (Ready (Inr ()) :: (unit + unit) poll) (\<lambda>_. Ready (Inr 7)) 0 ?w)"
  have a: "step (\<lambda>_. False) ?init ?w"
    by (rule step.checkout) (simp_all add: exclusive_ops_lawful)
  have "world_conns ?w = {#}" and "length (w_checkouts ?w) = 1"
    by (simp_all add: world_simps world_conns_def heap_conns_def cells_conns_def
      cell_conns_def checkout_conns_def inner_conns_def)
  then have b: "step (\<lambda>_. False) ?w ?w'"
    by (intro step.poll) (simp_all add: exclusive_ops_lawful)
  from a b have "(step (\<lambda>_. False))\<^sup>*\<^sup>* ?init ?w'" by (rule converse_rtranclp_into_rtranclp [OF _ r_into_rtranclp])
  from pool_exclusive [OF this] show ?thesis by (simp add: Let_def)
qed

text \<open>C3: in every reachable state a queued sender is queued once, for one key, and its
  channel exists and has not been used: what \<open>PoolInner::push\<close> sends to a waiter that still
  listens arrives and overwrites nothing.\<close>

theorem pool_queue_channels:
  assumes "(step share)\<^sup>*\<^sup>* (world_init conf) w" and "w_heap w 0 = Some i"
    and "waiting i k = Some ws" and "n \<in> set ws"
  shows "distinct ws \<and> (\<forall>k' ws'. waiting i k' = Some ws' \<and> n \<in> set ws' \<longrightarrow> k' = k) \<and>
    n < length (w_cells w) \<and> (w_cells w ! n = Empty \<or> w_cells w ! n = RxDropped)"
proof -
  from reachable_ok [OF assms(1)] assms(2) have ok: "chan_ok i (w_cells w)"
    by (auto simp: winv_def linv_def)
  from assms(3,4) have "n \<in> queued i" by (auto simp: queued_iff)
  with ok assms(3,4) show ?thesis unfolding chan_ok_def queues_ok_def by blast
qed

theorem pool_queue_channels_witness:
  "w_cells (do_checkout exclusive_ops 1 ''h'' False () (world_init config_default) ::
     (string, nat, unit, unit) world) ! 0 = Empty"
proof -
  let ?init = "world_init config_default :: (string, nat, unit, unit) world"
  let ?w = "do_checkout exclusive_ops 1 ''h'' False () ?init"
  have a: "(step (\<lambda>_. False))\<^sup>*\<^sup>* ?init ?w"
    by (rule r_into_rtranclp) (rule step.checkout; simp add: exclusive_ops_lawful)
  have h: "w_heap ?w 0 = Some ((pool_new config_default)\<lparr>waiting := [''h'' \<mapsto> [0]]\<rparr>)"
    and "w_cells ?w ! 0 \<noteq> RxDropped"
    by (simp_all add: world_simps)
  with pool_queue_channels [OF a h, of "''h''" "[0]" 0] show ?thesis by simp
qed

text \<open>
  Two checkouts of one multiplexed key on a new pool: the first has the connector, the
  second waits for it.
\<close>

definition two_checkouts ::
  "'c conn_ops \<Rightarrow> instant \<Rightarrow> config \<Rightarrow> 'k \<Rightarrow> 'f \<Rightarrow> 'f \<Rightarrow> ('k, 'c, 'f, 't) world" where
  "two_checkouts ops now conf key f g =
     do_checkout ops now key True g (do_checkout ops now key True f (world_init conf))"

lemma two_checkouts_eq:
  "two_checkouts ops now conf key f g = \<lparr>
     w_heap = [0 \<mapsto> \<lparr>cfg = conf, connecting = {key}, waiting = [key \<mapsto> [0, 1]], idle_conns = Map.empty\<rparr>],
     w_cells = [Empty, Empty],
     w_checkouts = [
       \<lparr>ck_key = key, ck_pool = WeakOpt (Some 0), ck_waiter = Waiting_Idle 0,
        ck_inner = Inner_Connecting f, ck_connection = None\<rparr>,
       \<lparr>ck_key = key, ck_pool = WeakOpt (Some 0), ck_waiter = Waiting_Connecting 1,
        ck_inner = Inner_Waiting, ck_connection = None\<rparr>],
     w_held = []\<rparr>"
  by (simp add: two_checkouts_def world_simps fun_eq_iff)

text \<open>One connection serves both checkouts of a multiplexed key: when the handshake of
  the first answers a connection \<open>c\<close> that can be reused, the first resolves to \<open>c\<close> and the
  second, polled next, resolves to a clone made through the pool, without connecting.\<close>

theorem multiplex_one_connection:
  assumes "reuse ops c = Some c'" and "reuse ops c' = Some c''"
    and "do_poll ops tshare now (Ready (Inr t)) hs 0 (two_checkouts ops now0 conf key f g) = (w, r)"
    and "hs t = Ready (Inr c)"
    and "do_poll ops tshare now' tr hs' 0 w = (w', r')"
  shows "r = Ready (Inr \<lparr>p_connection = Some c, p_is_reused = True, p_key = key, p_pool = weak_none\<rparr>) \<and>
    r' = Ready (Inr \<lparr>p_connection = Some c'', p_is_reused = True, p_key = key, p_pool = weak_downgrade 0\<rparr>)"
proof -
  have "r = Ready (Inr \<lparr>p_connection = Some c, p_is_reused = True, p_key = key, p_pool = weak_none\<rparr>) \<and>
    w_cells w ! 1 = Full \<lparr>p_connection = Some c'', p_is_reused = True, p_key = key, p_pool = weak_downgrade 0\<rparr> \<and>
    w_checkouts w = [\<lparr>ck_key = key, ck_pool = WeakOpt (Some 0), ck_waiter = Waiting_Connecting 1,
        ck_inner = Inner_Waiting, ck_connection = None\<rparr>]"
    using assms(1-4)
    by (auto simp: two_checkouts_eq world_simps connected_in_handshake_def push_def store_idle_def
        rx_closed_def drop_pooled_def split: if_splits)
  then show ?thesis using assms(5)
    by (auto simp: do_poll_def Let_def checkout_poll_def split: prod.splits)
qed

theorem multiplex_one_connection_witness:
  "let w = fst (do_poll sender_ops (\<lambda>_. True) 1 (Ready (Inr ()) :: (unit + unit) poll) (\<lambda>_. Ready (Inr ())) 0
        (two_checkouts sender_ops 0 config_default ''h'' () ()))
   in snd (do_poll sender_ops (\<lambda>_. True) 2 (Pending :: (unit + unit) poll) (\<lambda>_. Pending) 0 w) =
      Ready (Inr \<lparr>p_connection = Some (), p_is_reused = True, p_key = ''h'', p_pool = weak_downgrade 0\<rparr>)"
proof -
  have r: "reuse sender_ops () = Some ()" by (simp add: sender_ops_def)
  note m = multiplex_one_connection [where hs = "\<lambda>_. Ready (Inr ())", OF r r prod.collapse [symmetric] _ prod.collapse [symmetric]]
  show ?thesis
    unfolding Let_def by (rule m [THEN conjunct2]) simp
qed

text \<open>A checkout that waits for another's connection hangs when that other checkout is
  abandoned: after the first of two checkouts of a multiplexed key is dropped, or its
  handshake fails, every poll of the second answers \<open>Pending\<close> and changes nothing, although
  the key is no longer marked as connecting.\<close>

theorem abandoned_waiter_hangs:
  assumes "w = do_cancel ops now 0 (two_checkouts ops now conf key f g) \<or>
    w = fst (do_poll ops tshare now (Ready (Inl e)) hs 0 (two_checkouts ops now conf key f g))"
  shows "do_poll ops' tshare' now' tr hs' 0 w = (w, Pending) \<and>
    (\<forall>i. w_heap w 0 = Some i \<longrightarrow> key \<notin> connecting i)"
  using assms by (auto simp: two_checkouts_eq world_simps)

theorem abandoned_waiter_hangs_witness:
  "let w = do_cancel exclusive_ops 1 0
         (two_checkouts exclusive_ops 1 config_default ''h'' () () :: (string, nat, unit, unit) world)
   in snd (do_poll exclusive_ops (\<lambda>_. True) 9 (Pending :: (unit + unit) poll) (\<lambda>_. Pending) 0 w) = Pending"
proof -
  let ?w = "do_cancel exclusive_ops 1 0
    (two_checkouts exclusive_ops 1 config_default ''h'' () () :: (string, nat, unit, unit) world)"
  from abandoned_waiter_hangs [where w = ?w and ops = exclusive_ops and now = 1 and conf = config_default
      and key = "''h''" and f = "()" and g = "()" and tr = "Pending :: (unit + unit) poll"
      and hs' = "\<lambda>_. Pending" and ops' = exclusive_ops and tshare' = "\<lambda>_. True" and now' = 9]
  show ?thesis by (auto simp: Let_def)
qed

text \<open>Dropping a mere waiter cancels somebody else's mark: after the second of two
  checkouts of a multiplexed key is dropped, the first still connects, but a third checkout
  starts a second connection of its own instead of waiting.\<close>

theorem waiter_drop_clears_mark:
  "map ck_inner (w_checkouts (do_checkout ops now' key True h
     (do_cancel ops now 1 (two_checkouts ops now conf key f g)))) = [Inner_Connecting f, Inner_Connecting h]"
  by (simp add: two_checkouts_eq world_simps)

text \<open>Dropping the pool under a checkout that is still connecting makes the checkout
  panic: the first poll after the drop consumes the receiver's error and goes on connecting,
  the second polls the completed receiver again.\<close>

theorem pool_drop_poll_panics:
  assumes "w = do_drop_pool (do_checkout ops now key multiplex f (world_init conf))"
    and "do_poll ops tshare now' Pending hs 0 w = (w', r)"
  shows "r = Pending \<and> snd (do_poll ops tshare now'' tr hs 0 w') = Panicked"
  using assms by (auto simp: world_simps split: prod.splits if_splits)

theorem pool_drop_poll_panics_witness:
  "let w = do_drop_pool (do_checkout exclusive_ops 0 ''h'' False () (world_init config_default) ::
         (string, nat, unit, unit) world);
       p = do_poll exclusive_ops (\<lambda>_. False) 1 (Pending :: (unit + unit) poll) (\<lambda>_. Pending) 0
   in snd (p (fst (p w))) = Panicked"
  unfolding Let_def
  by (rule pool_drop_poll_panics [OF refl prod.collapse [symmetric], THEN conjunct2])

text \<open>Cancelling a request leaks no connection: when a checkout is dropped after an open
  connection was sent to its channel and before it took it, the connection is owned by the
  pool or by another waiter afterwards.\<close>

theorem cancel_keeps_delivered:
  assumes "(step (can_share ops))\<^sup>*\<^sup>* (world_init conf) w" and "poolable_connection ops"
    and "j < length (w_checkouts w)" and "w_heap w 0 \<noteq> None"
    and "rx_channel (ck_waiter (w_checkouts w ! j)) = Some n" and "w_cells w ! n = Full p"
    and "p_connection p = Some c" and "\<not> p_is_reused p" and "p_pool p = weak_downgrade 0"
    and "is_open ops c" and "\<not> can_share ops c"
  shows "c \<in># heap_conns (w_heap (do_cancel ops now j w)) 0 + cells_conns (w_cells (do_cancel ops now j w))"
proof -
  let ?co = "w_checkouts w ! j" and ?cells = "(w_cells w)[n := Taken]"
  let ?heap = "checkout_drop (w_heap w) ?co"
  from reachable_ok [OF assms(1)] assms(3) have l: "linv (w_heap w) (w_cells w)"
    and co: "co_ok (length (w_cells w)) ?co" by (auto simp: winv_def)
  from co assms(5) have n: "n < length (w_cells w)" by (simp add: co_ok_def)
  have "linv (w_heap w) ?cells"
    using queued_cell [OF l, of _ n] assms(6) by (intro linv_cell [OF l]) auto
  then have lh: "linv ?heap ?cells" by (simp add: checkout_drop_linv)
  then have wf: "wf_heap ?heap 0" by (simp add: linv_def)
  from assms(4) have "?heap 0 \<noteq> None"
    by (auto simp: checkout_drop_def with_pool_upd split: weak_opt.splits option.splits)
  then obtain i where i: "?heap 0 = Some i" by blast
  obtain i' sends where push: "push ops (rx_closed ?cells) now (p_key p) c (weak_downgrade 0) i = (i', sends)" by fastforce
  have "do_cancel ops now j w = w\<lparr>w_heap := ?heap(0 \<mapsto> i'), w_cells := deliver sends ?cells,
      w_checkouts := remove_at j (w_checkouts w)\<rparr>"
    using assms(5-10) i push
    by (simp add: do_cancel_def end_checkout_def drop_rx_def release_def drop_pooled_def weak_downgrade_def)
  moreover have "c \<in># heap_conns (?heap(0 \<mapsto> i')) 0 + cells_conns (deliver sends ?cells)"
  proof -
    note l' = push_linv(2) [OF lh i push] push_heap_unshared(2) [OF assms(2) wf i push refl]
    have "c \<in># unshared (can_share ops) (heap_conns (?heap(0 \<mapsto> i')) 0 + sends_conns sends)"
      unfolding l'(2) using assms(11) by simp
    then have "c \<in># heap_conns (?heap(0 \<mapsto> i')) 0 + sends_conns sends"
      unfolding unshared_def by (metis filter_mset_eq_conv multiset_filter_subset mset_subset_eqD)
    with l'(1) show ?thesis by auto
  qed
  ultimately show ?thesis by simp
qed

text \<open>
  A connection in use, a second checkout waiting, and the connection released to it.
\<close>

definition delivered_world :: "(string, nat, unit, unit) world" where
  "delivered_world = do_release exclusive_ops 4 0 (do_checkout exclusive_ops 3 ''h'' False ()
     (fst (do_poll exclusive_ops (\<lambda>_. False) 2 (Ready (Inr ()) :: (unit + unit) poll) (\<lambda>_. Ready (Inr 7)) 0
       (do_checkout exclusive_ops 1 ''h'' False () (world_init config_default)))))"

lemma delivered_world_eq:
  "delivered_world = \<lparr>
     w_heap = [0 \<mapsto> \<lparr>cfg = config_default, connecting = {}, waiting = [''h'' \<mapsto> []], idle_conns = Map.empty\<rparr>],
     w_cells = [RxDropped, Full \<lparr>p_connection = Some 7, p_is_reused = False, p_key = ''h'', p_pool = weak_downgrade 0\<rparr>],
     w_checkouts = [\<lparr>ck_key = ''h'', ck_pool = WeakOpt (Some 0), ck_waiter = Waiting_Idle 1,
        ck_inner = Inner_Connecting (), ck_connection = None\<rparr>],
     w_held = []\<rparr>"
  by (simp add: delivered_world_def world_simps exclusive_ops_def drop_pooled_def push_def rx_closed_def fun_eq_iff)

lemma delivered_world_reachable: "(step (\<lambda>_. False))\<^sup>*\<^sup>* (world_init config_default) delivered_world"
proof -
  let ?init = "world_init config_default :: (string, nat, unit, unit) world"
  let ?a = "do_checkout exclusive_ops 1 ''h'' False () ?init"
  let ?b = "fst (do_poll exclusive_ops (\<lambda>_. False) 2 (Ready (Inr ()) :: (unit + unit) poll) (\<lambda>_. Ready (Inr 7)) 0 ?a)"
  let ?c = "do_checkout exclusive_ops 3 ''h'' False () ?b"
  have a: "step (\<lambda>_. False) ?init ?a" and c: "step (\<lambda>_. False) ?b ?c"
    by (rule step.checkout; simp add: exclusive_ops_lawful)+
  have "world_conns ?a = {#}" and "length (w_checkouts ?a) = 1"
    by (simp_all add: world_simps world_conns_def heap_conns_def cells_conns_def
      cell_conns_def checkout_conns_def inner_conns_def)
  then have b: "step (\<lambda>_. False) ?a ?b" by (intro step.poll) (simp_all add: exclusive_ops_lawful)
  have "length (w_held ?c) = 1" by (simp add: world_simps exclusive_ops_def)
  then have d: "step (\<lambda>_. False) ?c delivered_world"
    unfolding delivered_world_def by (intro step.release) (simp_all add: exclusive_ops_lawful)
  from a b c d show ?thesis by (meson converse_rtranclp_into_rtranclp rtranclp.rtrancl_refl)
qed

theorem cancel_keeps_delivered_witness:
  "let w = do_cancel exclusive_ops 5 0 delivered_world in 7 \<in># heap_conns (w_heap w) 0 + cells_conns (w_cells w)"
  unfolding Let_def
  by (rule cancel_keeps_delivered [where conf = config_default and n = 1
        and p = "\<lparr>p_connection = Some 7, p_is_reused = False, p_key = ''h'', p_pool = weak_downgrade 0\<rparr>"])
    (use delivered_world_reachable exclusive_ops_lawful in
      \<open>simp_all add: delivered_world_eq exclusive_ops_def\<close>)

end
