(* ===== verification/Pool_Lock.thy ===== *)
theory Pool_Lock
  imports Pool_System
begin

text \<open>
  The critical section of \<open>PoolInner::push\<close> (\<open>client/pool/mod.rs\<close>), statement by statement.
  The thread that runs it holds the pool's \<open>std::sync::Mutex\<close>, so nobody else changes the
  pool; but the receivers of the waiters belong to other threads, which drop them at any
  moment, also between the push's \<open>is_closed\<close> and its \<open>send\<close>. A \<open>send\<close> that fails hands
  the \<open>Pooled\<close> back, and \<open>let _ =\<close> drops it on the spot, with the lock held. The theorems
  say when the atomic \<open>push\<close> of \<open>Pool_Inner\<close> is what such a run does, and when the thread
  ends up waiting for the mutex it holds itself.
\<close>

section \<open>The statements of push\<close>

text \<open>
  \<open>Walking\<close> is the head of the \<open>while let\<close>, \<open>Popped\<close> the body before \<open>is_closed\<close>, \<open>Sending\<close>
  the call of \<open>send\<close>, \<open>Dropping\<close> the drop of what \<open>send\<close> gave back; the last component of
  these two is the connection the loop goes on with, or \<open>None\<close> before the early \<open>return\<close>.
  \<open>Unlocked\<close> is the end of the critical section.
\<close>

datatype ('k, 'c) push_pc =
    Walking 'c
  | Popped sender 'c
  | Sending sender "('k, 'c) pooled" "'c option"
  | Dropping "('k, 'c) pooled" "'c option"
  | Unlocked

record ('k, 'c) push_state =
  ps_pc :: "('k, 'c) push_pc"
  ps_inner :: "('k, 'c) pool_inner"
  ps_sent :: "('k, 'c) sends"
  ps_closed :: "sender set"

definition push_start :: "'k \<Rightarrow> 'c \<Rightarrow> ('k, 'c) pool_inner \<Rightarrow> sender set \<Rightarrow> ('k, 'c) push_state" where
  "push_start key c i closed =
     \<lparr>ps_pc = Walking c, ps_inner = i\<lparr>connecting := connecting i - {key}\<rparr>, ps_sent = [], ps_closed = closed\<rparr>"

text \<open>The guards of \<open>Drop for Pooled\<close>: the address of the pool whose mutex the drop locks.\<close>

definition drop_locks :: "'c conn_ops \<Rightarrow> (nat \<rightharpoonup> 'v) \<Rightarrow> ('k, 'c) pooled \<Rightarrow> nat option" where
  "drop_locks ops heap p =
     (case p_connection p of
        None \<Rightarrow> None
      | Some c \<Rightarrow>
          if is_open ops c \<and> \<not> p_is_reused p
          then (case p_pool p of
                  WeakOpt None \<Rightarrow> None
                | WeakOpt (Some b) \<Rightarrow> if heap b = None then None else Some b)
          else None)"

definition push_next :: "'c option \<Rightarrow> ('k, 'c) push_pc" where
  "push_next left = (case left of Some c \<Rightarrow> Walking c | None \<Rightarrow> Unlocked)"

text \<open>
  One statement of the thread, with the lock of the pool at \<open>pool\<close> held. There is none after the
  section's end, and none while a drop waits for a mutex: the values of this push refer to
  this very pool, whose mutex is not reentrant and is released by this thread alone.
\<close>

definition push_thread ::
  "'c conn_ops \<Rightarrow> (nat \<rightharpoonup> 'v) \<Rightarrow> instant \<Rightarrow> 'k \<Rightarrow> nat \<Rightarrow> ('k, 'c) push_state \<Rightarrow> ('k, 'c) push_state option" where
  "push_thread ops heap now key pool s =
     (case ps_pc s of
        Walking c \<Rightarrow>
          (case waiting (ps_inner s) key of
             Some (waiter # waiters) \<Rightarrow>
               Some (s\<lparr>ps_pc := Popped waiter c,
                       ps_inner := (ps_inner s)\<lparr>waiting := (waiting (ps_inner s))(key \<mapsto> waiters)\<rparr>\<rparr>)
           | _ \<Rightarrow> Some (s\<lparr>ps_pc := Unlocked, ps_inner := store_idle now key c (ps_inner s)\<rparr>))
      | Popped waiter c \<Rightarrow>
          if waiter \<in> ps_closed s then Some (s\<lparr>ps_pc := Walking c\<rparr>)
          else (case reuse ops c of
                  Some conn \<Rightarrow>
                    Some (s\<lparr>ps_pc := Sending waiter
                      \<lparr>p_connection = Some conn, p_is_reused = True, p_key = key,
                       p_pool = weak_downgrade pool\<rparr> (Some c)\<rparr>)
                | None \<Rightarrow>
                    Some (s\<lparr>ps_pc := Sending waiter
                      \<lparr>p_connection = Some c, p_is_reused = False, p_key = key,
                       p_pool = weak_downgrade pool\<rparr> None\<rparr>))
      | Sending waiter p left \<Rightarrow>
          if waiter \<in> ps_closed s then Some (s\<lparr>ps_pc := Dropping p left\<rparr>)
          else Some (s\<lparr>ps_pc := push_next left, ps_sent := ps_sent s @ [(waiter, p)]\<rparr>)
      | Dropping p left \<Rightarrow>
          if drop_locks ops heap p = None then Some (s\<lparr>ps_pc := push_next left\<rparr>) else None
      | Unlocked \<Rightarrow> None)"

text \<open>A receiver is dropped by the thread that owns it.\<close>

definition push_closes :: "sender \<Rightarrow> ('k, 'c) push_state \<Rightarrow> ('k, 'c) push_state" where
  "push_closes n s = s\<lparr>ps_closed := insert n (ps_closed s)\<rparr>"

inductive push_run ::
  "'c conn_ops \<Rightarrow> (nat \<rightharpoonup> 'v) \<Rightarrow> instant \<Rightarrow> 'k \<Rightarrow> nat \<Rightarrow> ('k, 'c) push_state \<Rightarrow> ('k, 'c) push_state \<Rightarrow> bool"
  for ops :: "'c conn_ops" and heap :: "nat \<rightharpoonup> 'v" and now :: instant and key :: 'k and pool :: nat
    and s0 :: "('k, 'c) push_state" where
  start: "push_run ops heap now key pool s0 s0"
| thread: "push_run ops heap now key pool s0 s \<Longrightarrow> push_thread ops heap now key pool s = Some s'
    \<Longrightarrow> push_run ops heap now key pool s0 s'"
| closes: "push_run ops heap now key pool s0 s \<Longrightarrow> push_run ops heap now key pool s0 (push_closes n s)"

text \<open>Runs are computed from a schedule: \<open>None\<close> is the thread, \<open>Some n\<close> the end of a receiver.\<close>

fun push_schedule ::
  "'c conn_ops \<Rightarrow> (nat \<rightharpoonup> 'v) \<Rightarrow> instant \<Rightarrow> 'k \<Rightarrow> nat \<Rightarrow> sender option list \<Rightarrow> ('k, 'c) push_state
     \<Rightarrow> ('k, 'c) push_state option" where
  "push_schedule ops heap now key pool [] s = Some s"
| "push_schedule ops heap now key pool (None # es) s =
     Option.bind (push_thread ops heap now key pool s) (push_schedule ops heap now key pool es)"
| "push_schedule ops heap now key pool (Some n # es) s =
     push_schedule ops heap now key pool es (push_closes n s)"

lemma schedule_run:
  "push_schedule ops heap now key pool es s = Some s' \<Longrightarrow> push_run ops heap now key pool s0 s \<Longrightarrow>
     push_run ops heap now key pool s0 s'"
  by (induction ops heap now key pool es s rule: push_schedule.induct)
    (auto split: bind_splits intro: push_run.intros)

definition push_blocked :: "'c conn_ops \<Rightarrow> (nat \<rightharpoonup> 'v) \<Rightarrow> nat \<Rightarrow> ('k, 'c) push_state \<Rightarrow> bool" where
  "push_blocked ops heap pool s =
     (case ps_pc s of Dropping p _ \<Rightarrow> drop_locks ops heap p = Some pool | _ \<Rightarrow> False)"

section \<open>The drop of a value that was not delivered\<close>

text \<open>A drop that locks nothing changes no pool.\<close>

lemma drop_locks_none: "drop_locks ops heap p = None \<Longrightarrow> drop_pooled ops closed now heap p = (heap, [])"
  by (auto simp: drop_locks_def drop_pooled_def split: option.splits weak_opt.splits if_splits)

lemma drop_locks_pushed [simp]:
  "drop_locks ops heap \<lparr>p_connection = Some c, p_is_reused = r, p_key = k, p_pool = weak_downgrade a\<rparr>
     = (if is_open ops c \<and> \<not> r \<and> heap a \<noteq> None then Some a else None)"
  by (auto simp: drop_locks_def weak_downgrade_def)

section \<open>The invariant of a run\<close>

text \<open>A waiter that was sent nothing, as an answer of \<open>is_closed\<close>.\<close>

definition gone :: "('k, 'c) sends \<Rightarrow> sender \<Rightarrow> bool" where
  "gone sent n = (n \<notin> fst ` set sent)"

lemma gone_simps [simp]: "gone [] n" "gone (xs @ [(m, p)]) n = (gone xs n \<and> n \<noteq> m)"
  by (auto simp: gone_def)

text \<open>
  The waiters of the key are \<open>past\<close>, which the loop is done with, the one in hand, and
  \<open>rest\<close>, still in the queue.
\<close>

definition split_ok ::
  "('k, 'c) pool_inner \<Rightarrow> 'k \<Rightarrow> sender list \<Rightarrow> sender list \<Rightarrow> sender list \<Rightarrow> ('k, 'c) push_state \<Rightarrow> bool" where
  "split_ok i key past hand rest s =
     (waiting i key = Some (past @ hand @ rest) \<and> distinct (past @ hand @ rest) \<and>
      ps_inner s = i\<lparr>connecting := connecting i - {key}, waiting := (waiting i)(key \<mapsto> rest)\<rparr> \<and>
      (\<forall>n. gone (ps_sent s) n \<longrightarrow> n \<in> set past \<longrightarrow> n \<in> ps_closed s) \<and>
      (\<forall>n. n \<in> set hand \<longrightarrow> gone (ps_sent s) n))"

definition clone_to :: "'k \<Rightarrow> nat \<Rightarrow> 'c \<Rightarrow> sender \<Rightarrow> sender \<times> ('k, 'c) pooled" where
  "clone_to key pool conn n =
     (n, \<lparr>p_connection = Some conn, p_is_reused = True, p_key = key, p_pool = weak_downgrade pool\<rparr>)"

definition sent_ok :: "'c conn_ops \<Rightarrow> 'k \<Rightarrow> nat \<Rightarrow> 'c \<Rightarrow> sender list \<Rightarrow> ('k, 'c) push_state \<Rightarrow> bool" where
  "sent_ok ops key pool c past s =
     (ps_sent s = (case reuse ops c of
        None \<Rightarrow> []
      | Some conn \<Rightarrow> map (clone_to key pool conn) (filter (\<lambda>n. \<not> gone (ps_sent s) n) past)))"

definition value_ok ::
  "'c conn_ops \<Rightarrow> 'k \<Rightarrow> nat \<Rightarrow> 'c \<Rightarrow> ('k, 'c) pooled \<Rightarrow> 'c option \<Rightarrow> bool" where
  "value_ok ops key pool c p left =
     (case reuse ops c of
        None \<Rightarrow> p = \<lparr>p_connection = Some c, p_is_reused = False, p_key = key,
                    p_pool = weak_downgrade pool\<rparr> \<and> left = None
      | Some conn \<Rightarrow> p = snd (clone_to key pool conn 0) \<and> left = Some c)"

definition done_ok :: "'c conn_ops \<Rightarrow> instant \<Rightarrow> 'k \<Rightarrow> nat \<Rightarrow> 'c \<Rightarrow> ('k, 'c) pool_inner \<Rightarrow> ('k, 'c) push_state \<Rightarrow> bool" where
  "done_ok ops now key pool c i s =
     ((push ops (gone (ps_sent s)) now key c (weak_downgrade pool) i = (ps_inner s, ps_sent s) \<or>
       \<not> is_open ops c \<and> reuse ops c = None \<and> ps_sent s = [] \<and> idle_conns (ps_inner s) = idle_conns i) \<and>
      (\<exists>past rest. waiting i key = Some (past @ rest) \<and> waiting (ps_inner s) key = Some rest \<and>
         (\<forall>n. gone (ps_sent s) n \<longrightarrow> n \<in> set past \<longrightarrow> n \<in> ps_closed s)))"

definition push_inv ::
  "'c conn_ops \<Rightarrow> instant \<Rightarrow> 'k \<Rightarrow> nat \<Rightarrow> 'c \<Rightarrow> ('k, 'c) pool_inner \<Rightarrow> sender set \<Rightarrow> ('k, 'c) push_state \<Rightarrow> bool" where
  "push_inv ops now key pool c i closed s =
     (closed \<subseteq> ps_closed s \<and> (\<forall>n \<in> closed. gone (ps_sent s) n) \<and>
      (case ps_pc s of
         Walking c' \<Rightarrow> c' = c \<and> (\<exists>past rest. split_ok i key past [] rest s \<and> sent_ok ops key pool c past s)
       | Popped n c' \<Rightarrow> c' = c \<and> (\<exists>past rest. split_ok i key past [n] rest s \<and> sent_ok ops key pool c past s)
       | Sending n p left \<Rightarrow> n \<notin> closed \<and> value_ok ops key pool c p left \<and>
           (\<exists>past rest. split_ok i key past [n] rest s \<and> sent_ok ops key pool c past s)
       | Dropping p left \<Rightarrow> value_ok ops key pool c p left \<and>
           (\<exists>n past rest. n \<notin> closed \<and> n \<in> ps_closed s \<and>
              split_ok i key past [n] rest s \<and> sent_ok ops key pool c past s)
       | Unlocked \<Rightarrow> done_ok ops now key pool c i s))"

lemma sent_gone:
  assumes "sent_ok ops key pool c past s" and "n \<notin> set past"
  shows "gone (ps_sent s) n"
proof -
  have "fst ` set (ps_sent s) \<subseteq> set past"
  proof (cases "reuse ops c")
    case (Some conn)
    with assms(1) have "fst ` set (ps_sent s) =
        fst ` set (map (clone_to key pool conn) (filter (\<lambda>n. \<not> gone (ps_sent s) n) past))"
      unfolding sent_ok_def by simp
    then show ?thesis by (auto simp: clone_to_def)
  qed (use assms(1) in \<open>simp add: sent_ok_def\<close>)
  with assms(2) show ?thesis by (auto simp: gone_def)
qed

lemma sent_cong: "ps_sent s' = ps_sent s \<Longrightarrow> sent_ok ops key pool c past s' = sent_ok ops key pool c past s"
  by (simp only: sent_ok_def)

text \<open>The end of the loop: what was sent is what the atomic walk sends.\<close>

lemma walk_done:
  assumes "split_ok i key past [] [] s" and "sent_ok ops key pool c past s"
  shows "push_walk ops (gone (ps_sent s)) key (weak_downgrade pool) past c = (ps_sent s, [], Some c)"
proof (cases "reuse ops c")
  case None
  with assms(2) have "ps_sent s = []" by (simp add: sent_ok_def)
  with None show ?thesis by (simp add: walk_single live_def)
next
  case (Some conn)
  with assms(2) have "ps_sent s = map (clone_to key pool conn) (filter (\<lambda>n. \<not> gone (ps_sent s) n) past)"
    by (simp add: sent_ok_def)
  with Some show ?thesis by (simp add: walk_shared live_def clone_to_def [abs_def])
qed

lemma walk_given:
  assumes "distinct (past @ n # rest)" and "reuse ops c = None"
  shows "push_walk ops (gone [(n, p)]) key ref (past @ n # rest) c =
    ([(n, \<lparr>p_connection = Some c, p_is_reused = False, p_key = key, p_pool = ref\<rparr>)], rest, None)"
proof -
  have past: "\<forall>m \<in> set past. gone [(n, p)] m" and n: "\<not> gone [(n, p)] n"
    using assms(1) by (auto simp: gone_def)
  then have "dropWhile (gone [(n, p)]) (past @ n # rest) = n # rest" by (simp add: dropWhile_append2)
  moreover have "filter (\<lambda>m. m = n) past = []" "filter (\<lambda>m. m = n) rest = []"
    using assms(1) by (auto simp: filter_empty_conv)
  then have "live (gone [(n, p)]) (past @ n # rest) = [n]"
    by (simp add: live_def gone_def)
  ultimately show ?thesis using assms(2) by (simp add: walk_single)
qed

text \<open>Every statement, and every receiver dropped meanwhile, keeps the invariant.\<close>

lemma inv_start:
  assumes "waiting i key = Some ws" and "distinct ws"
  shows "push_inv ops now key pool c i closed (push_start key c i closed)"
proof -
  have "split_ok i key [] [] ws (push_start key c i closed)"
    using assms by (simp add: split_ok_def push_start_def fun_upd_idem)
  moreover have "sent_ok ops key pool c [] (push_start key c i closed)"
    by (simp add: sent_ok_def push_start_def split: option.splits)
  ultimately show ?thesis by (auto simp: push_inv_def push_start_def)
qed

lemma split_closes: "split_ok i key past hand rest s \<Longrightarrow> split_ok i key past hand rest (push_closes n s)"
  by (auto simp: split_ok_def push_closes_def)

lemma sent_closes [simp]: "sent_ok ops key pool c past (push_closes n s) = sent_ok ops key pool c past s"
  by (rule sent_cong) (simp add: push_closes_def)

lemma done_closes: "done_ok ops now key pool c i s \<Longrightarrow> done_ok ops now key pool c i (push_closes n s)"
  unfolding done_ok_def push_closes_def by simp blast

lemma inv_closes:
  assumes "push_inv ops now key pool c i closed s"
  shows "push_inv ops now key pool c i closed (push_closes n s)"
proof -
  have "ps_pc (push_closes n s) = ps_pc s" "ps_sent (push_closes n s) = ps_sent s"
    "ps_closed s \<subseteq> ps_closed (push_closes n s)"
    by (auto simp: push_closes_def)
  with assms show ?thesis
    unfolding push_inv_def
    by (cases "ps_pc s") (auto intro: done_closes dest: split_closes [where n = n] | blast dest: split_closes [where n = n])+
qed

lemma inv_walking:
  assumes "push_inv ops now key pool c i closed s" and "ps_pc s = Walking c'"
    and "push_thread ops heap now key pool s = Some s'"
  shows "push_inv ops now key pool c i closed s'"
proof -
  from assms(1,2) obtain past rest where c: "c' = c" and sp: "split_ok i key past [] rest s"
    and se: "sent_ok ops key pool c past s"
    by (auto simp: push_inv_def)
  from sp have w: "waiting (ps_inner s) key = Some rest" by (simp add: split_ok_def)
  show ?thesis
  proof (cases rest)
    case Nil
    with walk_done [OF _ se] sp w assms c
    have s': "s' = s\<lparr>ps_pc := Unlocked, ps_inner := store_idle now key c (ps_inner s)\<rparr>"
      and walk: "push_walk ops (gone (ps_sent s)) key (weak_downgrade pool) past c = (ps_sent s, [], Some c)"
      by (auto simp: push_thread_def)
    from sp Nil walk have "push ops (gone (ps_sent s)) now key c (weak_downgrade pool) i = (ps_inner s', ps_sent s)"
      by (simp add: push_def split_ok_def s')
    with sp Nil assms(1) show ?thesis
      by (auto simp: push_inv_def done_ok_def s' split_ok_def)
  next
    case (Cons n rest')
    with w assms(2,3) c have s': "s' = s\<lparr>ps_pc := Popped n c,
        ps_inner := (ps_inner s)\<lparr>waiting := (waiting (ps_inner s))(key \<mapsto> rest')\<rparr>\<rparr>"
      by (simp add: push_thread_def)
    have "split_ok i key past [n] rest' s'"
      using sp Cons sent_gone [OF se, of n] by (auto simp: split_ok_def s')
    moreover have "sent_ok ops key pool c past s'" using se sent_cong [of s' s] by (simp add: s')
    ultimately show ?thesis using assms(1) by (auto simp: push_inv_def s')
  qed
qed

lemma inv_popped:
  assumes "push_inv ops now key pool c i closed s" and "ps_pc s = Popped n c'"
    and "push_thread ops heap now key pool s = Some s'"
  shows "push_inv ops now key pool c i closed s'"
proof -
  from assms(1,2) obtain past rest where c: "c' = c" and sp: "split_ok i key past [n] rest s"
    and se: "sent_ok ops key pool c past s"
    by (auto simp: push_inv_def)
  show ?thesis
  proof (cases "n \<in> ps_closed s")
    case True
    with assms(2,3) c have s': "s' = s\<lparr>ps_pc := Walking c\<rparr>" by (simp add: push_thread_def)
    from sp True have "split_ok i key (past @ [n]) [] rest s'" by (auto simp: split_ok_def s')
    moreover from sp se have "sent_ok ops key pool c (past @ [n]) s'"
      by (auto simp: sent_ok_def split_ok_def s' split: option.splits)
    ultimately show ?thesis using assms(1) by (auto simp: push_inv_def s')
  next
    case False
    then obtain p left where s': "s' = s\<lparr>ps_pc := Sending n p left\<rparr>" and v: "value_ok ops key pool c p left"
      using assms(2,3) c by (auto simp: push_thread_def value_ok_def clone_to_def split: option.splits)
    from sp se sent_cong [of s' s] have "split_ok i key past [n] rest s'" "sent_ok ops key pool c past s'"
      by (simp_all add: split_ok_def s')
    with v False assms(1) show ?thesis by (auto simp: push_inv_def s')
  qed
qed

lemma inv_sending:
  assumes "push_inv ops now key pool c i closed s" and "ps_pc s = Sending n p left"
    and "push_thread ops heap now key pool s = Some s'"
  shows "push_inv ops now key pool c i closed s'"
proof -
  from assms(1,2) obtain past rest where n: "n \<notin> closed" and v: "value_ok ops key pool c p left"
    and sp: "split_ok i key past [n] rest s" and se: "sent_ok ops key pool c past s"
    by (auto simp: push_inv_def)
  show ?thesis
  proof (cases "n \<in> ps_closed s")
    case True
    with assms(2,3) have s': "s' = s\<lparr>ps_pc := Dropping p left\<rparr>" by (simp add: push_thread_def)
    from sp se sent_cong [of s' s] have "split_ok i key past [n] rest s'" "sent_ok ops key pool c past s'"
      by (simp_all add: split_ok_def s')
    with v n True assms(1) show ?thesis by (auto simp: push_inv_def s')
  next
    case False
    with assms(2,3) have s': "s' = s\<lparr>ps_pc := push_next left, ps_sent := ps_sent s @ [(n, p)]\<rparr>"
      by (simp add: push_thread_def)
    have base: "closed \<subseteq> ps_closed s' \<and> (\<forall>m \<in> closed. gone (ps_sent s') m)"
      using assms(1) n by (auto simp: push_inv_def s')
    show ?thesis
    proof (cases "reuse ops c")
      case None
      with v se have p: "p = \<lparr>p_connection = Some c, p_is_reused = False, p_key = key,
          p_pool = weak_downgrade pool\<rparr>" and left: "left = None" and sent: "ps_sent s = []"
        by (auto simp: value_ok_def sent_ok_def)
      from sp have w: "waiting i key = Some (past @ n # rest)" and d: "distinct (past @ n # rest)"
        by (auto simp: split_ok_def)
      from sp have "push ops (gone (ps_sent s')) now key c (weak_downgrade pool) i = (ps_inner s', ps_sent s')"
        by (simp add: push_def w walk_given [OF d None] split_ok_def s' sent p)
      moreover have "\<exists>past' rest'. waiting i key = Some (past' @ rest') \<and> waiting (ps_inner s') key = Some rest' \<and>
         (\<forall>m. gone (ps_sent s') m \<longrightarrow> m \<in> set past' \<longrightarrow> m \<in> ps_closed s')"
        using sp by (intro exI [of _ "past @ [n]"] exI [of _ rest]) (auto simp: split_ok_def s')
      ultimately show ?thesis using base by (simp add: push_inv_def s' left push_next_def done_ok_def)
    next
      case (Some conn)
      with v have p: "(n, p) = clone_to key pool conn n" and left: "left = Some c"
        by (auto simp: value_ok_def clone_to_def)
      from sp have "filter (\<lambda>m. \<not> gone (ps_sent s') m) past = filter (\<lambda>m. \<not> gone (ps_sent s) m) past"
        by (intro filter_cong) (auto simp: split_ok_def s')
      moreover have "\<not> gone (ps_sent s') n" by (simp add: s')
      ultimately have "sent_ok ops key pool c (past @ [n]) s'"
        using se Some p by (simp add: sent_ok_def s')
      moreover from sp have "split_ok i key (past @ [n]) [] rest s'" by (auto simp: split_ok_def s')
      ultimately show ?thesis using base by (auto simp: push_inv_def s' left push_next_def)
    qed
  qed
qed

lemma inv_dropping:
  assumes "push_inv ops now key pool c i closed s" and "ps_pc s = Dropping p left" and "heap pool \<noteq> None"
    and "push_thread ops heap now key pool s = Some s'"
  shows "push_inv ops now key pool c i closed s'"
proof -
  from assms(1,2) obtain n past rest where n: "n \<notin> closed" "n \<in> ps_closed s"
    and v: "value_ok ops key pool c p left"
    and sp: "split_ok i key past [n] rest s" and se: "sent_ok ops key pool c past s"
    by (auto simp: push_inv_def)
  from assms(2,4) have s': "s' = s\<lparr>ps_pc := push_next left\<rparr>" and free: "drop_locks ops heap p = None"
    by (auto simp: push_thread_def split: if_splits)
  show ?thesis
  proof (cases "reuse ops c")
    case None
    with v se free assms(3) have "left = None" "ps_sent s = []" "\<not> is_open ops c"
      by (auto simp: value_ok_def sent_ok_def split: if_splits)
    moreover from sp n have "\<exists>past' rest'. waiting i key = Some (past' @ rest') \<and> waiting (ps_inner s') key = Some rest' \<and>
         (\<forall>m. gone (ps_sent s') m \<longrightarrow> m \<in> set past' \<longrightarrow> m \<in> ps_closed s')"
      by (intro exI [of _ "past @ [n]"] exI [of _ rest]) (auto simp: split_ok_def s')
    ultimately show ?thesis using assms(1) None sp
      by (simp add: push_inv_def s' push_next_def done_ok_def split_ok_def)
  next
    case (Some conn)
    with v have left: "left = Some c" by (simp add: value_ok_def)
    from sp n have "split_ok i key (past @ [n]) [] rest s'" by (auto simp: split_ok_def s')
    moreover from sp se Some have "sent_ok ops key pool c (past @ [n]) s'"
      by (simp add: sent_ok_def split_ok_def s')
    ultimately show ?thesis using assms(1) by (auto simp: push_inv_def s' left push_next_def)
  qed
qed

lemma inv_run:
  assumes "push_run ops heap now key pool (push_start key c i closed) s" and "heap pool \<noteq> None"
    and "waiting i key = Some ws" and "distinct ws"
  shows "push_inv ops now key pool c i closed s"
  using assms(1)
proof induction
  case start
  show ?case by (rule inv_start [OF assms(3,4)])
next
  case (thread s s')
  from thread.IH thread.hyps(2) assms(2) show ?case
    by (cases "ps_pc s") (auto intro: inv_walking inv_popped inv_sending inv_dropping
      simp: push_thread_def [of _ _ _ _ _ s])
next
  case (closes s n)
  then show ?case by (simp add: inv_closes)
qed

section \<open>Runs that end\<close>

definition work_left :: "'k \<Rightarrow> ('k, 'c) push_state \<Rightarrow> nat" where
  "work_left key s =
     4 * (case waiting (ps_inner s) key of None \<Rightarrow> 0 | Some ws \<Rightarrow> length ws) +
     (case ps_pc s of Popped _ _ \<Rightarrow> 4 | Sending _ _ _ \<Rightarrow> 3 | Dropping _ _ \<Rightarrow> 2 | Walking _ \<Rightarrow> 1 | Unlocked \<Rightarrow> 0)"

lemma work_decreases:
  "push_thread ops heap now key pool s = Some s' \<Longrightarrow> work_left key s' < work_left key s"
  by (auto simp: push_thread_def work_left_def push_next_def
      split: push_pc.splits option.splits list.splits if_splits)

text \<open>A thread without a statement left is at the end, or waits for its own mutex.\<close>

lemma stopped:
  assumes "push_inv ops now key pool c i closed s" and "heap pool \<noteq> None"
    and "push_thread ops heap now key pool s = None"
  shows "ps_pc s = Unlocked \<or> push_blocked ops heap pool s \<and> reuse ops c = None \<and> is_open ops c"
proof (cases "ps_pc s")
  case (Dropping p left)
  with assms(1) have "value_ok ops key pool c p left" by (simp add: push_inv_def)
  with Dropping assms(2,3) show ?thesis
    by (auto simp: push_thread_def push_blocked_def value_ok_def clone_to_def split: option.splits if_splits)
qed (use assms(3) in \<open>auto simp: push_thread_def split: option.splits list.splits if_splits\<close>)

lemma run_to_stop:
  "push_run ops heap now key pool s0 s \<Longrightarrow>
     \<exists>s'. push_run ops heap now key pool s0 s' \<and> push_thread ops heap now key pool s' = None"
proof (induction "work_left key s" arbitrary: s rule: less_induct)
  case less
  show ?case
  proof (cases "push_thread ops heap now key pool s")
    case None
    with less.prems show ?thesis by blast
  next
    case (Some s')
    with less.hyps [OF work_decreases [OF Some]] push_run.thread [OF less.prems Some] show ?thesis by blast
  qed
qed

lemma blocked_reason:
  assumes "push_inv ops now key pool c i closed s" and "heap pool \<noteq> None"
    and "push_blocked ops heap pool s" and "waiting i key = Some ws"
  shows "reuse ops c = None \<and> is_open ops c \<and> (\<exists>n. n \<in> set ws \<and> n \<notin> closed)"
proof -
  from assms(3) obtain p left where pc: "ps_pc s = Dropping p left" and locks: "drop_locks ops heap p = Some pool"
    by (auto simp: push_blocked_def split: push_pc.splits)
  from assms(1) pc have "value_ok ops key pool c p left" by (simp add: push_inv_def)
  with locks have "reuse ops c = None \<and> is_open ops c"
    by (auto simp: value_ok_def clone_to_def split: option.splits if_splits)
  moreover from assms(1,4) pc have "\<exists>n. n \<in> set ws \<and> n \<notin> closed"
    by (auto simp: push_inv_def split_ok_def)
  ultimately show ?thesis by blast
qed

text \<open>The waiters that had gone before the push are skipped.\<close>

lemma skip_gone:
  assumes "push_run ops heap now key pool s0 s" and "ps_pc s = Walking c"
    and "waiting (ps_inner s) key = Some (past @ rest)" and "set past \<subseteq> ps_closed s"
  shows "\<exists>s'. push_run ops heap now key pool s0 s' \<and> ps_pc s' = Walking c \<and>
    waiting (ps_inner s') key = Some rest \<and> ps_closed s' = ps_closed s"
  using assms
proof (induction past arbitrary: s)
  case (Cons n past)
  let ?s1 = "s\<lparr>ps_pc := Popped n c,
    ps_inner := (ps_inner s)\<lparr>waiting := (waiting (ps_inner s))(key \<mapsto> past @ rest)\<rparr>\<rparr>"
  let ?s2 = "?s1\<lparr>ps_pc := Walking c\<rparr>"
  from Cons.prems have "push_thread ops heap now key pool s = Some ?s1" by (simp add: push_thread_def)
  from push_run.thread [OF Cons.prems(1) this] have r1: "push_run ops heap now key pool s0 ?s1" .
  from Cons.prems have "push_thread ops heap now key pool ?s1 = Some ?s2" by (simp add: push_thread_def)
  from push_run.thread [OF r1 this] Cons.IH [of ?s2] Cons.prems show ?case by simp
qed auto

lemma race_blocks:
  assumes "push_run ops heap now key pool s0 s" and "ps_pc s = Walking c"
    and "waiting (ps_inner s) key = Some (n # rest)" and "n \<notin> ps_closed s"
    and "reuse ops c = None" and "is_open ops c" and "heap pool \<noteq> None"
  shows "\<exists>s'. push_run ops heap now key pool s0 s' \<and> push_blocked ops heap pool s'"
proof -
  let ?p = "\<lparr>p_connection = Some c, p_is_reused = False, p_key = key, p_pool = weak_downgrade pool\<rparr>"
  let ?s1 = "s\<lparr>ps_pc := Popped n c,
    ps_inner := (ps_inner s)\<lparr>waiting := (waiting (ps_inner s))(key \<mapsto> rest)\<rparr>\<rparr>"
  let ?s2 = "?s1\<lparr>ps_pc := Sending n ?p None\<rparr>"
  let ?s3 = "push_closes n ?s2"
  let ?s4 = "?s3\<lparr>ps_pc := Dropping ?p None\<rparr>"
  from assms have "push_thread ops heap now key pool s = Some ?s1" by (simp add: push_thread_def)
  from push_run.thread [OF assms(1) this] have r1: "push_run ops heap now key pool s0 ?s1" .
  from assms have "push_thread ops heap now key pool ?s1 = Some ?s2" by (simp add: push_thread_def)
  from push_run.closes [OF push_run.thread [OF r1 this]]
  have r3: "push_run ops heap now key pool s0 ?s3" .
  have "push_thread ops heap now key pool ?s3 = Some ?s4" by (simp add: push_thread_def push_closes_def)
  from push_run.thread [OF r3 this] have "push_run ops heap now key pool s0 ?s4" .
  moreover from assms have "push_blocked ops heap pool ?s4" by (auto simp: push_blocked_def)
  ultimately show ?thesis by blast
qed

section \<open>Properties\<close>

text \<open>C6: the atomic \<open>push\<close> is what the critical section does: whichever receivers are
  dropped while it runs, a push that reaches its end has changed the pool and sent what the
  atomic push does when \<open>is_closed\<close> answers for the waiters that were sent nothing, nobody
  who had gone before it is sent anything, and the waiters it took from the queue in vain
  have all gone. The one exception is a connection that has closed in the meantime, which is
  dropped.\<close>

theorem push_race_atomic:
  assumes "push_run ops heap now key pool (push_start key c i closed) s" and "ps_pc s = Unlocked"
    and "heap pool \<noteq> None" and "waiting i key = Some ws" and "distinct ws"
  shows "(push ops (gone (ps_sent s)) now key c (weak_downgrade pool) i = (ps_inner s, ps_sent s) \<or>
      \<not> is_open ops c \<and> reuse ops c = None \<and> ps_sent s = [] \<and> idle_conns (ps_inner s) = idle_conns i) \<and>
    (\<forall>n \<in> closed. gone (ps_sent s) n) \<and>
    (\<exists>past rest. ws = past @ rest \<and> waiting (ps_inner s) key = Some rest \<and>
       {n \<in> set past. gone (ps_sent s) n} \<subseteq> ps_closed s)"
proof -
  from inv_run [OF assms(1,3,4,5)] assms(2) have "done_ok ops now key pool c i s"
    and "\<forall>n \<in> closed. gone (ps_sent s) n"
    by (simp_all add: push_inv_def)
  with assms(4) show ?thesis unfolding done_ok_def by auto
qed

definition h1_like :: "nat conn_ops" where
  "h1_like = \<lparr>is_open = (\<lambda>_. True), can_share = (\<lambda>_. False), reuse = (\<lambda>_. None)\<rparr>"

definition two_waiters :: "(string, nat) pool_inner" where
  "two_waiters = (pool_new config_default)\<lparr>waiting := [''h'' \<mapsto> [0, 1]]\<rparr>"

text \<open>Waiter 0 goes before the loop reaches it, waiter 1 gets the connection.\<close>

theorem push_race_atomic_witness:
  "\<exists>s. push_run h1_like [0 \<mapsto> ()] 5 ''h'' 0 (push_start ''h'' 7 two_waiters {}) s \<and> ps_pc s = Unlocked \<and>
     ps_closed s = {0} \<and> ps_sent s \<noteq> [] \<and>
     push h1_like (gone (ps_sent s)) 5 ''h'' 7 (weak_downgrade 0) two_waiters = (ps_inner s, ps_sent s)"
proof -
  let ?s = "the (push_schedule h1_like [0 \<mapsto> ()] 5 ''h'' 0 [None, Some 0, None, None, None, None]
    (push_start ''h'' 7 two_waiters {}))"
  have ex: "push_schedule h1_like [0 \<mapsto> ()] 5 ''h'' 0 [None, Some 0, None, None, None, None]
      (push_start ''h'' 7 two_waiters {}) = Some ?s \<and> ps_pc ?s = Unlocked \<and> ps_closed ?s = {0} \<and> ps_sent ?s \<noteq> []"
    by (simp add: push_thread_def push_closes_def push_start_def push_next_def h1_like_def two_waiters_def)
  then have run: "push_run h1_like [0 \<mapsto> ()] 5 ''h'' 0 (push_start ''h'' 7 two_waiters {}) ?s"
    by (blast intro: schedule_run push_run.start)
  from push_race_atomic [OF run, of "[0, 1]"] ex run show ?thesis by (auto simp: two_waiters_def)
qed



text \<open>Otherwise every run of a push can be finished by its thread alone.\<close>

theorem push_can_finish:
  assumes "push_run ops heap now key pool (push_start key c i closed) s"
    and "heap pool \<noteq> None" and "waiting i key = Some ws" and "distinct ws"
    and "reuse ops c \<noteq> None \<or> \<not> is_open ops c"
  shows "\<exists>s'. push_run ops heap now key pool (push_start key c i closed) s' \<and> ps_pc s' = Unlocked"
proof -
  from run_to_stop [OF assms(1)] obtain s'
    where r: "push_run ops heap now key pool (push_start key c i closed) s'"
      and st: "push_thread ops heap now key pool s' = None" by blast
  from stopped [OF inv_run [OF r assms(2-4)] assms(2) st] assms(5) r show ?thesis by blast
qed

end
