(* ===== verification/Pool_Panics.thy ===== *)
theory Pool_Panics
  imports Pool_System
begin

text \<open>
  The panics in the pool's own code: \<open>Deref\<close> and \<open>DerefMut\<close> of a \<open>Pooled\<close> expect a connection,
  a checkout expects the connection it was given, and a receiver that is polled after it
  answered panics in the runtime. While the pool is alive none of them happens.
\<close>

section \<open>Pooled connections are dereferenced\<close>

definition pooled_deref :: "('k, 'c) pooled \<Rightarrow> 'c run" where
  "pooled_deref p = expect (ok_or () (p_connection p))"

text \<open>\<open>deref_mut\<close>: the connection, and the handle once it has been changed through it.\<close>

definition pooled_deref_mut :: "('c \<Rightarrow> 'r \<times> 'c) \<Rightarrow> ('k, 'c) pooled \<Rightarrow> ('r \<times> ('k, 'c) pooled) run" where
  "pooled_deref_mut f p =
     run_bind (expect (ok_or () (p_connection p))) (\<lambda>c.
       Return (let (r, c') = f c in (r, p\<lparr>p_connection := Some c'\<rparr>)))"

section \<open>What is sent is full\<close>

definition filled :: "('k, 'c) cells \<Rightarrow> bool" where
  "filled cells \<longleftrightarrow> (\<forall>p. Full p \<in> set cells \<longrightarrow> p_connection p \<noteq> None)"

definition full_sends :: "('k, 'c) sends \<Rightarrow> bool" where
  "full_sends sends \<longleftrightarrow> (\<forall>p \<in> snd ` set sends. p_connection p \<noteq> None)"

text \<open>
  How the channels may change under an operation: but for the channels \<open>S\<close> it owns, a channel
  only receives a value, and every value has a connection.
\<close>

definition grows :: "nat set \<Rightarrow> ('k, 'c) cells \<Rightarrow> ('k, 'c) cells \<Rightarrow> bool" where
  "grows S cells cells' \<longleftrightarrow> length cells' = length cells \<and> (filled cells \<longrightarrow> filled cells') \<and>
     (\<forall>n. n \<notin> S \<longrightarrow> cells' ! n = cells ! n \<or> (\<exists>p. cells' ! n = Full p))"

lemma grows_refl [simp]: "grows S cells cells"
  by (simp add: grows_def)

lemma grows_trans: "grows S a b \<Longrightarrow> grows T b c \<Longrightarrow> S \<subseteq> U \<Longrightarrow> T \<subseteq> U \<Longrightarrow> grows U a c"
  unfolding grows_def by (metis subsetD)

lemma grows_own: "\<forall>p. c \<noteq> Full p \<Longrightarrow> grows {n} cells (cells[n := c])"
  using set_update_subset_insert [of cells n c] by (auto simp: grows_def filled_def)

lemma full_Nil [simp]: "full_sends []"
  by (simp add: full_sends_def)

lemma deliver_nth: "deliver sends cells ! n = cells ! n \<or> (\<exists>p. deliver sends cells ! n = Full p)"
proof (induction sends cells rule: deliver.induct)
  case (2 m p sends cells)
  then show ?case by (cases "m = n"; cases "n < length cells") (auto simp: list_update_beyond)
qed simp

lemma deliver_grows: "full_sends sends \<Longrightarrow> grows {} cells (deliver sends cells)"
  using deliver_set [of sends cells] deliver_nth [of sends cells]
  by (fastforce simp: grows_def filled_def full_sends_def)

lemma push_full:
  assumes "push ops closed now key c ref i = (i', sends)"
  shows "full_sends sends"
proof -
  have walk: "push_walk ops closed key ref ws c = (s, r, l) \<Longrightarrow> full_sends s" for ws s r l
    by (induction ws arbitrary: s r l) (auto simp: full_sends_def split: if_splits option.splits prod.splits)
  from assms show ?thesis
    by (auto simp: push_def Let_def split: option.splits prod.splits dest: walk)
qed

lemma drop_pooled_full: "drop_pooled ops closed now heap p = (heap', sends) \<Longrightarrow> full_sends sends"
  by (auto simp: drop_pooled_def Let_def split: option.splits if_splits weak_opt.splits prod.splits dest: push_full)

lemma release_grows: "grows {} cells (snd (release ops now p heap cells))"
  by (auto simp: release_def split: prod.splits intro: deliver_grows drop_pooled_full)

lemma drop_rx_grows: "grows (set_option (rx_channel w)) cells (snd (drop_rx ops now w heap cells))"
proof (cases "rx_channel w")
  case (Some n)
  show ?thesis
  proof (cases "cells ! n")
    case (Full p)
    have "grows {n} cells (cells[n := Taken])" by (rule grows_own) simp
    from grows_trans [OF this release_grows [of "cells[n := Taken]" ops now p heap], of "{n}"] Full Some
    show ?thesis by (simp add: drop_rx_def)
  qed (use Some in \<open>auto simp: drop_rx_def intro: grows_own\<close>)
qed (simp add: drop_rx_def)

lemma end_checkout_grows:
  "grows (set_option (rx_channel (ck_waiter co))) cells (snd (end_checkout ops now co heap cells))"
  by (simp add: end_checkout_def drop_rx_grows)

section \<open>A poll and its panics\<close>

lemma connected_full:
  "connected ops closed now heap co c = (heap', sends, p) \<Longrightarrow> full_sends sends \<and> p_connection p \<noteq> None"
  by (auto simp: connected_def Let_def split: weak_opt.splits option.splits prod.splits dest: push_full)

text \<open>
  What a poll answers: it keeps the waiter, sends and returns connections, stays as it is when
  it waits for another's connection, and panics for one of the reasons listed.
\<close>

definition poll_fit ::
  "('k, 'c, 't, 'e) poll_inputs \<Rightarrow> ('k, 'c, 'f, 't) checkout \<Rightarrow> ('k, 'c, 'f, 't, 'e) poll_output \<Rightarrow> bool" where
  "poll_fit inp co out \<longleftrightarrow>
     (case out of (heap, sends, co', res) \<Rightarrow>
        full_sends sends \<and> ck_waiter co' = ck_waiter co \<and>
        (\<forall>p. res = Ready (Inr p) \<longrightarrow> p_connection p \<noteq> None \<or> in_rx inp = Ready (Inr p)) \<and>
        (res = Pending \<longrightarrow> ck_inner co' = Inner_Connected \<longrightarrow> co' = co) \<and>
        (res = Panicked \<longrightarrow> in_transport inp = Panicked \<or> (\<exists>t. in_handshake inp t = Panicked) \<or>
           (ck_inner co = Inner_Connected \<and> ck_connection co = None) \<or>
           (rx_channel (ck_waiter co) \<noteq> None \<and> in_rx inp = Panicked)))"

lemma handshaking_fit:
  assumes "poll_handshaking ops closed now inp heap co' t = out" and "ck_waiter co' = ck_waiter co"
    and "ck_inner co' \<noteq> Inner_Connected"
  shows "poll_fit inp co out"
  using assms connected_full [of ops closed now heap co']
  by (cases "in_handshake inp t") (auto simp: poll_handshaking_def poll_fit_def split: sum.splits prod.splits)

lemma connect_fit: "poll_fit inp co (poll_connect ops tshare closed now inp heap co)"
proof (cases "ck_inner co")
  case Inner_Waiting
  then show ?thesis by (simp add: poll_connect_def poll_fit_def)
next
  case Inner_Connected
  then show ?thesis
    using connected_full [of ops closed now heap "co\<lparr>ck_connection := None\<rparr>"]
    by (auto simp: poll_connect_def poll_fit_def Let_def split: option.splits prod.splits)
next
  case (Inner_Connecting f)
  show ?thesis
  proof (cases "\<exists>t. in_transport inp = Ready (Inr t)")
    case True
    then obtain t where t: "in_transport inp = Ready (Inr t)" by blast
    show ?thesis
      by (rule handshaking_fit [where co' = "co\<lparr>ck_inner := Inner_Handshaking t\<rparr>" and t = t])
        (simp_all add: poll_connect_def Inner_Connecting t)
  next
    case False
    with Inner_Connecting show ?thesis
      by (cases "in_transport inp") (auto simp: poll_connect_def poll_fit_def split: sum.splits)
  qed
next
  case (Inner_Handshaking t)
  then show ?thesis
    using handshaking_fit [where co' = co and co = co and ops = ops and closed = closed and now = now
        and inp = inp and heap = heap and t = t, OF refl refl]
    by (simp add: poll_connect_def)
qed

lemma checkout_poll_fit: "poll_fit inp co (checkout_poll ops tshare closed now inp heap co)"
  using connect_fit [of inp co ops tshare closed now heap]
  by (cases "ck_waiter co"; cases "in_rx inp")
    (auto simp: checkout_poll_def poll_fit_def split: sum.splits)

text \<open>A checkout that was given its connection ends with the poll in which its channel answers.\<close>

lemma poll_given_ends:
  assumes "ck_inner co = Inner_Connected" and "in_rx inp = Ready r"
    and "checkout_poll ops tshare closed now inp heap co = (heap', sends, co', res)"
  shows "res \<noteq> Pending"
  using assms by (cases "ck_waiter co"; cases r)
    (auto simp: checkout_poll_def poll_connect_def Let_def split: option.splits prod.splits)

lemma poll_received_ends:
  assumes "rx_channel (ck_waiter co) \<noteq> None" and "in_rx inp = Ready (Inr p)"
    and "checkout_poll ops tshare closed now inp heap co = (heap', sends, co', res)"
  shows "res \<noteq> Pending"
  using assms by (cases "ck_waiter co") (auto simp: checkout_poll_def)

section \<open>The invariant\<close>

text \<open>
  A checkout that can be polled: its channel is open or holds a value, unless it was given its
  connection when it was made; and what it was given is still there.
\<close>

definition ready_co :: "('k, 'c) cells \<Rightarrow> ('k, 'c, 'f, 't) checkout \<Rightarrow> bool" where
  "ready_co cells co \<longleftrightarrow>
     (\<forall>n. rx_channel (ck_waiter co) = Some n \<longrightarrow> n < length cells \<and>
        (cells ! n = Empty \<or> (\<exists>p. cells ! n = Full p) \<or> (cells ! n = TxDropped \<and> ck_inner co = Inner_Connected))) \<and>
     (ck_inner co = Inner_Connected \<longrightarrow> ck_connection co \<noteq> None)"

definition channel_of :: "('k, 'c, 'f, 't) checkout \<Rightarrow> nat list" where
  "channel_of co = (case rx_channel (ck_waiter co) of None \<Rightarrow> [] | Some n \<Rightarrow> [n])"

definition channels :: "('k, 'c, 'f, 't) checkout list \<Rightarrow> nat list" where
  "channels cos = concat (map channel_of cos)"

definition fit :: "('k, 'c, 'f, 't) world \<Rightarrow> bool" where
  "fit w \<longleftrightarrow> filled (w_cells w) \<and> (\<forall>p \<in> set (w_held w). p_connection p \<noteq> None) \<and>
     distinct (channels (w_checkouts w)) \<and> (\<forall>co \<in> set (w_checkouts w). ready_co (w_cells w) co)"

lemma ready_grows:
  "ready_co cells co \<Longrightarrow> grows S cells cells' \<Longrightarrow> (\<And>n. rx_channel (ck_waiter co) = Some n \<Longrightarrow> n \<notin> S) \<Longrightarrow>
     ready_co cells' co"
  unfolding ready_co_def grows_def by metis

lemma channel_of_iff [simp]: "n \<in> set (channel_of co) \<longleftrightarrow> rx_channel (ck_waiter co) = Some n"
  by (cases "rx_channel (ck_waiter co)") (auto simp: channel_of_def)

lemma channels_append [simp]:
  "channels [] = []" "channels (co # cos) = channel_of co @ channels cos"
  "channels (xs @ ys) = channels xs @ channels ys"
  by (simp_all add: channels_def)

lemma channels_iff: "n \<in> set (channels cos) \<longleftrightarrow> (\<exists>co \<in> set cos. rx_channel (ck_waiter co) = Some n)"
  by (auto simp: channels_def)

lemma channels_split:
  assumes "j < length cos"
  shows "channels cos = channels (take j cos) @ channel_of (cos ! j) @ channels (drop (Suc j) cos)"
    and "channels (remove_at j cos) = channels (take j cos) @ channels (drop (Suc j) cos)"
  by (subst id_take_nth_drop [OF assms]) (simp_all add: remove_at_def)

lemma channels_others:
  assumes "j < length cos" and "distinct (channels cos)"
  shows "distinct (channels (remove_at j cos))"
    and "n \<in> set (channels (remove_at j cos)) \<Longrightarrow> rx_channel (ck_waiter (cos ! j)) \<noteq> Some n"
  using assms(2) unfolding channels_split [OF assms(1)] by auto

lemma channels_update:
  "j < length cos \<Longrightarrow> ck_waiter co = ck_waiter (cos ! j) \<Longrightarrow> channels (cos[j := co]) = channels cos"
  by (simp add: upd_conv_take_nth_drop channels_split(1) channel_of_def)

lemma fit_end:
  assumes "fit w" and "j < length (w_checkouts w)" and "\<forall>p \<in> set held. p_connection p \<noteq> None"
    and "grows (set_option (rx_channel (ck_waiter (w_checkouts w ! j)))) (w_cells w) cells"
  shows "fit (w\<lparr>w_heap := heap, w_cells := cells, w_checkouts := remove_at j (w_checkouts w), w_held := held\<rparr>)"
proof -
  from assms(1) have dis: "distinct (channels (w_checkouts w))" by (simp add: fit_def)
  have "ready_co cells co" if co: "co \<in> set (remove_at j (w_checkouts w))" for co
  proof (rule ready_grows [OF _ assms(4)])
    show "ready_co (w_cells w) co" using co set_remove_at [of j "w_checkouts w"] assms(1) by (auto simp: fit_def)
    show "n \<notin> set_option (rx_channel (ck_waiter (w_checkouts w ! j)))" if "rx_channel (ck_waiter co) = Some n" for n
      using channels_others(2) [OF assms(2) dis, of n] that co by (auto simp: channels_iff)
  qed
  with assms channels_others(1) [OF assms(2) dis] show ?thesis by (auto simp: fit_def grows_def)
qed

lemma fit_held:
  assumes "fit w" and "grows {} (w_cells w) cells" and "set held \<subseteq> set (w_held w)"
  shows "fit (w\<lparr>w_heap := heap, w_cells := cells, w_held := held\<rparr>)"
  using assms by (auto simp: fit_def grows_def intro: ready_grows [OF _ assms(2)])

lemma fit_pending:
  assumes "fit w" and "j < length (w_checkouts w)" and "grows {} (w_cells w) cells"
    and "ck_waiter co = ck_waiter (w_checkouts w ! j)" and "ready_co (w_cells w) co"
  shows "fit (w\<lparr>w_heap := heap, w_cells := cells, w_checkouts := (w_checkouts w)[j := co]\<rparr>)"
proof -
  have "ready_co cells co'" if "co' \<in> set ((w_checkouts w)[j := co])" for co'
    using set_update_subset_insert [of "w_checkouts w" j co] that assms(1,5)
    by (auto simp: fit_def intro: ready_grows [OF _ assms(3)])
  with assms show ?thesis by (auto simp: fit_def grows_def channels_update)
qed

section \<open>Every step keeps it\<close>

lemma new_ready:
  assumes "pool_checkout ops now 0 (length cells) key multiplex f i = (i', co, kept)"
  shows "rx_channel (ck_waiter co) = Some (length cells)"
    and "ready_co (cells @ [if kept then Empty else TxDropped]) co"
proof -
  have "rx_channel (ck_waiter co) = Some (length cells) \<and> ready_co (cells @ [if kept then Empty else TxDropped]) co"
    using assms by (auto simp: pool_checkout_def Let_def checkout_new_def ready_co_def split: prod.splits option.splits if_splits)
  then show "rx_channel (ck_waiter co) = Some (length cells)"
    and "ready_co (cells @ [if kept then Empty else TxDropped]) co" by simp_all
qed

lemma do_checkout_fit:
  fixes w :: "('k, 'c, 'f, 't) world"
  assumes fit: "fit w"
  shows "fit (do_checkout ops now key multiplex f w)"
proof (cases "w_heap w 0")
  case (Some i)
  let ?cells = "w_cells w"
  obtain i' kept and co :: "('k, 'c, 'f, 't) checkout" where pc: "pool_checkout ops now 0 (length ?cells) key multiplex f i = (i', co, kept)"
    using prod_cases3 by blast
  note new = new_ready [OF pc]
  have old: "ready_co ?cells c \<Longrightarrow> ready_co (?cells @ [x]) c" for c :: "('k, 'c, 'f, 't) checkout" and x
    by (auto simp: ready_co_def nth_append)
  have "length ?cells \<notin> set (channels (w_checkouts w))"
    using fit by (auto simp: fit_def channels_iff ready_co_def)
  moreover have "channel_of co = [length ?cells]" by (simp add: channel_of_def new(1))
  ultimately show ?thesis
    using fit new(2) old Some pc by (auto simp: do_checkout_def fit_def filled_def)
qed (simp add: do_checkout_def fit)

text \<open>What the receiver of a checkout answers.\<close>

definition receive :: "waiting \<Rightarrow> ('k, 'c) cells \<Rightarrow> (unit + ('k, 'c) pooled) poll \<times> ('k, 'c) cells" where
  "receive wt cells =
     (case rx_channel wt of
        None \<Rightarrow> (Panicked, cells)
      | Some n \<Rightarrow> (let (r, c) = rx_poll (cells ! n) in (r, cells[n := c])))"

lemma received_grows:
  assumes "receive wt cells0 = (rx, cells)"
  shows "grows (set_option (rx_channel wt)) cells0 cells"
proof (cases "rx_channel wt")
  case (Some n)
  have "\<forall>p. snd (rx_poll (cells0 ! n)) \<noteq> Full p" by (cases "cells0 ! n") auto
  with grows_own assms Some show ?thesis by (auto simp: receive_def split: prod.splits)
qed (use assms in \<open>simp add: receive_def\<close>)

text \<open>When the poll is not over the channel was empty, and an answer or no channel is no panic.\<close>

lemma received_pending:
  assumes "ready_co cells0 co" and "receive (ck_waiter co) cells0 = (rx, cells)"
    and "checkout_poll ops tshare closed now inp heap co = (heap', sends, co', Pending)" and "in_rx inp = rx"
  shows "cells = cells0" and "rx_channel (ck_waiter co) = Some n \<Longrightarrow> cells0 ! n = Empty"
proof -
  have "cells = cells0 \<and> (\<forall>n. rx_channel (ck_waiter co) = Some n \<longrightarrow> cells0 ! n = Empty)"
  proof (cases "rx_channel (ck_waiter co)")
    case (Some n)
    show ?thesis
    proof (cases "cells0 ! n")
      case (Full p)
      with assms(2,4) Some have "in_rx inp = Ready (Inr p)" by (auto simp: receive_def)
      with poll_received_ends [OF _ this assms(3)] Some show ?thesis by simp
    next
      case TxDropped
      with assms(1) Some have "ck_inner co = Inner_Connected" by (auto simp: ready_co_def)
      moreover from TxDropped Some assms(2,4) have "in_rx inp = Ready (Inl ())" by (auto simp: receive_def)
      ultimately show ?thesis using poll_given_ends [OF _ _ assms(3)] by simp
    qed (use assms Some in \<open>auto simp: ready_co_def receive_def list_update_same_conv\<close>)
  qed (use assms in \<open>simp add: receive_def\<close>)
  then show "cells = cells0" and "rx_channel (ck_waiter co) = Some n \<Longrightarrow> cells0 ! n = Empty" by simp_all
qed

lemma received_full:
  assumes "ready_co cells0 co" and "filled cells0" and "receive (ck_waiter co) cells0 = (rx, cells)"
  shows "rx = Ready (Inr p) \<Longrightarrow> p_connection p \<noteq> None" and "rx_channel (ck_waiter co) \<noteq> None \<Longrightarrow> rx \<noteq> Panicked"
proof -
  have "(rx = Ready (Inr p) \<longrightarrow> p_connection p \<noteq> None) \<and> (rx_channel (ck_waiter co) \<noteq> None \<longrightarrow> rx \<noteq> Panicked)"
  proof (cases "rx_channel (ck_waiter co)")
    case (Some n)
    with assms(1) have "n < length cells0" by (simp add: ready_co_def)
    then have "cells0 ! n \<in> set cells0" by simp
    with assms Some show ?thesis
      by (cases "cells0 ! n") (auto simp: ready_co_def receive_def filled_def)
  qed (use assms in \<open>auto simp: receive_def\<close>)
  then show "rx = Ready (Inr p) \<Longrightarrow> p_connection p \<noteq> None" and "rx_channel (ck_waiter co) \<noteq> None \<Longrightarrow> rx \<noteq> Panicked"
    by simp_all
qed

text \<open>The parts of a poll: the receiver is polled, then the checkout, then what is over is dropped.\<close>

lemma do_poll_parts:
  obtains rx cells heap' sends co' res where
    "receive (ck_waiter (w_checkouts w ! j)) (w_cells w) = (rx, cells)"
    and "checkout_poll ops tshare (rx_closed cells) now
      \<lparr>in_rx = rx, in_transport = tr, in_handshake = hs\<rparr> (w_heap w) (w_checkouts w ! j) = (heap', sends, co', res)"
    and "snd (do_poll ops tshare now tr hs j w) = res"
    and "res = Pending \<Longrightarrow> fst (do_poll ops tshare now tr hs j w) = w\<lparr>w_heap := heap',
      w_cells := deliver sends cells, w_checkouts := (w_checkouts w)[j := co']\<rparr>"
    and "res \<noteq> Pending \<Longrightarrow> fst (do_poll ops tshare now tr hs j w) = w\<lparr>
      w_heap := fst (end_checkout ops now co' heap' (deliver sends cells)),
      w_cells := snd (end_checkout ops now co' heap' (deliver sends cells)),
      w_checkouts := remove_at j (w_checkouts w),
      w_held := w_held w @ (case res of Ready (Inr p) \<Rightarrow> [p] | _ \<Rightarrow> [])\<rparr>"
proof -
  let ?co = "w_checkouts w ! j"
  obtain rx cells where rx: "receive (ck_waiter ?co) (w_cells w) = (rx, cells)" by fastforce
  obtain heap' sends co' res where cp: "checkout_poll ops tshare (rx_closed cells) now
      \<lparr>in_rx = rx, in_transport = tr, in_handshake = hs\<rparr> (w_heap w) ?co = (heap', sends, co', res)"
    using prod_cases4 by blast
  have dp: "do_poll ops tshare now tr hs j w = (case res of
       Pending \<Rightarrow> (w\<lparr>w_heap := heap', w_cells := deliver sends cells, w_checkouts := (w_checkouts w)[j := co']\<rparr>, res)
     | _ \<Rightarrow> (let (heap'', cells'') = end_checkout ops now co' heap' (deliver sends cells)
            in (w\<lparr>w_heap := heap'', w_cells := cells'', w_checkouts := remove_at j (w_checkouts w),
                  w_held := w_held w @ (case res of Ready (Inr p) \<Rightarrow> [p] | _ \<Rightarrow> [])\<rparr>, res)))"
    using rx [unfolded receive_def] cp by (simp add: do_poll_def Let_def)
  show thesis
    by (rule that [OF rx cp]) (simp_all add: dp case_prod_beta split: poll.splits)
qed

lemma do_poll_fit:
  fixes w :: "('k, 'c, 'f, 't) world"
  assumes "fit w" and "j < length (w_checkouts w)"
  shows "fit (fst (do_poll ops tshare now tr hs j w))"
proof (rule do_poll_parts [where ops = ops and tshare = tshare and now = now and tr = tr and hs = hs and j = j and w = w])
  let ?co = "w_checkouts w ! j" and ?w = "fst (do_poll ops tshare now tr hs j w)"
  from assms have ready: "ready_co (w_cells w) ?co" and full: "filled (w_cells w)" by (simp_all add: fit_def)
  fix rx cells heap' sends and co' :: "('k, 'c, 'f, 't) checkout" and res
  assume rx: "receive (ck_waiter ?co) (w_cells w) = (rx, cells)"
    and cp: "checkout_poll ops tshare (rx_closed cells) now
      \<lparr>in_rx = rx, in_transport = tr, in_handshake = hs\<rparr> (w_heap w) ?co = (heap', sends, co', res)"
    and pending: "res = Pending \<Longrightarrow> ?w = w\<lparr>w_heap := heap',
      w_cells := deliver sends cells, w_checkouts := (w_checkouts w)[j := co']\<rparr>"
    and over: "res \<noteq> Pending \<Longrightarrow> ?w = w\<lparr>
      w_heap := fst (end_checkout ops now co' heap' (deliver sends cells)),
      w_cells := snd (end_checkout ops now co' heap' (deliver sends cells)),
      w_checkouts := remove_at j (w_checkouts w),
      w_held := w_held w @ (case res of Ready (Inr p) \<Rightarrow> [p] | _ \<Rightarrow> [])\<rparr>"
  from checkout_poll_fit [of _ ?co] cp
  have p: "poll_fit \<lparr>in_rx = rx, in_transport = tr, in_handshake = hs\<rparr> ?co (heap', sends, co', res)" by metis
  then have wt: "ck_waiter co' = ck_waiter ?co" and del: "grows {} cells (deliver sends cells)"
    by (simp_all add: poll_fit_def deliver_grows)
  show ?thesis
  proof (cases "res = Pending")
    case True
    note same = received_pending [OF ready rx cp [unfolded True]]
    have "ready_co (w_cells w) co'"
      using ready same p True wt by (auto simp: ready_co_def poll_fit_def)
    with fit_pending [OF assms _ wt this] del same pending [OF True] show ?thesis by simp
  next
    case False
    have "grows (set_option (rx_channel (ck_waiter ?co))) (w_cells w)
        (snd (end_checkout ops now co' heap' (deliver sends cells)))"
      using grows_trans [OF received_grows [OF rx] grows_trans [OF del end_checkout_grows [of co'] empty_subsetI subset_refl]]
      by (simp add: wt)
    moreover have "\<forall>p \<in> set (w_held w @ (case res of Ready (Inr p) \<Rightarrow> [p] | _ \<Rightarrow> [])). p_connection p \<noteq> None"
      using p received_full(1) [OF ready full rx] assms(1)
      by (auto simp: poll_fit_def fit_def split: poll.splits sum.splits)
    ultimately show ?thesis using fit_end [OF assms] over [OF False] by simp
  qed
qed

lemma do_poll_no_panic:
  fixes w :: "('k, 'c, 'f, 't) world"
  assumes "fit w" and "j < length (w_checkouts w)" and "tr \<noteq> Panicked" and "\<And>t. hs t \<noteq> Panicked"
  shows "snd (do_poll ops tshare now tr hs j w) \<noteq> Panicked"
proof (rule do_poll_parts [where ops = ops and tshare = tshare and now = now and tr = tr and hs = hs and j = j and w = w])
  let ?co = "w_checkouts w ! j"
  from assms have ready: "ready_co (w_cells w) ?co" and full: "filled (w_cells w)" by (simp_all add: fit_def)
  fix rx cells heap' sends and co' :: "('k, 'c, 'f, 't) checkout" and res
  assume rx: "receive (ck_waiter ?co) (w_cells w) = (rx, cells)"
    and cp: "checkout_poll ops tshare (rx_closed cells) now
      \<lparr>in_rx = rx, in_transport = tr, in_handshake = hs\<rparr> (w_heap w) ?co = (heap', sends, co', res)"
    and res: "snd (do_poll ops tshare now tr hs j w) = res"
  from checkout_poll_fit [of _ ?co] cp
  have "poll_fit \<lparr>in_rx = rx, in_transport = tr, in_handshake = hs\<rparr> ?co (heap', sends, co', res)" by metis
  with ready received_full(2) [OF ready full rx] assms(3,4) show ?thesis
    unfolding res by (auto simp: poll_fit_def ready_co_def)
qed

lemma do_cancel_fit: "fit w \<Longrightarrow> j < length (w_checkouts w) \<Longrightarrow> fit (do_cancel ops now j w)"
  using fit_end [OF _ _ _ end_checkout_grows, of w j "w_held w" ops now]
  by (auto simp: do_cancel_def fit_def case_prod_beta)

lemma do_release_fit: "fit w \<Longrightarrow> fit (do_release ops now j w)"
  using fit_held [OF _ release_grows set_remove_at] by (auto simp: do_release_def case_prod_beta)

text \<open>A step of a pool that stays alive.\<close>

definition alive_step :: "('c \<Rightarrow> bool) \<Rightarrow> ('k, 'c, 'f, 't) world \<Rightarrow> ('k, 'c, 'f, 't) world \<Rightarrow> bool" where
  "alive_step share w w' \<longleftrightarrow> step share w w' \<and> w_heap w' 0 \<noteq> None"

lemma alive_step_fit: "alive_step share w w' \<Longrightarrow> fit w \<Longrightarrow> fit w'"
  unfolding alive_step_def
  by (erule conjE, erule step.cases)
    (auto simp: do_checkout_fit do_poll_fit do_cancel_fit do_release_fit do_drop_pool_def)

lemma alive_fit: "(alive_step share)\<^sup>*\<^sup>* (world_init conf) w \<Longrightarrow> fit w"
proof (induction rule: rtranclp_induct)
  case base
  show ?case by (simp add: world_init_def fit_def filled_def)
qed (rule alive_step_fit)

section \<open>Properties\<close>

text \<open>C4: the pool does not panic: in every state that checkouts, polls, cancellations and
  releases reach while the pool is alive, each connection lent out can be dereferenced, and
  polling a checkout panics only if a future of the transport or of the handshake does.\<close>

theorem pool_never_panics:
  assumes "(alive_step share)\<^sup>*\<^sup>* (world_init conf) w"
  shows "(p \<in> set (w_held w) \<longrightarrow> (\<exists>c. pooled_deref p = Return c \<and> pooled_deref_mut f p = Return (fst (f c), p\<lparr>p_connection := Some (snd (f c))\<rparr>))) \<and>
    (j < length (w_checkouts w) \<and> tr \<noteq> Panicked \<and> (\<forall>t. hs t \<noteq> Panicked) \<longrightarrow>
      snd (do_poll ops tshare now tr hs j w) \<noteq> Panicked)"
proof -
  note fit = alive_fit [OF assms]
  have "\<exists>c. pooled_deref p = Return c \<and> pooled_deref_mut f p = Return (fst (f c), p\<lparr>p_connection := Some (snd (f c))\<rparr>)"
    if "p \<in> set (w_held w)"
    using fit that by (auto simp: fit_def pooled_deref_def pooled_deref_mut_def case_prod_beta)
  with do_poll_no_panic [OF fit] show ?thesis by blast
qed

theorem pool_never_panics_witness:
  "let w = do_checkout exclusive_ops 1 ''h'' False () (world_init config_default) :: (string, nat, unit, unit) world;
       w' = fst (do_poll exclusive_ops (\<lambda>_. False) 2 (Ready (Inr ()) :: (unit + unit) poll) (\<lambda>_. Ready (Inr 7)) 0 w)
   in snd (do_poll exclusive_ops (\<lambda>_. False) 2 (Ready (Inr ()) :: (unit + unit) poll) (\<lambda>_. Pending) 0 w) \<noteq> Panicked \<and>
      (\<exists>c. pooled_deref (w_held w' ! 0) = Return c)"
proof -
  let ?init = "world_init config_default :: (string, nat, unit, unit) world"
  let ?w = "do_checkout exclusive_ops 1 ''h'' False () ?init"
  let ?w' = "fst (do_poll exclusive_ops (\<lambda>_. False) 2 (Ready (Inr ()) :: (unit + unit) poll) (\<lambda>_. Ready (Inr 7)) 0 ?w)"
  have "step (\<lambda>_. False) ?init ?w"
    by (rule step.checkout) (simp_all add: exclusive_ops_lawful)
  then have a: "alive_step (\<lambda>_. False) ?init ?w" by (simp add: alive_step_def world_simps)
  have "world_conns ?w = {#}" and j: "0 < length (w_checkouts ?w)"
    by (simp_all add: world_simps world_conns_def heap_conns_def cells_conns_def
      cell_conns_def checkout_conns_def inner_conns_def)
  then have "step (\<lambda>_. False) ?w ?w'"
    by (intro step.poll) (simp_all add: exclusive_ops_lawful)
  moreover have "w_heap ?w' 0 \<noteq> None" and held: "w_held ?w' ! 0 \<in> set (w_held ?w')"
    by (simp_all add: world_simps exclusive_ops_def)
  ultimately have "alive_step (\<lambda>_. False) ?w ?w'" by (simp add: alive_step_def)
  with a have r: "(alive_step (\<lambda>_. False))\<^sup>*\<^sup>* ?init ?w'" by (meson converse_rtranclp_into_rtranclp r_into_rtranclp)
  have "\<exists>c. pooled_deref (w_held ?w' ! 0) = Return c"
    using pool_never_panics [OF r, of "w_held ?w' ! 0" "\<lambda>c. ((), c)"] held by blast
  moreover have "snd (do_poll exclusive_ops (\<lambda>_. False) 2 (Ready (Inr ()) :: (unit + unit) poll) (\<lambda>_. Pending) 0 ?w) \<noteq> Panicked"
    using pool_never_panics [OF r_into_rtranclp [where r = "alive_step (\<lambda>_. False)", OF a], of _ _ 0 "Ready (Inr ()) :: (unit + unit) poll" "\<lambda>_. Pending"] j by blast
  ultimately show ?thesis unfolding Let_def by blast
qed

end
