(* ===== verification/Byte_IO.thy ===== *)
theory Byte_IO
  imports Prelude
begin

text \<open>
  Byte streams: the traits \<open>AsyncRead\<close> and \<open>AsyncWrite\<close> (and hyper's \<open>Read\<close> and \<open>Write\<close>) as
  a record of their methods, the contract of a byte stream as the locale \<open>byte_stream\<close>, and
  the streams the sources build out of others: \<open>TokioIo\<close> (bridge/io.rs), \<open>Rewind\<close>
  (rewind.rs), \<open>Braid\<close> (stream/core.rs), \<open>TlsBraid\<close> (stream/tls.rs) and \<open>DuplexStream\<close>
  (stream/duplex.rs).
\<close>

section \<open>The traits\<close>

text \<open>
  \<open>a_read n\<close> is \<open>poll_read\<close> into a buffer with \<open>n\<close> bytes of room: the bytes it appends.
\<close>

record ('s, 'e) aio =
  a_read :: "nat \<Rightarrow> 's \<Rightarrow> ('e + byte list) poll \<times> 's"
  a_write :: "byte list \<Rightarrow> 's \<Rightarrow> ('e + nat) poll \<times> 's"
  a_flush :: "'s \<Rightarrow> ('e + unit) poll \<times> 's"
  a_shutdown :: "'s \<Rightarrow> ('e + unit) poll \<times> 's"
  a_is_vectored :: "'s \<Rightarrow> bool"
  a_write_vectored :: "byte list list \<Rightarrow> 's \<Rightarrow> ('e + nat) poll \<times> 's"

text \<open>The provided method of the trait: the first buffer that is not empty.\<close>

definition default_vectored ::
  "(byte list \<Rightarrow> 's \<Rightarrow> ('e + nat) poll \<times> 's) \<Rightarrow> byte list list \<Rightarrow> 's \<Rightarrow> ('e + nat) poll \<times> 's" where
  "default_vectored write bufs = write (case filter (\<lambda>b. b \<noteq> []) bufs of [] \<Rightarrow> [] | b # _ \<Rightarrow> b)"

text \<open>
  \<open>incoming s\<close> is what the peer has in flight or will send, \<open>outgoing s\<close> what was accepted
  for it. Bytes are read in order, none is lost or made up, and a call that is pending or
  fails moves nothing.
\<close>

definition write_step :: "byte list \<Rightarrow> ('e + nat) poll \<Rightarrow> byte list \<Rightarrow> byte list \<Rightarrow> bool" where
  "write_step bs r before after \<longleftrightarrow>
     (case r of Ready (Inr k) \<Rightarrow> k \<le> length bs \<and> after = before @ take k bs | _ \<Rightarrow> after = before)"

definition read_step :: "nat \<Rightarrow> ('e + byte list) poll \<Rightarrow> byte list \<Rightarrow> byte list \<Rightarrow> bool" where
  "read_step n r before after \<longleftrightarrow>
     (case r of Ready (Inr bs) \<Rightarrow> length bs \<le> n \<and> before = bs @ after | _ \<Rightarrow> after = before)"

locale byte_stream =
  fixes io :: "('s, 'e) aio"
    and incoming :: "'s \<Rightarrow> byte list"
    and outgoing :: "'s \<Rightarrow> byte list"
  assumes read_in: "a_read io n s = (r, s') \<Longrightarrow> read_step n r (incoming s) (incoming s')"
    and read_out: "a_read io n s = (r, s') \<Longrightarrow> outgoing s' = outgoing s"
    and write_out: "a_write io bs s = (q, s') \<Longrightarrow> write_step bs q (outgoing s) (outgoing s')"
    and write_in: "a_write io bs s = (q, s') \<Longrightarrow> incoming s' = incoming s"
    and vectored_out: "a_write_vectored io bufs s = (q, s') \<Longrightarrow>
      write_step (concat bufs) q (outgoing s) (outgoing s')"
    and vectored_in: "a_write_vectored io bufs s = (q, s') \<Longrightarrow> incoming s' = incoming s"
    and flush_keeps: "a_flush io s = (u, s') \<Longrightarrow> incoming s' = incoming s \<and> outgoing s' = outgoing s"
    and shutdown_keeps: "a_shutdown io s = (u, s') \<Longrightarrow> incoming s' = incoming s \<and> outgoing s' = outgoing s"
begin

text \<open>Reading until an error, the end or a pending read: the bytes read are a prefix of the input.\<close>

fun reads :: "nat list \<Rightarrow> 's \<Rightarrow> byte list \<times> 's" where
  "reads [] s = ([], s)"
| "reads (n # ns) s =
     (let (r, s') = a_read io n s; (bs, s'') = reads ns s'
      in (case r of Ready (Inr b) \<Rightarrow> b @ bs | _ \<Rightarrow> bs, s''))"

lemma reads_prefix: "reads ns s = (bs, s') \<Longrightarrow> incoming s = bs @ incoming s'"
proof (induction ns arbitrary: s bs)
  case (Cons n ns)
  obtain r t where rd: "a_read io n s = (r, t)" by fastforce
  obtain cs where rest: "reads ns t = (cs, s')" and bs: "bs = (case r of Ready (Inr b) \<Rightarrow> b @ cs | _ \<Rightarrow> cs)"
    using Cons.prems rd by (auto simp: Let_def split: prod.splits)
  from Cons.IH [OF rest] read_in [OF rd] bs show ?case
    by (auto simp: read_step_def split: poll.splits sum.splits)
qed simp

end

lemma default_vectored_step:
  assumes "\<And>bs q s'. wr bs s = (q, s') \<Longrightarrow> write_step bs q (outgoing s) (outgoing s')"
    and "default_vectored wr bufs s = (q, s')"
  shows "write_step (concat bufs) q (outgoing s) (outgoing s')"
proof (cases "filter (\<lambda>b. b \<noteq> []) bufs")
  case Nil
  then have c: "concat bufs = []" by (auto simp: filter_empty_conv)
  from Nil assms(2) have "wr [] s = (q, s')" by (simp add: default_vectored_def)
  from assms(1) [OF this] show ?thesis unfolding c .
next
  case (Cons b bs)
  have "concat bufs = concat (filter (\<lambda>b. b \<noteq> []) bufs)" by (induction bufs) auto
  with Cons have c: "concat bufs = b @ concat bs" by simp
  from Cons assms(2) have "write_step b q (outgoing s) (outgoing s')"
    by (intro assms(1)) (simp add: default_vectored_def)
  then show ?thesis by (auto simp: write_step_def c split: poll.splits sum.splits)
qed

section \<open>A pipe in memory\<close>

text \<open>
  The behaviour tokio documents for its in-memory pipe, with the arrival of data scripted:
  an empty chunk is a moment without data, no chunk is the end of the stream.
\<close>

record pipe =
  pipe_in :: "byte list list"
  pipe_out :: "byte list"

fun pipe_read :: "nat \<Rightarrow> pipe \<Rightarrow> ('e + byte list) poll \<times> pipe" where
  "pipe_read n p =
     (case pipe_in p of
        [] \<Rightarrow> (Ready (Inr []), p)
      | c # cs \<Rightarrow>
          if c = [] then (Pending, p\<lparr>pipe_in := cs\<rparr>)
          else (Ready (Inr (take n c)),
                p\<lparr>pipe_in := if drop n c = [] then cs else drop n c # cs\<rparr>))"

definition pipe_write :: "byte list \<Rightarrow> pipe \<Rightarrow> ('e + nat) poll \<times> pipe" where
  "pipe_write bs p = (Ready (Inr (length bs)), p\<lparr>pipe_out := pipe_out p @ bs\<rparr>)"

definition pipe_io :: "(pipe, 'e) aio" where
  "pipe_io = \<lparr>a_read = pipe_read, a_write = pipe_write, a_flush = \<lambda>p. (Ready (Inr ()), p),
     a_shutdown = \<lambda>p. (Ready (Inr ()), p), a_is_vectored = \<lambda>_. False,
     a_write_vectored = default_vectored pipe_write\<rparr>"

definition pipe_incoming :: "pipe \<Rightarrow> byte list" where
  "pipe_incoming p = concat (pipe_in p)"

lemma pipe_read_step: "pipe_read n p = (r, p') \<Longrightarrow>
    read_step n r (pipe_incoming p) (pipe_incoming p') \<and> pipe_out p' = pipe_out p"
proof (cases "pipe_in p")
  case (Cons c cs)
  moreover have "c = take n c @ drop n c" by simp
  moreover assume "pipe_read n p = (r, p')"
  ultimately show ?thesis
    by (auto simp: pipe_incoming_def read_step_def split: if_splits)
qed (auto simp: pipe_incoming_def read_step_def)

lemma pipe_write_step: "pipe_write bs p = (q, p') \<Longrightarrow>
    write_step bs q (pipe_out p) (pipe_out p') \<and> pipe_in p' = pipe_in p"
  by (auto simp: pipe_write_def write_step_def)

lemma pipe_vectored_step: "default_vectored pipe_write bufs p = (q, p') \<Longrightarrow>
    write_step (concat bufs) q (pipe_out p) (pipe_out p') \<and> pipe_in p' = pipe_in p"
  using default_vectored_step [where wr = pipe_write and outgoing = pipe_out, of p bufs q p'] pipe_write_step
  by (fastforce simp: default_vectored_def)

lemmas pipe_steps = pipe_read_step pipe_write_step pipe_vectored_step

interpretation pipe: byte_stream pipe_io pipe_incoming pipe_out
  by unfold_locales (auto simp: pipe_io_def pipe_incoming_def simp del: pipe_read.simps dest: pipe_steps)

section \<open>TokioIo (bridge/io.rs)\<close>

text \<open>
  The wrapper in both directions. In \<open>AsyncRead for TokioIo\<close> the caller's buffer already
  holds \<open>filled\<close> bytes: \<open>tokio_fill\<close> is the arithmetic on it, the buffer's filled part and the
  number of bytes marked initialised.
\<close>

datatype 's tokio_io = TokioIo (into_inner: 's)

fun wrap_tokio :: "('r \<times> 's) \<Rightarrow> 'r \<times> 's tokio_io" where
  "wrap_tokio (r, s) = (r, TokioIo s)"

definition tokio_poll_read :: "('s, 'e) aio \<Rightarrow> nat \<Rightarrow> 's tokio_io \<Rightarrow> ('e + byte list) poll \<times> 's tokio_io" where
  "tokio_poll_read io n t = wrap_tokio (a_read io n (into_inner t))"

definition tokio_fill ::
  "('s, 'e) aio \<Rightarrow> nat \<Rightarrow> byte list \<Rightarrow> 's tokio_io \<Rightarrow> ('e + byte list \<times> nat) poll \<times> 's tokio_io" where
  "tokio_fill io capacity filled t =
     (case a_read io (capacity - length filled) (into_inner t) of
        (Ready (Inr sub_filled), s') \<Rightarrow>
          (Ready (Inr (filled @ sub_filled, length sub_filled)), TokioIo s')
      | (Ready (Inl e), s') \<Rightarrow> (Ready (Inl e), TokioIo s')
      | (Pending, s') \<Rightarrow> (Pending, TokioIo s')
      | (Panicked, s') \<Rightarrow> (Panicked, TokioIo s'))"

definition tokio_io :: "('s, 'e) aio \<Rightarrow> ('s tokio_io, 'e) aio" where
  "tokio_io io = \<lparr>a_read = tokio_poll_read io,
     a_write = \<lambda>bs t. wrap_tokio (a_write io bs (into_inner t)),
     a_flush = \<lambda>t. wrap_tokio (a_flush io (into_inner t)),
     a_shutdown = \<lambda>t. wrap_tokio (a_shutdown io (into_inner t)),
     a_is_vectored = \<lambda>t. a_is_vectored io (into_inner t),
     a_write_vectored = \<lambda>bufs t. wrap_tokio (a_write_vectored io bufs (into_inner t))\<rparr>"

lemma wrap_tokio_eq [simp]: "wrap_tokio x = (r, t) \<longleftrightarrow> x = (r, into_inner t)"
  by (cases x; cases t) auto

lemma tokio_byte_stream:
  assumes "byte_stream io incoming outgoing"
  shows "byte_stream (tokio_io io) (incoming \<circ> into_inner) (outgoing \<circ> into_inner)"
  using assms by (auto simp: byte_stream_def tokio_io_def tokio_poll_read_def)

section \<open>Rewind (rewind.rs)\<close>

record 's rewind =
  rw_inner :: 's
  rw_prefix :: "byte list option"

definition rewind_new :: "'s \<Rightarrow> byte list \<Rightarrow> 's rewind" where
  "rewind_new s prefix = \<lparr>rw_inner = s, rw_prefix = Some prefix\<rparr>"

definition rewind_read ::
  "('s, 'e) aio \<Rightarrow> nat \<Rightarrow> 's rewind \<Rightarrow> ('e + byte list) poll \<times> 's rewind" where
  "rewind_read io remaining rw =
     (case rw_prefix rw of
        Some prefix \<Rightarrow>
          if prefix \<noteq> []
          then (let n = min (length prefix) remaining; prefix' = drop n prefix
                in (Ready (Inr (take n prefix)),
                    rw\<lparr>rw_prefix := if prefix' \<noteq> [] then Some prefix' else None\<rparr>))
          else (let (r, s') = a_read io remaining (rw_inner rw)
                in (r, \<lparr>rw_inner = s', rw_prefix = None\<rparr>))
      | None \<Rightarrow>
          (let (r, s') = a_read io remaining (rw_inner rw)
           in (r, \<lparr>rw_inner = s', rw_prefix = None\<rparr>)))"

definition rewind_lift :: "('s \<Rightarrow> 'r \<times> 's) \<Rightarrow> 's rewind \<Rightarrow> 'r \<times> 's rewind" where
  "rewind_lift f rw = (let (r, s') = f (rw_inner rw) in (r, rw\<lparr>rw_inner := s'\<rparr>))"

definition rewind_io :: "('s, 'e) aio \<Rightarrow> ('s rewind, 'e) aio" where
  "rewind_io io = \<lparr>a_read = rewind_read io,
     a_write = \<lambda>bs. rewind_lift (a_write io bs),
     a_flush = rewind_lift (a_flush io),
     a_shutdown = rewind_lift (a_shutdown io),
     a_is_vectored = \<lambda>rw. a_is_vectored io (rw_inner rw),
     a_write_vectored = \<lambda>bufs. rewind_lift (a_write_vectored io bufs)\<rparr>"

definition rewind_incoming :: "('s \<Rightarrow> byte list) \<Rightarrow> 's rewind \<Rightarrow> byte list" where
  "rewind_incoming incoming rw = (case rw_prefix rw of None \<Rightarrow> [] | Some p \<Rightarrow> p) @ incoming (rw_inner rw)"

lemma rewind_lift_eq [simp]:
  "rewind_lift f rw = (r, rw') \<longleftrightarrow> (\<exists>s'. f (rw_inner rw) = (r, s') \<and> rw' = rw\<lparr>rw_inner := s'\<rparr>)"
  by (auto simp: rewind_lift_def split: prod.splits)

lemma rewind_read_step:
  assumes "byte_stream io incoming outgoing" and "rewind_read io n rw = (r, rw')"
  shows "read_step n r (rewind_incoming incoming rw) (rewind_incoming incoming rw') \<and>
    outgoing (rw_inner rw') = outgoing (rw_inner rw)"
proof (cases "rw_prefix rw = None \<or> rw_prefix rw = Some []")
  case True
  with assms(2) obtain s' where rd: "a_read io n (rw_inner rw) = (r, s')"
    and rw': "rw' = \<lparr>rw_inner = s', rw_prefix = None\<rparr>"
    by (auto simp: rewind_read_def split: prod.splits)
  from byte_stream.read_in [OF assms(1) rd] byte_stream.read_out [OF assms(1) rd] True rw'
  show ?thesis by (auto simp: rewind_incoming_def)
next
  case False
  then obtain p where p: "rw_prefix rw = Some p" "p \<noteq> []" by auto
  define k where "k = min (length p) n"
  from p assms(2) have "r = Ready (Inr (take k p))"
    and "rw' = rw\<lparr>rw_prefix := if drop k p \<noteq> [] then Some (drop k p) else None\<rparr>"
    by (auto simp: rewind_read_def Let_def k_def)
  with p show ?thesis
    by (auto simp: rewind_incoming_def read_step_def k_def)
qed

lemma rewind_byte_stream:
  assumes "byte_stream io incoming outgoing"
  shows "byte_stream (rewind_io io) (rewind_incoming incoming) (outgoing \<circ> rw_inner)"
  using rewind_read_step [OF assms] assms
  by (auto simp: byte_stream_def rewind_io_def rewind_incoming_def)

section \<open>Braid (stream/core.rs)\<close>

datatype ('t, 'd, 'u) braid = Braid_Tcp 't | Braid_Duplex 'd | Braid_Unix 'u

fun dispatch_core ::
  "('t \<Rightarrow> 'r \<times> 't) \<Rightarrow> ('d \<Rightarrow> 'r \<times> 'd) \<Rightarrow> ('u \<Rightarrow> 'r \<times> 'u) \<Rightarrow> ('t, 'd, 'u) braid \<Rightarrow> 'r \<times> ('t, 'd, 'u) braid" where
  "dispatch_core f g h (Braid_Tcp stream) = (let (r, s) = f stream in (r, Braid_Tcp s))"
| "dispatch_core f g h (Braid_Duplex stream) = (let (r, s) = g stream in (r, Braid_Duplex s))"
| "dispatch_core f g h (Braid_Unix stream) = (let (r, s) = h stream in (r, Braid_Unix s))"

definition braid_read ::
  "('t, 'e) aio \<Rightarrow> ('d, 'e) aio \<Rightarrow> ('u, 'e) aio \<Rightarrow> nat \<Rightarrow> ('t, 'd, 'u) braid
     \<Rightarrow> ('e + byte list) poll \<times> ('t, 'd, 'u) braid" where
  "braid_read tcp dup unix n = dispatch_core (a_read tcp n) (a_read dup n) (a_read unix n)"

definition braid_write ::
  "('t, 'e) aio \<Rightarrow> ('d, 'e) aio \<Rightarrow> ('u, 'e) aio \<Rightarrow> byte list \<Rightarrow> ('t, 'd, 'u) braid
     \<Rightarrow> ('e + nat) poll \<times> ('t, 'd, 'u) braid" where
  "braid_write tcp dup unix bs = dispatch_core (a_write tcp bs) (a_write dup bs) (a_write unix bs)"

definition braid_io ::
  "('t, 'e) aio \<Rightarrow> ('d, 'e) aio \<Rightarrow> ('u, 'e) aio \<Rightarrow> (('t, 'd, 'u) braid, 'e) aio" where
  "braid_io tcp dup unix = \<lparr>a_read = braid_read tcp dup unix,
     a_write = braid_write tcp dup unix,
     a_flush = dispatch_core (a_flush tcp) (a_flush dup) (a_flush unix),
     a_shutdown = dispatch_core (a_shutdown tcp) (a_shutdown dup) (a_shutdown unix),
     a_is_vectored = \<lambda>_. False,
     a_write_vectored = default_vectored (braid_write tcp dup unix)\<rparr>"

definition on_braid :: "('t \<Rightarrow> 'a) \<Rightarrow> ('d \<Rightarrow> 'a) \<Rightarrow> ('u \<Rightarrow> 'a) \<Rightarrow> ('t, 'd, 'u) braid \<Rightarrow> 'a" where
  "on_braid f g h b = (case b of Braid_Tcp s \<Rightarrow> f s | Braid_Duplex s \<Rightarrow> g s | Braid_Unix s \<Rightarrow> h s)"

lemma on_braid_simps [simp]:
  "on_braid f g h (Braid_Tcp s) = f s" "on_braid f g h (Braid_Duplex d) = g d" "on_braid f g h (Braid_Unix u) = h u"
  by (simp_all add: on_braid_def)

text \<open>The contract without the vectored write, for streams that use the provided one.\<close>

lemma byte_stream_default:
  assumes "a_write_vectored io = default_vectored (a_write io)"
    and "\<And>n s r s'. a_read io n s = (r, s') \<Longrightarrow>
      read_step n r (incoming s) (incoming s') \<and> outgoing s' = outgoing s"
    and "\<And>bs s q s'. a_write io bs s = (q, s') \<Longrightarrow>
      write_step bs q (outgoing s) (outgoing s') \<and> incoming s' = incoming s"
    and "\<And>s u s'. a_flush io s = (u, s') \<Longrightarrow> incoming s' = incoming s \<and> outgoing s' = outgoing s"
    and "\<And>s u s'. a_shutdown io s = (u, s') \<Longrightarrow> incoming s' = incoming s \<and> outgoing s' = outgoing s"
  shows "byte_stream io incoming outgoing"
proof
  fix bufs s q s'
  assume v: "a_write_vectored io bufs s = (q, s')"
  then have d: "default_vectored (a_write io) bufs s = (q, s')" by (simp add: assms(1))
  show "write_step (concat bufs) q (outgoing s) (outgoing s')"
    by (rule default_vectored_step [OF _ d]) (use assms(3) in blast)
  from d show "incoming s' = incoming s" using assms(3) unfolding default_vectored_def by blast
qed (use assms in blast)+

lemma braid_byte_stream:
  assumes "byte_stream tcp i x" and "byte_stream dup i' x'" and "byte_stream unix i'' x''"
  shows "byte_stream (braid_io tcp dup unix) (on_braid i i' i'') (on_braid x x' x'')"
proof (rule byte_stream_default)
  show "read_step n r (on_braid i i' i'' b) (on_braid i i' i'' b') \<and> on_braid x x' x'' b' = on_braid x x' x'' b"
    if "a_read (braid_io tcp dup unix) n b = (r, b')" for n b r b'
    using that byte_stream.read_in [OF assms(1)] byte_stream.read_in [OF assms(2)] byte_stream.read_in [OF assms(3)]
      byte_stream.read_out [OF assms(1)] byte_stream.read_out [OF assms(2)] byte_stream.read_out [OF assms(3)]
    by (cases b) (auto simp: braid_io_def braid_read_def split: prod.splits)
  show "write_step bs q (on_braid x x' x'' b) (on_braid x x' x'' b') \<and> on_braid i i' i'' b' = on_braid i i' i'' b"
    if "a_write (braid_io tcp dup unix) bs b = (q, b')" for bs b q b'
    using that byte_stream.write_in [OF assms(1)] byte_stream.write_in [OF assms(2)] byte_stream.write_in [OF assms(3)]
      byte_stream.write_out [OF assms(1)] byte_stream.write_out [OF assms(2)] byte_stream.write_out [OF assms(3)]
    by (cases b) (auto simp: braid_io_def braid_write_def split: prod.splits)
  show "on_braid i i' i'' b' = on_braid i i' i'' b \<and> on_braid x x' x'' b' = on_braid x x' x'' b"
    if "a_flush (braid_io tcp dup unix) b = (u, b')" for b u b'
    using that byte_stream.flush_keeps [OF assms(1)] byte_stream.flush_keeps [OF assms(2)] byte_stream.flush_keeps [OF assms(3)]
    by (cases b) (auto simp: braid_io_def split: prod.splits)
  show "on_braid i i' i'' b' = on_braid i i' i'' b \<and> on_braid x x' x'' b' = on_braid x x' x'' b"
    if "a_shutdown (braid_io tcp dup unix) b = (u, b')" for b u b'
    using that byte_stream.shutdown_keeps [OF assms(1)] byte_stream.shutdown_keeps [OF assms(2)]
      byte_stream.shutdown_keeps [OF assms(3)]
    by (cases b) (auto simp: braid_io_def split: prod.splits)
qed (simp add: braid_io_def)

section \<open>TlsBraid (stream/tls.rs)\<close>

datatype ('s, 'n) tls_braid = NoTls 'n | Tls 's

fun dispatch :: "('s \<Rightarrow> 'r \<times> 's) \<Rightarrow> ('n \<Rightarrow> 'r \<times> 'n) \<Rightarrow> ('s, 'n) tls_braid \<Rightarrow> 'r \<times> ('s, 'n) tls_braid" where
  "dispatch f g (NoTls stream) = (let (r, s) = g stream in (r, NoTls s))"
| "dispatch f g (Tls stream) = (let (r, s) = f stream in (r, Tls s))"

definition tls_braid_io :: "('s, 'e) aio \<Rightarrow> ('n, 'e) aio \<Rightarrow> (('s, 'n) tls_braid, 'e) aio" where
  "tls_braid_io tls plain = \<lparr>
     a_read = \<lambda>n. dispatch (a_read tls n) (a_read plain n),
     a_write = \<lambda>bs. dispatch (a_write tls bs) (a_write plain bs),
     a_flush = dispatch (a_flush tls) (a_flush plain),
     a_shutdown = dispatch (a_shutdown tls) (a_shutdown plain),
     a_is_vectored = \<lambda>_. False,
     a_write_vectored = default_vectored (\<lambda>bs. dispatch (a_write tls bs) (a_write plain bs))\<rparr>"

fun tls_braid_handshake :: "('s \<Rightarrow> ('e + unit) poll \<times> 's) \<Rightarrow> ('s, 'n) tls_braid \<Rightarrow> ('e + unit) poll \<times> ('s, 'n) tls_braid" where
  "tls_braid_handshake poll_handshake (NoTls s) = (Ready (Inr ()), NoTls s)"
| "tls_braid_handshake poll_handshake (Tls stream) = (let (r, s) = poll_handshake stream in (r, Tls s))"

definition on_tls :: "('s \<Rightarrow> 'a) \<Rightarrow> ('n \<Rightarrow> 'a) \<Rightarrow> ('s, 'n) tls_braid \<Rightarrow> 'a" where
  "on_tls f g b = (case b of NoTls s \<Rightarrow> g s | Tls s \<Rightarrow> f s)"

lemma tls_braid_byte_stream:
  assumes "byte_stream tls i x" and "byte_stream plain i' x'"
  shows "byte_stream (tls_braid_io tls plain) (on_tls i i') (on_tls x x')"
proof (rule byte_stream_default)
  show "read_step n r (on_tls i i' b) (on_tls i i' b') \<and> on_tls x x' b' = on_tls x x' b"
    if "a_read (tls_braid_io tls plain) n b = (r, b')" for n b r b'
    using that byte_stream.read_in [OF assms(1)] byte_stream.read_in [OF assms(2)]
      byte_stream.read_out [OF assms(1)] byte_stream.read_out [OF assms(2)]
    by (cases b) (auto simp: tls_braid_io_def on_tls_def split: prod.splits)
  show "write_step bs q (on_tls x x' b) (on_tls x x' b') \<and> on_tls i i' b' = on_tls i i' b"
    if "a_write (tls_braid_io tls plain) bs b = (q, b')" for bs b q b'
    using that byte_stream.write_in [OF assms(1)] byte_stream.write_in [OF assms(2)]
      byte_stream.write_out [OF assms(1)] byte_stream.write_out [OF assms(2)]
    by (cases b) (auto simp: tls_braid_io_def on_tls_def split: prod.splits)
  show "on_tls i i' b' = on_tls i i' b \<and> on_tls x x' b' = on_tls x x' b"
    if "a_flush (tls_braid_io tls plain) b = (u, b')" for b u b'
    using that byte_stream.flush_keeps [OF assms(1)] byte_stream.flush_keeps [OF assms(2)]
    by (cases b) (auto simp: tls_braid_io_def on_tls_def split: prod.splits)
  show "on_tls i i' b' = on_tls i i' b \<and> on_tls x x' b' = on_tls x x' b"
    if "a_shutdown (tls_braid_io tls plain) b = (u, b')" for b u b'
    using that byte_stream.shutdown_keeps [OF assms(1)] byte_stream.shutdown_keeps [OF assms(2)]
    by (cases b) (auto simp: tls_braid_io_def on_tls_def split: prod.splits)
qed (simp add: tls_braid_io_def fun_eq_iff)

end
