(* ===== verification/Info.thy ===== *)
theory Info
  imports Poolable
begin

text \<open>
  What a connection knows about itself: protocols, addresses and \<open>ConnectionInfo\<close>
  (info/mod.rs), and the TLS information with the channel that publishes it once the
  handshake is done (info/tls.rs). The answers of the operating system and of rustls are
  parameters.
\<close>

section \<open>Protocols\<close>

datatype protocol = Http version | Grpc | WebSocket | Other string

text \<open>\<open>Debug\<close> of \<open>http::Version\<close>.\<close>

fun version_debug :: "version \<Rightarrow> string" where
  "version_debug HTTP_09 = ''HTTP/0.9''"
| "version_debug HTTP_10 = ''HTTP/1.0''"
| "version_debug HTTP_11 = ''HTTP/1.1''"
| "version_debug HTTP_2 = ''HTTP/2.0''"
| "version_debug HTTP_3 = ''HTTP/3.0''"

fun protocol_display :: "protocol \<Rightarrow> string" where
  "protocol_display (Http v) = version_debug v"
| "protocol_display Grpc = ''gRPC''"
| "protocol_display WebSocket = ''WebSocket''"
| "protocol_display (Other s) = s"

definition protocol_from_str :: "string \<Rightarrow> protocol" where
  "protocol_from_str s =
     (if s = ''http/0.9'' then Http HTTP_09
      else if s = ''http/1.0'' then Http HTTP_10
      else if s = ''http/1.1'' then Http HTTP_11
      else if s = ''h2'' then Http HTTP_2
      else if s = ''h3'' then Http HTTP_3
      else if s = ''gRPC'' then Grpc
      else if s = ''WebSocket'' then WebSocket
      else Other s)"

section \<open>Addresses\<close>

text \<open>An IPv6 socket address carries flow information and a scope besides the port.\<close>

datatype ip_addr = V4 "32 word" | V6 "128 word"

datatype socket_addr = SocketV4 "32 word" u16 | SocketV6 "128 word" u16 u32 u32

fun addr_ip :: "socket_addr \<Rightarrow> ip_addr" where
  "addr_ip (SocketV4 a p) = V4 a"
| "addr_ip (SocketV6 a p fl sc) = V6 a"

fun addr_port :: "socket_addr \<Rightarrow> u16" where
  "addr_port (SocketV4 a p) = p"
| "addr_port (SocketV6 a p fl sc) = p"

fun socket_addr_new :: "ip_addr \<Rightarrow> u16 \<Rightarrow> socket_addr" where
  "socket_addr_new (V4 a) p = SocketV4 a p"
| "socket_addr_new (V6 a) p = SocketV6 a p 0 0"

text \<open>\<open>Ipv6Addr::to_ipv4_mapped\<close>: the addresses \<open>::ffff:a.b.c.d\<close>.\<close>

definition to_ipv4_mapped :: "128 word \<Rightarrow> 32 word option" where
  "to_ipv4_mapped a = (if drop_bit 32 a = 0xFFFF then Some (ucast a) else None)"

definition ipv4_to_mapped :: "32 word \<Rightarrow> 128 word" where
  "ipv4_to_mapped a = or (push_bit 32 0xFFFF) (ucast a)"

definition make_canonical :: "socket_addr \<Rightarrow> socket_addr" where
  "make_canonical addr =
     (case addr_ip addr of
        V4 _ \<Rightarrow> addr
      | V6 ip \<Rightarrow>
          (case to_ipv4_mapped ip of
             Some ip4 \<Rightarrow> socket_addr_new (V4 ip4) (addr_port addr)
           | None \<Rightarrow> addr))"

datatype unix_addr = UnixAddr (unix_path: "string option")

definition unix_is_named :: "unix_addr \<Rightarrow> bool" where
  "unix_is_named a = (unix_path a \<noteq> None)"

definition unix_from_pathbuf :: "string \<Rightarrow> unix_addr" where
  "unix_from_pathbuf path = UnixAddr (Some path)"

definition unix_unnamed :: unix_addr where
  "unix_unnamed = UnixAddr None"

definition unix_display :: "unix_addr \<Rightarrow> string" where
  "unix_display a = (case unix_path a of Some path \<Rightarrow> ''unix://'' @ path | None \<Rightarrow> ''unix://'')"

text \<open>
  A socket address of the system has a path of bytes, or none; \<open>utf8\<close> decodes it.
\<close>

definition unix_try_from :: "(byte list \<Rightarrow> string option) \<Rightarrow> byte list option \<Rightarrow> io_kind + unix_addr" where
  "unix_try_from utf8 pathname =
     (case pathname of
        None \<Rightarrow> Inr (UnixAddr None)
      | Some p \<Rightarrow> (case utf8 p of None \<Rightarrow> Inl InvalidData | Some path \<Rightarrow> Inr (UnixAddr (Some path))))"

definition tokio_unix_try_from :: "(byte list \<Rightarrow> string option) \<Rightarrow> byte list option \<Rightarrow> io_kind + unix_addr" where
  "tokio_unix_try_from utf8 pathname =
     (case pathname of
        None \<Rightarrow> Inr (UnixAddr None)
      | Some p \<Rightarrow> (case utf8 p of None \<Rightarrow> Inl InvalidData | Some path \<Rightarrow> Inr (UnixAddr (Some path))))"

datatype braid_addr = Addr_Tcp socket_addr | Addr_Duplex | Addr_Unix unix_addr

definition braid_addr_display :: "(socket_addr \<Rightarrow> string) \<Rightarrow> braid_addr \<Rightarrow> string" where
  "braid_addr_display show_addr a =
     (case a of Addr_Tcp s \<Rightarrow> show_addr s | Addr_Duplex \<Rightarrow> ''<duplex>'' | Addr_Unix u \<Rightarrow> unix_display u)"

fun braid_addr_tcp :: "braid_addr \<Rightarrow> socket_addr option" where
  "braid_addr_tcp (Addr_Tcp a) = Some a"
| "braid_addr_tcp _ = None"

fun braid_addr_path :: "braid_addr \<Rightarrow> string option" where
  "braid_addr_path (Addr_Unix a) = unix_path a"
| "braid_addr_path _ = None"

fun braid_addr_canonical :: "braid_addr \<Rightarrow> braid_addr" where
  "braid_addr_canonical (Addr_Tcp a) = Addr_Tcp (make_canonical a)"
| "braid_addr_canonical a = a"

definition braid_addr_from_socket :: "socket_addr \<Rightarrow> braid_addr" where
  "braid_addr_from_socket a = Addr_Tcp (make_canonical a)"

definition braid_addr_from_tokio_unix :: "(byte list \<Rightarrow> string option) \<Rightarrow> byte list option \<Rightarrow> io_kind + braid_addr" where
  "braid_addr_from_tokio_unix utf8 addr = result_bind (tokio_unix_try_from utf8 addr) (\<lambda>u. Inr (Addr_Unix u))"

definition braid_addr_from_ip :: "ip_addr \<times> u16 \<Rightarrow> braid_addr" where
  "braid_addr_from_ip a = Addr_Tcp (socket_addr_new (fst a) (snd a))"

definition braid_addr_from_ipv4 :: "32 word \<times> u16 \<Rightarrow> braid_addr" where
  "braid_addr_from_ipv4 a = Addr_Tcp (socket_addr_new (V4 (fst a)) (snd a))"

definition braid_addr_from_ipv6 :: "128 word \<times> u16 \<Rightarrow> braid_addr" where
  "braid_addr_from_ipv6 a = Addr_Tcp (socket_addr_new (V6 (fst a)) (snd a))"

definition braid_addr_from_path :: "string \<Rightarrow> braid_addr" where
  "braid_addr_from_path p = Addr_Unix (unix_from_pathbuf p)"

definition braid_addr_from_unix :: "unix_addr \<Rightarrow> braid_addr" where
  "braid_addr_from_unix a = Addr_Unix a"

definition braid_addr_from_duplex :: "unit \<Rightarrow> braid_addr" where
  "braid_addr_from_duplex _ = Addr_Duplex"

section \<open>Connection information\<close>

record 'a connection_info =
  local_addr :: 'a
  remote_addr :: 'a
  buffer_size :: "usize option"

definition info_default :: "'a \<Rightarrow> 'a connection_info" where
  "info_default d = \<lparr>local_addr = d, remote_addr = d, buffer_size = None\<rparr>"

definition info_duplex :: "usize \<Rightarrow> braid_addr connection_info" where
  "info_duplex max_size = \<lparr>local_addr = Addr_Duplex, remote_addr = Addr_Duplex, buffer_size = Some max_size\<rparr>"

definition info_map :: "('a \<Rightarrow> 'b) \<Rightarrow> 'a connection_info \<Rightarrow> 'b connection_info" where
  "info_map f i = \<lparr>local_addr = f (local_addr i), remote_addr = f (remote_addr i), buffer_size = buffer_size i\<rparr>"

definition tcp_info_try ::
  "(socket_addr \<Rightarrow> 'a) \<Rightarrow> io_kind + socket_addr \<Rightarrow> io_kind + socket_addr \<Rightarrow> io_kind + 'a connection_info" where
  "tcp_info_try into local peer =
     result_bind local (\<lambda>laddr. result_bind peer (\<lambda>raddr.
       Inr \<lparr>local_addr = into laddr, remote_addr = into raddr, buffer_size = None\<rparr>))"

definition unix_side :: "(byte list \<Rightarrow> string option) \<Rightarrow> io_kind + byte list option \<Rightarrow> (io_kind + unix_addr) run" where
  "unix_side utf8 r =
     (case r of
        Inr addr \<Rightarrow> (case expect (tokio_unix_try_from utf8 addr) of Return a \<Rightarrow> Return (Inr a) | Panic \<Rightarrow> Panic)
      | Inl e \<Rightarrow> if e = InvalidInput then Return (Inr unix_unnamed) else Return (Inl e))"

definition unix_info_try ::
  "(byte list \<Rightarrow> string option) \<Rightarrow> (unix_addr \<Rightarrow> 'a) \<Rightarrow> io_kind + byte list option \<Rightarrow> io_kind + byte list option
     \<Rightarrow> (io_kind + 'a connection_info) run" where
  "unix_info_try utf8 into local peer =
     (case unix_side utf8 local of
        Panic \<Rightarrow> Panic
      | Return (Inl e) \<Rightarrow> Return (Inl e)
      | Return (Inr laddr) \<Rightarrow>
          (case unix_side utf8 peer of
             Panic \<Rightarrow> Panic
           | Return (Inl e) \<Rightarrow> Return (Inl e)
           | Return (Inr raddr) \<Rightarrow>
               Return (Inr \<lparr>local_addr = into laddr, remote_addr = into raddr, buffer_size = None\<rparr>)))"

text \<open>\<open>HasConnectionInfo\<close> for the sockets of the runtime.\<close>

definition tcp_info :: "io_kind + socket_addr \<Rightarrow> io_kind + socket_addr \<Rightarrow> socket_addr connection_info run" where
  "tcp_info local peer = expect (tcp_info_try id local peer)"

definition unix_info ::
  "(byte list \<Rightarrow> string option) \<Rightarrow> io_kind + byte list option \<Rightarrow> io_kind + byte list option
     \<Rightarrow> unix_addr connection_info run" where
  "unix_info utf8 local peer =
     run_bind (expect local) (\<lambda>l. run_bind (expect (tokio_unix_try_from utf8 l)) (\<lambda>laddr.
       run_bind (expect peer) (\<lambda>p. run_bind (expect (tokio_unix_try_from utf8 p)) (\<lambda>raddr.
         Return ((info_default unix_unnamed)\<lparr>local_addr := laddr, remote_addr := raddr\<rparr>)))))"

section \<open>TLS information\<close>

record tls_info =
  server_name :: "string option"
  validated_server_name :: bool
  alpn :: "protocol option"

text \<open>The ALPN bytes rustls reports, decoded and parsed; the name of the server, if any.\<close>

definition alpn_of :: "(byte list \<Rightarrow> string option) \<Rightarrow> byte list option \<Rightarrow> protocol option" where
  "alpn_of utf8 proto = map_option protocol_from_str (Option.bind proto utf8)"

definition tls_info_server :: "(byte list \<Rightarrow> string option) \<Rightarrow> string option \<Rightarrow> byte list option \<Rightarrow> tls_info" where
  "tls_info_server utf8 name proto =
     \<lparr>server_name = (case name of None \<Rightarrow> None | Some s \<Rightarrow> if s \<noteq> [] then Some s else None),
      validated_server_name = False, alpn = alpn_of utf8 proto\<rparr>"

definition tls_info_client :: "(byte list \<Rightarrow> string option) \<Rightarrow> byte list option \<Rightarrow> tls_info" where
  "tls_info_client utf8 proto =
     \<lparr>server_name = None, validated_server_name = False, alpn = alpn_of utf8 proto\<rparr>"

definition tls_info_validated :: "tls_info \<Rightarrow> tls_info" where
  "tls_info_validated i = i\<lparr>validated_server_name := True\<rparr>"

text \<open>
  The channel: all clones of a receiver share one state behind a lock. The sender is
  present until it has sent.
\<close>

datatype tls_rx_state = Tls_Pending | Tls_Received tls_info | Tls_Empty

record tls_channel =
  tc_cell :: "tls_info cell"
  tc_tx :: bool
  tc_rx :: tls_rx_state

definition tls_channel_new :: tls_channel where
  "tls_channel_new = \<lparr>tc_cell = Empty, tc_tx = True, tc_rx = Tls_Pending\<rparr>"

definition tls_channel_empty :: tls_channel where
  "tls_channel_empty = \<lparr>tc_cell = Taken, tc_tx = False, tc_rx = Tls_Empty\<rparr>"

definition tls_send :: "tls_info \<Rightarrow> tls_channel \<Rightarrow> tls_channel" where
  "tls_send i ch =
     (if tc_tx ch
      then ch\<lparr>tc_tx := False, tc_cell := (if tc_cell ch = Empty then Full i else tc_cell ch)\<rparr>
      else ch)"

text \<open>Dropping the sender with its stream.\<close>

definition tls_close :: "tls_channel \<Rightarrow> tls_channel" where
  "tls_close ch = (if tc_tx ch then ch\<lparr>tc_tx := False, tc_cell := tx_drop (tc_cell ch)\<rparr> else ch)"

text \<open>A poll of \<open>recv\<close> by a caller that gets the lock.\<close>

definition tls_recv :: "tls_channel \<Rightarrow> tls_info option poll \<times> tls_channel" where
  "tls_recv ch =
     (case tc_rx ch of
        Tls_Received i \<Rightarrow> (Ready (Some i), ch)
      | Tls_Empty \<Rightarrow> (Ready None, ch)
      | Tls_Pending \<Rightarrow>
          (let (r, cell) = rx_poll (tc_cell ch); ch' = ch\<lparr>tc_cell := cell\<rparr>
           in case r of
                Pending \<Rightarrow> (Pending, ch')
              | Panicked \<Rightarrow> (Panicked, ch')
              | Ready (Inl _) \<Rightarrow> (Panicked, ch')
              | Ready (Inr tls) \<Rightarrow> (Ready (Some tls), ch'\<lparr>tc_rx := Tls_Received tls\<rparr>)))"

section \<open>Properties\<close>

lemma drop_mapped: "drop_bit 32 (ipv4_to_mapped a) = 0xFFFF"
  unfolding ipv4_to_mapped_def
proof (rule bit_word_eqI)
  fix n assume "n < LENGTH(128)"
  have "\<not> bit a (32 + n)" using bit_imp_le_length [of a "32 + n"] by fastforce
  then show "bit (drop_bit 32 (or (push_bit 32 0xFFFF) (ucast a :: 128 word))) n = bit (0xFFFF :: 128 word) n"
    using \<open>n < LENGTH(128)\<close> by (auto simp: bit_simps)
qed

lemma ucast_or_push: "ucast (or (push_bit 32 (M :: 128 word)) (ucast (a :: 32 word))) = a"
  by (rule bit_word_eqI) (auto simp: bit_simps)

lemma ucast_mapped: "ucast (ipv4_to_mapped a) = a"
  unfolding ipv4_to_mapped_def by (rule ucast_or_push)

text \<open>\<open>make_canonical\<close> turns every IPv4-mapped IPv6 address into the IPv4 address it
  wraps and nothing else: the port is kept, other addresses are unchanged, and a canonical
  address is a fixed point.\<close>

theorem make_canonical_correct:
  "make_canonical (SocketV6 (ipv4_to_mapped a) p fl sc) = SocketV4 a p \<and>
   (drop_bit 32 b \<noteq> 0xFFFF \<longrightarrow> make_canonical (SocketV6 b p fl sc) = SocketV6 b p fl sc) \<and>
   make_canonical (SocketV4 a p) = SocketV4 a p \<and>
   make_canonical (make_canonical s) = make_canonical s"
  by (cases s) (auto simp: make_canonical_def to_ipv4_mapped_def drop_mapped ucast_mapped)

theorem make_canonical_correct_witness:
  "make_canonical (SocketV6 1 80 0 0) = SocketV6 1 80 0 0"
  using make_canonical_correct [of 0 80 0 0 1] by simp

text \<open>Parsing what \<open>Display\<close> prints gives a protocol back exactly when it is not an HTTP
  version: \<open>FromStr for Protocol\<close> reads ALPN names, \<open>Display\<close> prints \<open>HTTP/1.1\<close>.\<close>

theorem protocol_display_parse:
  "protocol_from_str (protocol_display p) = p \<longleftrightarrow>
    (case p of Http v \<Rightarrow> False | Grpc \<Rightarrow> True | WebSocket \<Rightarrow> True
     | Other s \<Rightarrow> s \<notin> {''http/0.9'', ''http/1.0'', ''http/1.1'', ''h2'', ''h3'', ''gRPC'', ''WebSocket''})"
proof (cases p)
  case (Http v)
  then show ?thesis by (cases v) (simp_all add: protocol_from_str_def)
qed (auto simp: protocol_from_str_def)

text \<open>TLS information is published once and for all: after the handshake has sent it,
  every receiver, polled any number of times, answers that information; a second send has no
  effect.\<close>

theorem tls_info_stable:
  "((\<lambda>ch. snd (tls_recv ch)) ^^ k) (tls_send j (tls_send i tls_channel_new)) = ch \<Longrightarrow>
   fst (tls_recv ch) = Ready (Some i)"
proof -
  let ?f = "\<lambda>ch. snd (tls_recv ch)"
  have "(?f ^^ k) (tls_send j (tls_send i tls_channel_new)) = \<lparr>tc_cell = Full i, tc_tx = False, tc_rx = Tls_Pending\<rparr> \<or>
    (?f ^^ k) (tls_send j (tls_send i tls_channel_new)) = \<lparr>tc_cell = Taken, tc_tx = False, tc_rx = Tls_Received i\<rparr>"
    by (induction k) (auto simp: tls_send_def tls_channel_new_def tls_recv_def)
  moreover assume "(?f ^^ k) (tls_send j (tls_send i tls_channel_new)) = ch"
  ultimately show ?thesis by (auto simp: tls_recv_def)
qed

theorem tls_info_stable_witness:
  "let i = tls_info_client (\<lambda>_. Some ''h2'') (Some [104, 50])
   in fst (tls_recv (snd (tls_recv (tls_send i (tls_send i tls_channel_new))))) = Ready (Some i)"
  unfolding Let_def by (rule tls_info_stable [where k = 1]) simp

end
