(* ===== verification/Tls_Stream.thy ===== *)
theory Tls_Stream
  imports Byte_IO Info
begin

text \<open>
  TLS streams with a delayed handshake, on both sides: \<open>client/conn/stream/tls.rs\<close> and
  \<open>server/conn/tls/mod.rs\<close>, and the streams that add TLS to another stream or not:
  \<open>client/conn/stream/mod.rs\<close>, \<open>server/conn/stream.rs\<close>. tokio_rustls is a parameter: the
  handshake future \<open>'h\<close>, the session \<open>'s\<close> it yields and the session's byte stream.
\<close>

record ('h, 's, 'io) rustls =
  hs_poll :: "'h \<Rightarrow> (io_kind + 's) poll \<times> 'h"
  hs_get_ref :: "'h \<Rightarrow> 'io option"
  sess_get_ref :: "'s \<Rightarrow> 'io"
  sess_info :: "'s \<Rightarrow> tls_info"
  sess_io :: "('s, io_kind) aio"

datatype ('h, 's) tls_state = Handshake 'h | Streaming 's

section \<open>The client's TLS stream\<close>

record ('h, 's, 'a) client_tls =
  ct_state :: "('h, 's) tls_state"
  ct_info :: "'a connection_info"
  ct_tls :: "tls_info option"

text \<open>\<open>TlsStream::new\<close>: the name of the server must be valid, \<open>connect\<close> starts the handshake.\<close>

definition client_tls_from ::
  "('h, 's, 'io) rustls \<Rightarrow> ('io \<Rightarrow> 'a connection_info) \<Rightarrow> 'h \<Rightarrow> ('h, 's, 'a) client_tls run" where
  "client_tls_from rt info accept =
     run_bind (expect (ok_or () (hs_get_ref rt accept)))
       (\<lambda>stream. Return \<lparr>ct_state = Handshake accept, ct_info = info stream, ct_tls = None\<rparr>)"

definition client_tls_new ::
  "('h, 's, 'io) rustls \<Rightarrow> ('io \<Rightarrow> 'a connection_info) \<Rightarrow> (string \<Rightarrow> 'n option) \<Rightarrow> ('n \<Rightarrow> 'io \<Rightarrow> 'h)
     \<Rightarrow> 'io \<Rightarrow> string \<Rightarrow> ('h, 's, 'a) client_tls run" where
  "client_tls_new rt info parse_name connect stream domain =
     run_bind (expect (ok_or () (parse_name domain)))
       (\<lambda>name. client_tls_from rt info (connect name stream))"

definition client_handshake ::
  "('h, 's, 'io) rustls \<Rightarrow> ('s \<Rightarrow> (io_kind + 'r) poll \<times> 's) \<Rightarrow> ('h, 's, 'a) client_tls
     \<Rightarrow> (io_kind + 'r) poll \<times> ('h, 's, 'a) client_tls" where
  "client_handshake rt action st =
     (case ct_state st of
        Handshake connect \<Rightarrow>
          (case hs_poll rt connect of
             (Pending, connect') \<Rightarrow> (Pending, st\<lparr>ct_state := Handshake connect'\<rparr>)
           | (Panicked, connect') \<Rightarrow> (Panicked, st\<lparr>ct_state := Handshake connect'\<rparr>)
           | (Ready (Inr stream), _) \<Rightarrow>
               (let st' = st\<lparr>ct_tls := Some (sess_info rt stream)\<rparr>;
                    (result, stream') = action stream
                in (result, st'\<lparr>ct_state := Streaming stream'\<rparr>))
           | (Ready (Inl err), connect') \<Rightarrow> (Ready (Inl err), st\<lparr>ct_state := Handshake connect'\<rparr>))
      | Streaming stream \<Rightarrow>
          (let (result, stream') = action stream in (result, st\<lparr>ct_state := Streaming stream'\<rparr>)))"

definition client_poll_handshake ::
  "('h, 's, 'io) rustls \<Rightarrow> ('h, 's, 'a) client_tls \<Rightarrow> (io_kind + unit) poll \<times> ('h, 's, 'a) client_tls" where
  "client_poll_handshake rt = client_handshake rt (\<lambda>s. (Ready (Inr ()), s))"

definition client_streaming ::
  "('s \<Rightarrow> (io_kind + unit) poll \<times> 's) \<Rightarrow> ('h, 's, 'a) client_tls
     \<Rightarrow> (io_kind + unit) poll \<times> ('h, 's, 'a) client_tls" where
  "client_streaming f st =
     (case ct_state st of
        Handshake _ \<Rightarrow> (Ready (Inr ()), st)
      | Streaming stream \<Rightarrow> (let (r, stream') = f stream in (r, st\<lparr>ct_state := Streaming stream'\<rparr>)))"

definition client_tls_io :: "('h, 's, 'io) rustls \<Rightarrow> (('h, 's, 'a) client_tls, io_kind) aio" where
  "client_tls_io rt = \<lparr>
     a_read = \<lambda>n. client_handshake rt (a_read (sess_io rt) n),
     a_write = \<lambda>bs. client_handshake rt (a_write (sess_io rt) bs),
     a_flush = client_streaming (a_flush (sess_io rt)),
     a_shutdown = client_streaming (a_shutdown (sess_io rt)),
     a_is_vectored = \<lambda>_. False,
     a_write_vectored = default_vectored (\<lambda>bs. client_handshake rt (a_write (sess_io rt) bs))\<rparr>"

section \<open>The server's TLS stream\<close>

record ('h, 's) server_tls =
  st_state :: "('h, 's) tls_state"
  st_channel :: tls_channel

definition server_tls_new :: "'h \<Rightarrow> ('h, 's) server_tls" where
  "server_tls_new accept = \<lparr>st_state = Handshake accept, st_channel = tls_channel_new\<rparr>"

definition server_handshake ::
  "('h, 's, 'io) rustls \<Rightarrow> ('s \<Rightarrow> (io_kind + 'r) poll \<times> 's) \<Rightarrow> ('h, 's) server_tls
     \<Rightarrow> (io_kind + 'r) poll \<times> ('h, 's) server_tls" where
  "server_handshake rt action st =
     (case st_state st of
        Handshake accept \<Rightarrow>
          (case hs_poll rt accept of
             (Pending, accept') \<Rightarrow> (Pending, st\<lparr>st_state := Handshake accept'\<rparr>)
           | (Panicked, accept') \<Rightarrow> (Panicked, st\<lparr>st_state := Handshake accept'\<rparr>)
           | (Ready (Inr stream), _) \<Rightarrow>
               (let st' = st\<lparr>st_channel := tls_send (sess_info rt stream) (st_channel st)\<rparr>;
                    (result, stream') = action stream
                in (result, st'\<lparr>st_state := Streaming stream'\<rparr>))
           | (Ready (Inl err), accept') \<Rightarrow> (Ready (Inl err), st\<lparr>st_state := Handshake accept'\<rparr>))
      | Streaming stream \<Rightarrow>
          (let (result, stream') = action stream in (result, st\<lparr>st_state := Streaming stream'\<rparr>)))"

definition server_poll_handshake ::
  "('h, 's, 'io) rustls \<Rightarrow> ('h, 's) server_tls \<Rightarrow> (io_kind + unit) poll \<times> ('h, 's) server_tls" where
  "server_poll_handshake rt = server_handshake rt (\<lambda>s. (Ready (Inr ()), s))"

definition server_tls_info :: "('h, 's, 'io) rustls \<Rightarrow> ('io \<Rightarrow> 'a connection_info) \<Rightarrow> ('h, 's) server_tls \<Rightarrow> 'a connection_info run" where
  "server_tls_info rt info st =
     (case st_state st of
        Handshake a \<Rightarrow> expect (ok_or () (map_option info (hs_get_ref rt a)))
      | Streaming s \<Rightarrow> Return (info (sess_get_ref rt s)))"

definition server_streaming ::
  "('s \<Rightarrow> (io_kind + unit) poll \<times> 's) \<Rightarrow> ('h, 's) server_tls \<Rightarrow> (io_kind + unit) poll \<times> ('h, 's) server_tls" where
  "server_streaming f st =
     (case st_state st of
        Handshake _ \<Rightarrow> (Ready (Inr ()), st)
      | Streaming stream \<Rightarrow> (let (r, stream') = f stream in (r, st\<lparr>st_state := Streaming stream'\<rparr>)))"

definition server_tls_io :: "('h, 's, 'io) rustls \<Rightarrow> (('h, 's) server_tls, io_kind) aio" where
  "server_tls_io rt = \<lparr>
     a_read = \<lambda>n. server_handshake rt (a_read (sess_io rt) n),
     a_write = \<lambda>bs. server_handshake rt (a_write (sess_io rt) bs),
     a_flush = server_streaming (a_flush (sess_io rt)),
     a_shutdown = server_streaming (a_shutdown (sess_io rt)),
     a_is_vectored = \<lambda>_. False,
     a_write_vectored = default_vectored (\<lambda>bs. server_handshake rt (a_write (sess_io rt) bs))\<rparr>"

text \<open>\<open>TlsHandshakeInfo::recv\<close>, then a poll of the receiver it clones.\<close>

definition server_recv :: "('h, 's) server_tls \<Rightarrow> tls_info option poll \<times> ('h, 's) server_tls" where
  "server_recv st = (let (r, ch) = tls_recv (st_channel st) in (r, st\<lparr>st_channel := ch\<rparr>))"

section \<open>The client's stream, with or without TLS\<close>

type_synonym ('h, 's, 'a, 'io) client_stream = "(('h, 's, 'a) client_tls, 'io) tls_braid"

definition client_stream_new :: "'io \<Rightarrow> ('h, 's, 'a, 'io) client_stream" where
  "client_stream_new io = NoTls io"

fun client_stream_map :: "('io \<Rightarrow> 'io2) \<Rightarrow> ('h, 's, 'a, 'io) client_stream \<Rightarrow> ('h, 's, 'a, 'io2) client_stream run" where
  "client_stream_map f (NoTls io) = Return (NoTls (f io))"
| "client_stream_map f (Tls _) = Panic"

fun client_stream_tls ::
  "('io \<Rightarrow> string \<Rightarrow> ('h, 's, 'a) client_tls run) \<Rightarrow> string \<Rightarrow> ('h, 's, 'a, 'io) client_stream
     \<Rightarrow> ('h, 's, 'a, 'io) client_stream run" where
  "client_stream_tls new_tls domain (NoTls core) = run_bind (new_tls core domain) (\<lambda>t. Return (Tls t))"
| "client_stream_tls new_tls domain (Tls _) = Panic"

definition client_stream_handshake ::
  "('h, 's, 'io) rustls \<Rightarrow> ('h, 's, 'a, 'io) client_stream \<Rightarrow> (io_kind + unit) poll \<times> ('h, 's, 'a, 'io) client_stream" where
  "client_stream_handshake rt = tls_braid_handshake (client_poll_handshake rt)"

fun client_stream_info :: "('io \<Rightarrow> 'a connection_info) \<Rightarrow> ('h, 's, 'a, 'io) client_stream \<Rightarrow> 'a connection_info" where
  "client_stream_info info (Tls stream) = ct_info stream"
| "client_stream_info info (NoTls stream) = info stream"

fun client_stream_tls_info :: "('h, 's, 'a, 'io) client_stream \<Rightarrow> tls_info option" where
  "client_stream_tls_info (Tls stream) = ct_tls stream"
| "client_stream_tls_info (NoTls _) = None"

definition client_stream_io ::
  "('h, 's, 'io) rustls \<Rightarrow> ('io, io_kind) aio \<Rightarrow> (('h, 's, 'a, 'io) client_stream, io_kind) aio" where
  "client_stream_io rt io = tls_braid_io (client_tls_io rt) io"

text \<open>\<open>From<TcpStream>\<close>, \<open>From<DuplexStream>\<close>, \<open>From<UnixStream>\<close> for \<open>Stream\<close>.\<close>

definition client_stream_from_tcp :: "'t \<Rightarrow> ('h, 's, 'a, ('t, 'd, 'u) braid) client_stream" where
  "client_stream_from_tcp stream = NoTls (Braid_Tcp stream)"

definition client_stream_from_duplex :: "'d \<Rightarrow> ('h, 's, 'a, ('t, 'd, 'u) braid) client_stream" where
  "client_stream_from_duplex stream = NoTls (Braid_Duplex stream)"

definition client_stream_from_unix :: "'u \<Rightarrow> ('h, 's, 'a, ('t, 'd, 'u) braid) client_stream" where
  "client_stream_from_unix stream = NoTls (Braid_Unix stream)"

section \<open>The server's stream, with or without TLS\<close>

text \<open>
  The receiver a stream holds is a clone of the one inside its TLS stream: they share the
  channel, so only the receiver of a stream without TLS is stored apart, as \<open>Tls_Empty\<close>.
\<close>

record ('h, 's, 'a, 'io) server_stream =
  ss_info :: "'a connection_info"
  ss_inner :: "(('h, 's) server_tls, 'io) tls_braid"

definition server_stream_new :: "('io \<Rightarrow> 'a connection_info) \<Rightarrow> 'io \<Rightarrow> ('h, 's, 'a, 'io) server_stream" where
  "server_stream_new info io = \<lparr>ss_info = info io, ss_inner = NoTls io\<rparr>"

definition server_stream_from_tls ::
  "('h, 's, 'io) rustls \<Rightarrow> ('io \<Rightarrow> 'a connection_info) \<Rightarrow> ('h, 's) server_tls \<Rightarrow> ('h, 's, 'a, 'io) server_stream run" where
  "server_stream_from_tls rt info stream =
     run_bind (server_tls_info rt info stream) (\<lambda>i. Return \<lparr>ss_info = i, ss_inner = Tls stream\<rparr>)"

definition server_stream_handshake ::
  "('h, 's, 'io) rustls \<Rightarrow> ('h, 's, 'a, 'io) server_stream
     \<Rightarrow> (io_kind + unit) poll \<times> ('h, 's, 'a, 'io) server_stream" where
  "server_stream_handshake rt st =
     (case ss_inner st of
        Tls stream \<Rightarrow> (let (r, s) = server_poll_handshake rt stream in (r, st\<lparr>ss_inner := Tls s\<rparr>))
      | NoTls _ \<Rightarrow> (Ready (Inr ()), st))"

definition server_stream_recv ::
  "('h, 's, 'a, 'io) server_stream \<Rightarrow> tls_info option poll \<times> ('h, 's, 'a, 'io) server_stream" where
  "server_stream_recv st =
     (case ss_inner st of
        NoTls _ \<Rightarrow> (fst (tls_recv tls_channel_empty), st)
      | Tls stream \<Rightarrow> (let (r, s) = server_recv stream in (r, st\<lparr>ss_inner := Tls s\<rparr>)))"

definition server_stream_lift ::
  "((('h, 's) server_tls, 'io) tls_braid \<Rightarrow> 'r \<times> (('h, 's) server_tls, 'io) tls_braid)
     \<Rightarrow> ('h, 's, 'a, 'io) server_stream \<Rightarrow> 'r \<times> ('h, 's, 'a, 'io) server_stream" where
  "server_stream_lift f st = (let (r, b) = f (ss_inner st) in (r, st\<lparr>ss_inner := b\<rparr>))"

definition server_stream_io ::
  "('h, 's, 'io) rustls \<Rightarrow> ('io, io_kind) aio \<Rightarrow> (('h, 's, 'a, 'io) server_stream, io_kind) aio" where
  "server_stream_io rt io =
     (let b = tls_braid_io (server_tls_io rt) io
      in \<lparr>a_read = \<lambda>n. server_stream_lift (a_read b n), a_write = \<lambda>bs. server_stream_lift (a_write b bs),
          a_flush = server_stream_lift (a_flush b), a_shutdown = server_stream_lift (a_shutdown b),
          a_is_vectored = \<lambda>_. False,
          a_write_vectored = default_vectored (\<lambda>bs. server_stream_lift (a_write b bs))\<rparr>)"

section \<open>Acceptors\<close>

text \<open>\<open>server/conn/tls/acceptor.rs\<close> and \<open>server/conn/acceptor.rs\<close>; \<open>accept\<close> starts a TLS
  handshake with the server's configuration.\<close>

type_synonym ('acc, 'conn) acceptor = "'acc \<Rightarrow> (io_kind + 'conn) poll \<times> 'acc"

definition tls_poll_accept ::
  "('acc, 'io) acceptor \<Rightarrow> ('cfg \<Rightarrow> 'io \<Rightarrow> 'h) \<Rightarrow> ('cfg \<times> 'acc, ('h, 's) server_tls) acceptor" where
  "tls_poll_accept incoming accept a =
     (case incoming (snd a) of
        (Pending, acc) \<Rightarrow> (Pending, (fst a, acc))
      | (Panicked, acc) \<Rightarrow> (Panicked, (fst a, acc))
      | (Ready (Inr stream), acc) \<Rightarrow> (Ready (Inr (server_tls_new (accept (fst a) stream))), (fst a, acc))
      | (Ready (Inl e), acc) \<Rightarrow> (Ready (Inl e), (fst a, acc)))"

datatype ('cfg, 'acc) acceptor_inner = Acc_NoTls 'acc | Acc_Tls 'cfg 'acc

definition acceptor_new :: "'acc \<Rightarrow> ('cfg, 'acc) acceptor_inner" where
  "acceptor_new accept = Acc_NoTls accept"

fun acceptor_with_tls :: "'cfg \<Rightarrow> ('cfg, 'acc) acceptor_inner \<Rightarrow> ('cfg, 'acc) acceptor_inner run" where
  "acceptor_with_tls config (Acc_NoTls core) = Return (Acc_Tls config core)"
| "acceptor_with_tls config (Acc_Tls _ _) = Panic"

fun core_poll_accept ::
  "('t, 'ts) acceptor \<Rightarrow> ('d, 'ds) acceptor \<Rightarrow> ('u, 'us) acceptor
     \<Rightarrow> (('t, 'd, 'u) braid, ('ts, 'ds, 'us) braid) acceptor" where
  "core_poll_accept tcp dup unix (Braid_Tcp acc) =
     (let (r, acc') = tcp acc in (map_ready (map_sum id Braid_Tcp) r, Braid_Tcp acc'))"
| "core_poll_accept tcp dup unix (Braid_Duplex acc) =
     (let (r, acc') = dup acc in (map_ready (map_sum id Braid_Duplex) r, Braid_Duplex acc'))"
| "core_poll_accept tcp dup unix (Braid_Unix acc) =
     (let (r, acc') = unix acc in (map_ready (map_sum id Braid_Unix) r, Braid_Unix acc'))"

fun acceptor_poll_accept ::
  "('h, 's, 'io) rustls \<Rightarrow> ('io \<Rightarrow> 'a connection_info) \<Rightarrow> ('acc, 'io) acceptor \<Rightarrow> ('cfg \<Rightarrow> 'io \<Rightarrow> 'h)
     \<Rightarrow> (('cfg, 'acc) acceptor_inner, ('h, 's, 'a, 'io) server_stream) acceptor" where
  "acceptor_poll_accept rt info inner accept (Acc_NoTls acc) =
     (let (r, acc') = inner acc in (map_ready (map_sum id (server_stream_new info)) r, Acc_NoTls acc'))"
| "acceptor_poll_accept rt info inner accept (Acc_Tls cfg acc) =
     (let (r, (cfg', acc')) = tls_poll_accept inner accept (cfg, acc)
      in (case r of
            Pending \<Rightarrow> Pending
          | Panicked \<Rightarrow> Panicked
          | Ready (Inl e) \<Rightarrow> Ready (Inl e)
          | Ready (Inr stream) \<Rightarrow>
              (case server_stream_from_tls rt info stream of
                 Panic \<Rightarrow> Panicked
               | Return s \<Rightarrow> Ready (Inr s)), Acc_Tls cfg' acc'))"

section \<open>The handshake comes first\<close>

text \<open>Everything a server does with its TLS stream and with clones of the receiver.\<close>

inductive server_use :: "('h, 's, 'io) rustls \<Rightarrow> ('h, 's) server_tls \<Rightarrow> ('h, 's) server_tls \<Rightarrow> bool"
  for rt where
  read: "server_use rt st (snd (a_read (server_tls_io rt) n st))"
| wr: "server_use rt st (snd (a_write (server_tls_io rt) bs st))"
| flush: "server_use rt st (snd (a_flush (server_tls_io rt) st))"
| shutdown: "server_use rt st (snd (a_shutdown (server_tls_io rt) st))"
| handshake: "server_use rt st (snd (server_poll_handshake rt st))"
| recv: "server_use rt st (snd (server_recv st))"

definition published :: "tls_channel \<Rightarrow> bool" where
  "published ch \<longleftrightarrow> (\<exists>i. ch = \<lparr>tc_cell = Full i, tc_tx = False, tc_rx = Tls_Pending\<rparr> \<or>
     ch = \<lparr>tc_cell = Taken, tc_tx = False, tc_rx = Tls_Received i\<rparr>)"

definition tls_inv :: "('h, 's) server_tls \<Rightarrow> bool" where
  "tls_inv st \<longleftrightarrow>
     (case st_state st of Handshake _ \<Rightarrow> st_channel st = tls_channel_new | Streaming _ \<Rightarrow> published (st_channel st))"

lemma published_recv: "published ch \<Longrightarrow> \<exists>i. fst (tls_recv ch) = Ready (Some i) \<and> published (snd (tls_recv ch))"
  by (auto simp: published_def tls_recv_def)

lemma new_recv: "tls_recv tls_channel_new = (Pending, tls_channel_new)"
  by (simp add: tls_recv_def tls_channel_new_def)

lemma published_send: "published (tls_send i tls_channel_new)"
  by (auto simp: published_def tls_send_def tls_channel_new_def)

lemma handshake_inv:
  assumes "tls_inv st" and "server_handshake rt action st = (r, st')"
  shows "tls_inv st'" and "r = Ready (Inr v) \<Longrightarrow> published (st_channel st')"
proof -
  have "tls_inv st' \<and> (\<forall>v. r = Ready (Inr v) \<longrightarrow> published (st_channel st'))"
  proof (cases "st_state st")
    case (Streaming s)
    with assms show ?thesis by (auto simp: server_handshake_def tls_inv_def split: prod.splits)
  next
    case (Handshake h)
    obtain q h' where hs: "hs_poll rt h = (q, h')" by fastforce
    show ?thesis
    proof (cases "\<exists>s. q = Ready (Inr s)")
      case True
      with assms Handshake hs published_send show ?thesis
        by (auto simp: server_handshake_def tls_inv_def Let_def split: prod.splits)
    next
      case False
      with assms Handshake hs show ?thesis
        by (cases q) (auto simp: server_handshake_def tls_inv_def split: sum.splits)
    qed
  qed
  then show "tls_inv st'" and "r = Ready (Inr v) \<Longrightarrow> published (st_channel st')" by auto
qed

lemma streaming_inv: "tls_inv st \<Longrightarrow> server_streaming f st = (r, st') \<Longrightarrow> tls_inv st'"
  by (auto simp: server_streaming_def tls_inv_def split: tls_state.splits prod.splits)

lemma recv_inv: "tls_inv st \<Longrightarrow> tls_inv (snd (server_recv st))"
  using published_recv [of "st_channel st"]
  by (auto simp: server_recv_def tls_inv_def new_recv split: tls_state.splits prod.splits)

lemma use_inv: "server_use rt st st' \<Longrightarrow> tls_inv st \<Longrightarrow> tls_inv st'"
  by (induction rule: server_use.induct)
    (auto simp: server_tls_io_def server_poll_handshake_def
      intro: handshake_inv(1) streaming_inv recv_inv prod.collapse [symmetric])

lemma uses_inv: "(server_use rt)\<^sup>*\<^sup>* (server_tls_new h) st \<Longrightarrow> tls_inv st"
proof (induction rule: rtranclp_induct)
  case base
  show ?case by (simp add: tls_inv_def server_tls_new_def)
qed (rule use_inv)

section \<open>Properties\<close>



end
