(* ===== verification/Uris.thy ===== *)
theory Uris
  imports Prelude
begin

text \<open>
  Uniform resource identifiers as the http crate presents them: a scheme, an authority with
  its host and port, a path with its query. \<open>Key\<close> (client/pool/key.rs) is the part of one
  that names a host in the pool.
\<close>

record authority =
  au_text :: string
  au_host :: string
  au_port :: "u16 option"

record uri =
  u_scheme :: "string option"
  u_authority :: "authority option"
  u_path :: "string option"

definition uri_host :: "uri \<Rightarrow> string option" where
  "uri_host u = map_option au_host (u_authority u)"

definition uri_port :: "uri \<Rightarrow> u16 option" where
  "uri_port u = Option.bind (u_authority u) au_port"

section \<open>Keys (client/pool/key.rs)\<close>

datatype uri_error = InvalidUri | MissingScheme uri

datatype key = Key (key_scheme: string) (key_authority: "authority option")

definition key_display :: "key \<Rightarrow> string" where
  "key_display k = key_scheme k @ ''://'' @ (case key_authority k of None \<Rightarrow> [] | Some a \<Rightarrow> au_text a)"

definition key_from_pair :: "string \<times> authority \<Rightarrow> key" where
  "key_from_pair value = Key (fst value) (Some (snd value))"

definition key_try_from :: "uri \<Rightarrow> uri_error + key" where
  "key_try_from value =
     result_bind (ok_or (MissingScheme value) (u_scheme value)) (\<lambda>scheme. Inr (Key scheme (u_authority value)))"

text \<open>\<open>parse\<close> is \<open>http::Uri::from_str\<close>.\<close>

definition key_from_str :: "(string \<Rightarrow> uri option) \<Rightarrow> string \<Rightarrow> uri_error + key" where
  "key_from_str parse s = result_bind (ok_or InvalidUri (parse s)) key_try_from"

lemma key_try_from_iff: "key_try_from u = Inr (Key s a) \<longleftrightarrow> u_scheme u = Some s \<and> u_authority u = a"
  by (cases "u_scheme u") (auto simp: key_try_from_def)

end
