(* ===== verification/Transport.thy ===== *)
theory Transport
  imports Tls_Stream Uris
begin

text \<open>
  Client transports: \<open>TransportStream\<close> and \<open>TlsTransport\<close> of client/conn/transport/mod.rs,
  \<open>TlsTransportWrapper\<close> and its future of transport/tls.rs, \<open>IntoStream\<close> of
  transport/stream.rs and the mock of transport/mock.rs. The inner transport is a parameter:
  \<open>connect\<close> starts a connection, \<open>fpoll\<close> polls its future.
\<close>

section \<open>TransportStream\<close>

record ('io, 'a) transport_stream =
  ts_stream :: 'io
  ts_info :: "'a connection_info"
  ts_tls :: "tls_info option"

definition transport_stream_new ::
  "('io \<Rightarrow> 'a connection_info) \<Rightarrow> 'io \<Rightarrow> tls_info option \<Rightarrow> ('io, 'a) transport_stream" where
  "transport_stream_new info stream tls = \<lparr>ts_stream = stream, ts_info = info stream, ts_tls = tls\<rparr>"

definition transport_stream_map ::
  "('a \<Rightarrow> 'b) \<Rightarrow> ('io \<Rightarrow> 'u) \<Rightarrow> ('io, 'a) transport_stream \<Rightarrow> ('u, 'b) transport_stream" where
  "transport_stream_map into f ts =
     \<lparr>ts_stream = f (ts_stream ts), ts_info = info_map into (ts_info ts), ts_tls = ts_tls ts\<rparr>"

definition transport_can_share :: "('io, 'a) transport_stream \<Rightarrow> bool" where
  "transport_can_share ts = (Option.bind (ts_tls ts) alpn = Some (Http HTTP_2))"

text \<open>\<open>new_stream\<close> waits for the handshake, here one poll of that wait.\<close>

definition transport_new_stream ::
  "('h, 's, 'io) rustls \<Rightarrow> ('io \<Rightarrow> 'a connection_info) \<Rightarrow> ('h, 's, 'a, 'io) client_stream
     \<Rightarrow> (io_kind + (('h, 's, 'a, 'io) client_stream, 'a) transport_stream) poll \<times> ('h, 's, 'a, 'io) client_stream" where
  "transport_new_stream rt info stream =
     (let (r, stream') = client_stream_handshake rt stream
      in (case r of
            Pending \<Rightarrow> Pending
          | Panicked \<Rightarrow> Panicked
          | Ready (Inl e) \<Rightarrow> Ready (Inl e)
          | Ready (Inr _) \<Rightarrow>
              Ready (Inr \<lparr>ts_stream = stream', ts_info = client_stream_info info stream',
                         ts_tls = client_stream_tls_info stream'\<rparr>), stream'))"

definition transport_lift :: "('io \<Rightarrow> 'r \<times> 'io) \<Rightarrow> ('io, 'a) transport_stream \<Rightarrow> 'r \<times> ('io, 'a) transport_stream" where
  "transport_lift f ts = (let (r, s) = f (ts_stream ts) in (r, ts\<lparr>ts_stream := s\<rparr>))"

definition transport_io :: "('io, 'e) aio \<Rightarrow> (('io, 'a) transport_stream, 'e) aio" where
  "transport_io io = \<lparr>a_read = \<lambda>n. transport_lift (a_read io n),
     a_write = \<lambda>bs. transport_lift (a_write io bs),
     a_flush = transport_lift (a_flush io),
     a_shutdown = transport_lift (a_shutdown io),
     a_is_vectored = \<lambda>ts. a_is_vectored io (ts_stream ts),
     a_write_vectored = \<lambda>bufs. transport_lift (a_write_vectored io bufs)\<rparr>"

lemma transport_byte_stream:
  assumes "byte_stream io incoming outgoing"
  shows "byte_stream (transport_io io) (incoming \<circ> ts_stream) (outgoing \<circ> ts_stream)"
  using assms by (auto simp: byte_stream_def transport_io_def transport_lift_def split: prod.splits)

section \<open>TLS on top of a transport\<close>

datatype 'e tls_connection_error = Connection_Error 'e | Handshake_Error io_kind | NoDomain | TlsDisabled

datatype ('f, 'cfg, 'st, 'e) tls_future =
  TF_Connecting 'f 'cfg string | TF_Handshake 'st | TF_Error "'e tls_connection_error" | TF_Invalid

record ('t, 'f, 'io, 'a, 'e) transport_ops =
  t_poll_ready :: "'t \<Rightarrow> ('e + unit) poll \<times> 't"
  t_connect :: "'t \<Rightarrow> uri \<Rightarrow> 'f \<times> 't"
  t_fpoll :: "'f \<Rightarrow> ('e + ('io, 'a) transport_stream) poll \<times> 'f"

record ('t, 'cfg) tls_wrapper =
  tw_transport :: 't
  tw_config :: 'cfg

definition tls_wrapper_poll_ready ::
  "('t, 'f, 'io, 'a, 'e) transport_ops \<Rightarrow> ('t, 'cfg) tls_wrapper
     \<Rightarrow> ('e tls_connection_error + unit) poll \<times> ('t, 'cfg) tls_wrapper" where
  "tls_wrapper_poll_ready ops w =
     (let (r, t) = t_poll_ready ops (tw_transport w)
      in (map_ready (map_err Connection_Error) r, w\<lparr>tw_transport := t\<rparr>))"

definition tls_wrapper_call ::
  "('t, 'f, 'io, 'a, 'e) transport_ops \<Rightarrow> uri \<Rightarrow> ('t, 'cfg) tls_wrapper
     \<Rightarrow> ('f, 'cfg, 'st, 'e) tls_future \<times> ('t, 'cfg) tls_wrapper" where
  "tls_wrapper_call ops req w =
     (case uri_host req of
        None \<Rightarrow> (TF_Error NoDomain, w)
      | Some host \<Rightarrow>
          (let (future, t) = t_connect ops (tw_transport w) req
           in (TF_Connecting future (tw_config w) host, w\<lparr>tw_transport := t\<rparr>)))"

text \<open>\<open>TlsConnectionFuture::poll\<close>: the loop goes round once more when the transport is connected.\<close>

type_synonym ('h, 's, 'a, 'io, 'e) tls_output =
  "('e tls_connection_error + (('h, 's, 'a, 'io) client_stream, 'a) transport_stream) poll"

definition tls_future_handshake ::
  "('h, 's, 'io) rustls \<Rightarrow> ('io \<Rightarrow> 'a connection_info) \<Rightarrow> ('h, 's, 'a, 'io) client_stream
     \<Rightarrow> ('h, 's, 'a, 'io, 'e) tls_output \<times> ('f, 'cfg, ('h, 's, 'a, 'io) client_stream, 'e) tls_future" where
  "tls_future_handshake rt info stream =
     (case client_stream_handshake rt stream of
        (Ready (Inr _), stream') \<Rightarrow>
          (Ready (Inr \<lparr>ts_stream = stream', ts_info = client_stream_info info stream',
                      ts_tls = client_stream_tls_info stream'\<rparr>), TF_Invalid)
      | (Ready (Inl e), stream') \<Rightarrow> (Ready (Inl (Handshake_Error e)), TF_Handshake stream')
      | (Pending, stream') \<Rightarrow> (Pending, TF_Handshake stream')
      | (Panicked, stream') \<Rightarrow> (Panicked, TF_Handshake stream'))"

fun tls_future_poll ::
  "('h, 's, 'io) rustls \<Rightarrow> ('io \<Rightarrow> 'a connection_info) \<Rightarrow> ('t, 'f, 'io, 'a, 'e) transport_ops
     \<Rightarrow> ('io \<Rightarrow> string \<Rightarrow> 'cfg \<Rightarrow> ('h, 's, 'a) client_tls run)
     \<Rightarrow> ('f, 'cfg, ('h, 's, 'a, 'io) client_stream, 'e) tls_future
     \<Rightarrow> ('h, 's, 'a, 'io, 'e) tls_output \<times> ('f, 'cfg, ('h, 's, 'a, 'io) client_stream, 'e) tls_future" where
  "tls_future_poll rt info ops new_tls (TF_Connecting future config domain) =
     (case t_fpoll ops future of
        (Ready (Inr stream), future') \<Rightarrow>
          (case client_stream_tls (\<lambda>io d. new_tls io d config) domain (client_stream_new (ts_stream stream)) of
             Panic \<Rightarrow> (Panicked, TF_Connecting future' config domain)
           | Return st \<Rightarrow> tls_future_handshake rt info st)
      | (Ready (Inl e), future') \<Rightarrow> (Ready (Inl (Connection_Error e)), TF_Connecting future' config domain)
      | (Pending, future') \<Rightarrow> (Pending, TF_Connecting future' config domain)
      | (Panicked, future') \<Rightarrow> (Panicked, TF_Connecting future' config domain))"
| "tls_future_poll rt info ops new_tls (TF_Handshake stream) = tls_future_handshake rt info stream"
| "tls_future_poll rt info ops new_tls (TF_Error e) = (Ready (Inl e), TF_Invalid)"
| "tls_future_poll rt info ops new_tls TF_Invalid = (Panicked, TF_Invalid)"

section \<open>Transports with optional TLS\<close>

datatype ('t, 'cfg) tls_transport = TT_Plain 't | TT_Tls "('t, 'cfg) tls_wrapper"

definition tls_transport_new :: "'t \<Rightarrow> ('t, 'cfg) tls_transport" where
  "tls_transport_new t = TT_Plain t"

fun tls_transport_with_tls :: "'cfg \<Rightarrow> ('t, 'cfg) tls_transport \<Rightarrow> ('t, 'cfg) tls_transport" where
  "tls_transport_with_tls config (TT_Plain inner) = TT_Tls \<lparr>tw_transport = inner, tw_config = config\<rparr>"
| "tls_transport_with_tls config (TT_Tls w) = TT_Tls \<lparr>tw_transport = tw_transport w, tw_config = config\<rparr>"

definition tls_transport_optional :: "'cfg option \<Rightarrow> 't \<Rightarrow> ('t, 'cfg) tls_transport" where
  "tls_transport_optional config t =
     (case config of Some c \<Rightarrow> tls_transport_with_tls c (tls_transport_new t) | None \<Rightarrow> tls_transport_new t)"

fun tls_transport_inner :: "('t, 'cfg) tls_transport \<Rightarrow> 't" where
  "tls_transport_inner (TT_Plain inner) = inner"
| "tls_transport_inner (TT_Tls w) = tw_transport w"

fun tls_transport_parts :: "('t, 'cfg) tls_transport \<Rightarrow> 't \<times> 'cfg option" where
  "tls_transport_parts (TT_Plain inner) = (inner, None)"
| "tls_transport_parts (TT_Tls w) = (tw_transport w, Some (tw_config w))"

fun tls_transport_poll_ready ::
  "('t, 'f, 'io, 'a, 'e) transport_ops \<Rightarrow> ('t, 'cfg) tls_transport
     \<Rightarrow> ('e tls_connection_error + unit) poll \<times> ('t, 'cfg) tls_transport" where
  "tls_transport_poll_ready ops (TT_Plain inner) =
     (let (r, t) = t_poll_ready ops inner in (map_ready (map_err Connection_Error) r, TT_Plain t))"
| "tls_transport_poll_ready ops (TT_Tls w) =
     (let (r, w') = tls_wrapper_poll_ready ops w in (r, TT_Tls w'))"

datatype ('f, 'tf) braid_future = BF_Plain 'f | BF_Tls 'tf

definition use_tls :: "uri \<Rightarrow> bool" where
  "use_tls req = (case u_scheme req of None \<Rightarrow> False | Some s \<Rightarrow> s = ''https'' \<or> s = ''wss'')"

fun tls_transport_call ::
  "('t, 'f, 'io, 'a, 'e) transport_ops \<Rightarrow> uri \<Rightarrow> ('t, 'cfg) tls_transport
     \<Rightarrow> ('f, ('f, 'cfg, 'st, 'e) tls_future) braid_future \<times> ('t, 'cfg) tls_transport" where
  "tls_transport_call ops req (TT_Plain inner) =
     (let (f, t) = t_connect ops inner req in (BF_Plain f, TT_Plain t))"
| "tls_transport_call ops req (TT_Tls w) =
     (if use_tls req
      then (let (f, w') = tls_wrapper_call ops req w in (BF_Tls f, TT_Tls w'))
      else (let (f, t) = t_connect ops (tw_transport w) req in (BF_Plain f, TT_Tls (w\<lparr>tw_transport := t\<rparr>))))"

fun braid_future_poll ::
  "('h, 's, 'io) rustls \<Rightarrow> ('io \<Rightarrow> 'a connection_info) \<Rightarrow> ('t, 'f, 'io, 'a, 'e) transport_ops
     \<Rightarrow> ('io \<Rightarrow> string \<Rightarrow> 'cfg \<Rightarrow> ('h, 's, 'a) client_tls run)
     \<Rightarrow> ('f, ('f, 'cfg, ('h, 's, 'a, 'io) client_stream, 'e) tls_future) braid_future
     \<Rightarrow> ('h, 's, 'a, 'io, 'e) tls_output \<times> ('f, ('f, 'cfg, ('h, 's, 'a, 'io) client_stream, 'e) tls_future) braid_future" where
  "braid_future_poll rt info ops new_tls (BF_Plain fut) =
     (let (r, fut') = t_fpoll ops fut
      in (map_ready (map_sum Connection_Error (transport_stream_map id client_stream_new)) r, BF_Plain fut'))"
| "braid_future_poll rt info ops new_tls (BF_Tls fut) =
     (let (r, fut') = tls_future_poll rt info ops new_tls fut in (r, BF_Tls fut'))"

section \<open>Other transports\<close>

text \<open>\<open>IntoStream\<close>: the connected stream converted into a \<open>Stream\<close> over \<open>Braid\<close>.\<close>

definition into_stream_poll ::
  "('t, 'f, 'io, 'a, 'e) transport_ops \<Rightarrow> ('a \<Rightarrow> braid_addr) \<Rightarrow> ('io \<Rightarrow> 'stream) \<Rightarrow> 'f
     \<Rightarrow> ('e + ('stream, braid_addr) transport_stream) poll \<times> 'f" where
  "into_stream_poll ops into_addr into f =
     (let (r, f') = t_fpoll ops f in (map_ready (map_sum id (transport_stream_map into_addr into)) r, f'))"

datatype transport_mode = SingleUse | Reusable | ConnectionError

definition mock_transport_new :: "bool \<Rightarrow> transport_mode" where
  "mock_transport_new re = (if re then Reusable else SingleUse)"

definition mock_transport_can_share :: "transport_mode \<Rightarrow> bool" where
  "mock_transport_can_share mode = (mode = Reusable)"

definition mock_transport_handshake :: "transport_mode \<Rightarrow> nat \<Rightarrow> u16 \<Rightarrow> flags \<Rightarrow> mock_stream \<times> u16 \<times> flags" where
  "mock_transport_handshake mode = mock_new (mode = Reusable)"

definition mock_transport_call ::
  "transport_mode \<Rightarrow> nat \<Rightarrow> u16 \<Rightarrow> flags \<Rightarrow> (unit + (mock_stream, unit) transport_stream) \<times> u16 \<times> flags" where
  "mock_transport_call mode a ident fl =
     (let (r, rest) =
        (case mode of
           ConnectionError \<Rightarrow> (None, (ident, fl))
         | SingleUse \<Rightarrow> (let (c, i, g) = mock_new False a ident fl in (Some c, (i, g)))
         | Reusable \<Rightarrow> (let (c, i, g) = mock_new True a ident fl in (Some c, (i, g))))
      in (case r of None \<Rightarrow> Inl () | Some c \<Rightarrow> Inr (transport_stream_new (\<lambda>_. info_default ()) c None), rest))"

section \<open>A finished TLS future carries a finished handshake\<close>

definition tls_ok :: "('h, 's, 'a, 'io) client_stream \<Rightarrow> bool" where
  "tls_ok st \<longleftrightarrow> (\<exists>ct. st = Tls ct \<and> (\<forall>s. ct_state ct = Streaming s \<longrightarrow> ct_tls ct \<noteq> None))"

definition future_ok :: "('f, 'cfg, ('h, 's, 'a, 'io) client_stream, 'e) tls_future \<Rightarrow> bool" where
  "future_ok f \<longleftrightarrow> (case f of TF_Handshake st \<Rightarrow> tls_ok st | _ \<Rightarrow> True)"

definition secured :: "(('h, 's, 'a, 'io) client_stream, 'a) transport_stream \<Rightarrow> bool" where
  "secured ts \<longleftrightarrow> (\<exists>ct s i. ts_stream ts = Tls ct \<and> ct_state ct = Streaming s \<and> ct_tls ct = Some i \<and> ts_tls ts = Some i)"

lemma client_handshake_ok:
  assumes "client_handshake rt action ct = (r, ct')" and "\<forall>s. ct_state ct = Streaming s \<longrightarrow> ct_tls ct \<noteq> None"
  shows "\<forall>s. ct_state ct' = Streaming s \<longrightarrow> ct_tls ct' \<noteq> None"
    and "r = Ready (Inr v) \<Longrightarrow> \<exists>s i. ct_state ct' = Streaming s \<and> ct_tls ct' = Some i"
proof -
  have "(\<forall>s. ct_state ct' = Streaming s \<longrightarrow> ct_tls ct' \<noteq> None) \<and>
    (\<forall>v. r = Ready (Inr v) \<longrightarrow> (\<exists>s i. ct_state ct' = Streaming s \<and> ct_tls ct' = Some i))"
  proof (cases "ct_state ct")
    case (Streaming s)
    with assms show ?thesis by (auto simp: client_handshake_def split: prod.splits)
  next
    case (Handshake h)
    obtain q h' where hs: "hs_poll rt h = (q, h')" by fastforce
    show ?thesis
    proof (cases "\<exists>s. q = Ready (Inr s)")
      case True
      with assms Handshake hs show ?thesis by (auto simp: client_handshake_def Let_def split: prod.splits)
    next
      case False
      with assms Handshake hs show ?thesis by (cases q) (auto simp: client_handshake_def split: sum.splits)
    qed
  qed
  then show "\<forall>s. ct_state ct' = Streaming s \<longrightarrow> ct_tls ct' \<noteq> None"
    and "r = Ready (Inr v) \<Longrightarrow> \<exists>s i. ct_state ct' = Streaming s \<and> ct_tls ct' = Some i" by auto
qed

lemma future_handshake_ok:
  assumes "tls_ok st" and "tls_future_handshake rt info st = (r, f)"
  shows "future_ok f \<and> (\<forall>ts. r = Ready (Inr ts) \<longrightarrow> secured ts)"
proof -
  from assms(1) obtain ct where st: "st = Tls ct" and ct: "\<forall>s. ct_state ct = Streaming s \<longrightarrow> ct_tls ct \<noteq> None"
    by (auto simp: tls_ok_def)
  obtain q ct' where hs: "client_poll_handshake rt ct = (q, ct')" by fastforce
  note ok = client_handshake_ok [OF hs [unfolded client_poll_handshake_def] ct]
  from assms(2) st hs ok show ?thesis
    by (auto simp: tls_future_handshake_def client_stream_handshake_def future_ok_def tls_ok_def secured_def
      split: poll.splits sum.splits)
qed

lemma client_tls_new_state:
  "client_tls_new rt info parse_name connect io d = Return ct \<Longrightarrow> \<exists>h. ct_state ct = Handshake h"
  by (auto simp: client_tls_new_def client_tls_from_def expect_def ok_or_def split: option.splits)

lemma future_poll_ok:
  assumes "future_ok f"
    and "tls_future_poll rt info ops (\<lambda>io d cfg. client_tls_new rt info parse_name (connect cfg) io d) f = (r, f')"
  shows "future_ok f' \<and> (\<forall>ts. r = Ready (Inr ts) \<longrightarrow> secured ts)"
proof (cases f)
  case (TF_Handshake st)
  with assms have "tls_ok st" and "tls_future_handshake rt info st = (r, f')"
    by (simp_all add: future_ok_def)
  then show ?thesis by (rule future_handshake_ok)
next
  case (TF_Connecting g config domain)
  obtain q g' where fp: "t_fpoll ops g = (q, g')" by fastforce
  show ?thesis
  proof (cases "\<exists>s. q = Ready (Inr s)")
    case False
    with assms fp TF_Connecting show ?thesis by (cases q) (auto simp: future_ok_def split: sum.splits)
  next
    case True
    then obtain ts where q: "q = Ready (Inr ts)" by blast
    show ?thesis
    proof (cases "client_tls_new rt info parse_name (connect config) (ts_stream ts) domain")
      case Panic
      with assms fp TF_Connecting q show ?thesis by (auto simp: future_ok_def client_stream_new_def)
    next
      case (Return ct)
      from client_tls_new_state [OF Return] have "tls_ok (Tls ct)" by (auto simp: tls_ok_def)
      moreover from assms(2) fp TF_Connecting q Return have "tls_future_handshake rt info (Tls ct) = (r, f')"
        by (simp add: client_stream_new_def)
      ultimately show ?thesis by (rule future_handshake_ok)
    qed
  qed
qed (use assms in \<open>auto simp: future_ok_def\<close>)

section \<open>Properties\<close>

text \<open>Which connections are encrypted: \<open>TlsTransport::call\<close> starts TLS exactly when the
  transport has a TLS configuration and the scheme is spelled \<open>https\<close> or \<open>wss\<close>. A transport
  without one connects an \<open>https\<close> URI in the clear: the error \<open>TlsDisabled\<close> is never produced.\<close>

theorem tls_used_iff:
  "((\<exists>f. fst (tls_transport_call ops req tt) = BF_Tls f) \<longleftrightarrow>
      snd (tls_transport_parts tt) \<noteq> None \<and> (u_scheme req = Some ''https'' \<or> u_scheme req = Some ''wss'')) \<and>
   fst (tls_transport_call ops req (TT_Plain inner)) = BF_Plain (fst (t_connect ops inner req)) \<and>
   fst (tls_transport_call ops req tt) \<noteq> BF_Tls (TF_Error TlsDisabled)"
  by (cases tt; cases "u_scheme req")
    (auto simp: use_tls_def tls_wrapper_call_def split: prod.splits option.splits)



end
