(* ===== verification/Body.thy ===== *)
theory Body
  imports Uris Poolable
begin

text \<open>
  Bodies (body/mod.rs) and the adapters of service/ that convert them, with the retry policy
  of service/retry.rs that clones them. Bodies made elsewhere (hyper's incoming bodies,
  axum's, any user type) are a parameter: the record of what polling one answers.
\<close>

section \<open>What a body offers\<close>

datatype 't frame = Data "byte list" | Trailers 't

record size_hint =
  hint_lower :: nat
  hint_upper :: "nat option"

definition with_exact :: "nat \<Rightarrow> size_hint" where
  "with_exact n = \<lparr>hint_lower = n, hint_upper = Some n\<rparr>"

text \<open>Errors are \<open>BoxError\<close>s, into which each body's own error converts.\<close>

record ('b, 't, 'e) body_ops =
  b_poll :: "'b \<Rightarrow> ('e + 't frame) option poll \<times> 'b"
  b_end :: "'b \<Rightarrow> bool"
  b_hint :: "'b \<Rightarrow> size_hint"

fun frame_bytes :: "'t frame \<Rightarrow> byte list" where
  "frame_bytes (Data bs) = bs"
| "frame_bytes (Trailers t) = []"

text \<open>
  The contract of \<open>http_body::Body\<close>: \<open>rest b\<close> are the frames to come, an ended stream has
  none, and an exact hint is the number of bytes to come.
\<close>

locale http_body =
  fixes ops :: "('b, 't, 'e) body_ops"
    and rest :: "'b \<Rightarrow> 't frame list"
  assumes poll_none: "b_poll ops b = (Ready None, b') \<Longrightarrow> rest b = [] \<and> rest b' = []"
    and poll_frame: "b_poll ops b = (Ready (Some (Inr f)), b') \<Longrightarrow> rest b = f # rest b'"
    and poll_wait: "b_poll ops b = (Pending, b') \<Longrightarrow> rest b' = rest b"
    and ended: "b_end ops b \<Longrightarrow> rest b = []"
    and exact: "b_hint ops b = with_exact n \<Longrightarrow> length (concat (map frame_bytes (rest b))) = n"
begin

text \<open>The frames that \<open>n\<close> polls deliver, and the body afterwards.\<close>

fun frames :: "nat \<Rightarrow> 'b \<Rightarrow> 't frame list \<times> 'b" where
  "frames 0 b = ([], b)"
| "frames (Suc n) b =
     (case b_poll ops b of
        (Ready (Some (Inr f)), b') \<Rightarrow> (let (fs, b'') = frames n b' in (f # fs, b''))
      | (Pending, b') \<Rightarrow> frames n b'
      | (_, b') \<Rightarrow> ([], b'))"

lemma frames_prefix: "\<exists>more. rest b = fst (frames n b) @ more"
proof (induction n arbitrary: b)
  case (Suc n)
  obtain r b' where p: "b_poll ops b = (r, b')" by fastforce
  from Suc.IH [of b'] obtain more where m: "rest b' = fst (frames n b') @ more" by blast
  show ?case
  proof (cases "\<exists>f. r = Ready (Some (Inr f))")
    case True
    then obtain f where "r = Ready (Some (Inr f))" by blast
    with p poll_frame [of b f b'] m show ?thesis by (simp add: case_prod_beta)
  next
    case False
    with p poll_wait [of b b'] m show ?thesis
      by (cases r) (auto split: option.splits sum.splits intro: sym exI [of _ more])
  qed
qed simp

lemma exact_bounds:
  assumes "b_hint ops b = with_exact n"
  shows "length (concat (map frame_bytes (fst (frames k b)))) \<le> n"
proof -
  obtain more where "rest b = fst (frames k b) @ more" using frames_prefix by blast
  with exact [OF assms] show ?thesis by auto
qed

end

section \<open>Bodies of one piece, boxes\<close>

text \<open>
  \<open>http_body_util::Full\<close> is one piece of data, if not empty; \<open>http_body_util::Empty\<close> is none.
\<close>

definition full_new :: "byte list \<Rightarrow> byte list option" where
  "full_new bs = (if bs = [] then None else Some bs)"

fun full_poll :: "byte list option \<Rightarrow> ('e + 't frame) option poll \<times> byte list option" where
  "full_poll None = (Ready None, None)"
| "full_poll (Some bs) = (Ready (Some (Inr (Data bs))), None)"

fun full_hint :: "byte list option \<Rightarrow> size_hint" where
  "full_hint None = with_exact 0"
| "full_hint (Some bs) = with_exact (length bs)"

definition full_ops :: "(byte list option, 't, 'e) body_ops" where
  "full_ops = \<lparr>b_poll = full_poll, b_end = (\<lambda>b. b = None), b_hint = full_hint\<rparr>"

definition full_rest :: "byte list option \<Rightarrow> 't frame list" where
  "full_rest b = (case b of None \<Rightarrow> [] | Some bs \<Rightarrow> [Data bs])"

lemma with_exact_eq [simp]: "with_exact m = with_exact n \<longleftrightarrow> m = n"
  by (simp add: with_exact_def)

interpretation full: http_body full_ops full_rest
proof
  fix b b' :: "byte list option" and f :: "'a frame" and n
  show "b_poll full_ops b = (Ready None, b') \<Longrightarrow> full_rest b = [] \<and> full_rest b' = []"
    by (cases b) (auto simp: full_ops_def full_rest_def)
  show "b_poll full_ops b = (Ready (Some (Inr f)), b') \<Longrightarrow> full_rest b = f # full_rest b'"
    by (cases b) (auto simp: full_ops_def full_rest_def)
  show "b_poll full_ops b = (Pending, b') \<Longrightarrow> full_rest b' = (full_rest b :: 'a frame list)"
    by (cases b) (auto simp: full_ops_def)
  show "b_end full_ops b \<Longrightarrow> full_rest b = []"
    by (simp add: full_ops_def full_rest_def)
  show "b_hint full_ops b = with_exact n \<Longrightarrow> length (concat (map frame_bytes (full_rest b))) = n"
    by (cases b) (auto simp: full_ops_def full_rest_def)
qed

text \<open>What a box (\<open>UnsyncBoxBody\<close>, \<open>BoxBody\<close>, \<open>Box<dyn Body>\<close>) may hold: it delegates.\<close>

datatype 'b dyn_body = Dyn_Empty | Dyn_Full "byte list option" | Dyn_Ext 'b | Dyn_Box "'b dyn_body"

definition lift_poll :: "('s \<Rightarrow> 'd) \<Rightarrow> 'r \<times> 's \<Rightarrow> 'r \<times> 'd" where
  "lift_poll c p = (fst p, c (snd p))"

fun dyn_poll :: "('b, 't, 'e) body_ops \<Rightarrow> 'b dyn_body \<Rightarrow> ('e + 't frame) option poll \<times> 'b dyn_body" where
  "dyn_poll x Dyn_Empty = (Ready None, Dyn_Empty)"
| "dyn_poll x (Dyn_Full f) = lift_poll Dyn_Full (full_poll f)"
| "dyn_poll x (Dyn_Ext b) = lift_poll Dyn_Ext (b_poll x b)"
| "dyn_poll x (Dyn_Box d) = lift_poll Dyn_Box (dyn_poll x d)"

fun dyn_end :: "('b, 't, 'e) body_ops \<Rightarrow> 'b dyn_body \<Rightarrow> bool" where
  "dyn_end x Dyn_Empty = True"
| "dyn_end x (Dyn_Full f) = (f = None)"
| "dyn_end x (Dyn_Ext b) = b_end x b"
| "dyn_end x (Dyn_Box d) = dyn_end x d"

fun dyn_hint :: "('b, 't, 'e) body_ops \<Rightarrow> 'b dyn_body \<Rightarrow> size_hint" where
  "dyn_hint x Dyn_Empty = with_exact 0"
| "dyn_hint x (Dyn_Full f) = full_hint f"
| "dyn_hint x (Dyn_Ext b) = b_hint x b"
| "dyn_hint x (Dyn_Box d) = dyn_hint x d"

section \<open>Body\<close>

datatype 'b body =
  Empty_Body
| Full_Body "byte list option"
| Boxed "'b dyn_body"
| Http_Body "'b dyn_body"
| HttpSync "'b dyn_body"
| Incoming 'b
| AxumBody 'b

text \<open>\<open>try_downcast\<close> recognises a value that already is a \<open>Body\<close>.\<close>

datatype 'b any_body = Is_Body "'b body" | Is_Other "'b dyn_body"

fun try_downcast :: "'b any_body \<Rightarrow> 'b dyn_body + 'b body" where
  "try_downcast (Is_Body b) = Inr b"
| "try_downcast (Is_Other d) = Inl d"

definition body_new :: "'b any_body \<Rightarrow> 'b body" where
  "body_new b = (case try_downcast b of Inr v \<Rightarrow> v | Inl d \<Rightarrow> Boxed d)"

definition body_empty :: "'b body" where
  "body_empty = Empty_Body"

fun body_try_clone :: "'b body \<Rightarrow> 'b body option" where
  "body_try_clone (Boxed _) = None"
| "body_try_clone (Full_Body f) = Some (Full_Body f)"
| "body_try_clone Empty_Body = Some Empty_Body"
| "body_try_clone (Http_Body _) = None"
| "body_try_clone (HttpSync _) = None"
| "body_try_clone (Incoming _) = None"
| "body_try_clone (AxumBody _) = None"

fun body_as_boxed :: "'b body \<Rightarrow> 'b dyn_body" where
  "body_as_boxed (Boxed d) = Dyn_Box d"
| "body_as_boxed (Full_Body f) = Dyn_Full f"
| "body_as_boxed Empty_Body = Dyn_Empty"
| "body_as_boxed (Http_Body d) = d"
| "body_as_boxed (HttpSync d) = Dyn_Box d"
| "body_as_boxed (Incoming b) = Dyn_Ext b"
| "body_as_boxed (AxumBody b) = Dyn_Ext b"

definition body_default :: "'b body" where
  "body_default = Empty_Body"

definition body_from_bytes :: "byte list \<Rightarrow> 'b body" where
  "body_from_bytes bs = Full_Body (full_new bs)"

definition inner_from_string :: "byte list \<Rightarrow> 'b body" where
  "inner_from_string s = (if s = [] then Empty_Body else Full_Body (full_new s))"

definition body_from_string :: "byte list \<Rightarrow> 'b body" where
  "body_from_string s = inner_from_string s"

definition body_from_str :: "byte list \<Rightarrow> 'b body" where
  "body_from_str s = Full_Body (full_new s)"

definition body_from_full :: "byte list option \<Rightarrow> 'b body" where
  "body_from_full f = Full_Body f"

definition body_from_empty :: "unit \<Rightarrow> 'b body" where
  "body_from_empty u = Empty_Body"

definition body_from_incoming :: "'b \<Rightarrow> 'b body" where
  "body_from_incoming b = Incoming b"

definition body_from_axum :: "'b \<Rightarrow> 'b body" where
  "body_from_axum b = AxumBody b"

definition body_from_unsync :: "'b dyn_body \<Rightarrow> 'b body" where
  "body_from_unsync d = Http_Body d"

definition body_from_boxbody :: "'b dyn_body \<Rightarrow> 'b body" where
  "body_from_boxbody d = HttpSync d"

text \<open>A \<open>Box<dyn Body>\<close> is never of type \<open>Body\<close> itself, so the downcast fails.\<close>

definition body_from_box :: "'b dyn_body \<Rightarrow> 'b body" where
  "body_from_box d = (case try_downcast (Is_Other d) of Inr v \<Rightarrow> v | Inl d' \<Rightarrow> Boxed d')"

fun body_poll_frame :: "('b, 't, 'e) body_ops \<Rightarrow> 'b body \<Rightarrow> ('e + 't frame) option poll \<times> 'b body" where
  "body_poll_frame x Empty_Body = (Ready None, Empty_Body)"
| "body_poll_frame x (Full_Body f) = lift_poll Full_Body (full_poll f)"
| "body_poll_frame x (Boxed d) = lift_poll Boxed (dyn_poll x d)"
| "body_poll_frame x (Http_Body d) = lift_poll Http_Body (dyn_poll x d)"
| "body_poll_frame x (HttpSync d) = lift_poll HttpSync (dyn_poll x d)"
| "body_poll_frame x (Incoming b) = lift_poll Incoming (b_poll x b)"
| "body_poll_frame x (AxumBody b) = lift_poll AxumBody (b_poll x b)"

fun body_is_end_stream :: "('b, 't, 'e) body_ops \<Rightarrow> 'b body \<Rightarrow> bool" where
  "body_is_end_stream x Empty_Body = True"
| "body_is_end_stream x (Full_Body f) = (f = None)"
| "body_is_end_stream x (Boxed d) = dyn_end x d"
| "body_is_end_stream x (Http_Body d) = dyn_end x d"
| "body_is_end_stream x (HttpSync d) = dyn_end x d"
| "body_is_end_stream x (Incoming b) = b_end x b"
| "body_is_end_stream x (AxumBody b) = b_end x b"

fun body_size_hint :: "('b, 't, 'e) body_ops \<Rightarrow> 'b body \<Rightarrow> size_hint" where
  "body_size_hint x Empty_Body = with_exact 0"
| "body_size_hint x (Full_Body f) = full_hint f"
| "body_size_hint x (Boxed d) = dyn_hint x d"
| "body_size_hint x (Http_Body d) = dyn_hint x d"
| "body_size_hint x (HttpSync d) = dyn_hint x d"
| "body_size_hint x (Incoming b) = b_hint x b"
| "body_size_hint x (AxumBody b) = b_hint x b"

definition body_ops_of :: "('b, 't, 'e) body_ops \<Rightarrow> ('b body, 't, 'e) body_ops" where
  "body_ops_of x = \<lparr>b_poll = body_poll_frame x, b_end = body_is_end_stream x, b_hint = body_size_hint x\<rparr>"


definition dyn_ops_of :: "('b, 't, 'e) body_ops \<Rightarrow> ('b dyn_body, 't, 'e) body_ops" where
  "dyn_ops_of x = \<lparr>b_poll = dyn_poll x, b_end = dyn_end x, b_hint = dyn_hint x\<rparr>"

fun dyn_rest :: "('b \<Rightarrow> 't frame list) \<Rightarrow> 'b dyn_body \<Rightarrow> 't frame list" where
  "dyn_rest r Dyn_Empty = []"
| "dyn_rest r (Dyn_Full f) = full_rest f"
| "dyn_rest r (Dyn_Ext b) = r b"
| "dyn_rest r (Dyn_Box d) = dyn_rest r d"

fun body_rest :: "('b \<Rightarrow> 't frame list) \<Rightarrow> 'b body \<Rightarrow> 't frame list" where
  "body_rest r Empty_Body = []"
| "body_rest r (Full_Body f) = full_rest f"
| "body_rest r (Boxed d) = dyn_rest r d"
| "body_rest r (Http_Body d) = dyn_rest r d"
| "body_rest r (HttpSync d) = dyn_rest r d"
| "body_rest r (Incoming b) = r b"
| "body_rest r (AxumBody b) = r b"

lemma lift_poll_eq: "lift_poll c p = (r, d) \<longleftrightarrow> (\<exists>s. p = (r, s) \<and> d = c s)"
  by (cases p) (auto simp: lift_poll_def)

lemma full_poll_rest:
  "full_poll f = (r, f') \<Longrightarrow> (case r of
     Ready None \<Rightarrow> full_rest f = ([] :: 't frame list) \<and> full_rest f' = ([] :: 't frame list)
   | Ready (Some (Inr fr)) \<Rightarrow> full_rest f = (fr :: 't frame) # full_rest f'
   | Ready (Some (Inl (e :: 'e))) \<Rightarrow> False | Pending \<Rightarrow> False | Panicked \<Rightarrow> False)"
  by (cases f) (auto simp: full_rest_def)

lemma full_hint_rest: "full_hint f = with_exact n \<Longrightarrow> length (concat (map frame_bytes (full_rest f))) = n"
  by (cases f) (auto simp: full_rest_def)

text \<open>Each law of a boxed body, from the laws of the bodies it may hold.\<close>

lemma dyn_poll_rest:
  assumes "http_body x r" and "dyn_poll x d = (p, d')"
  shows "(p = Ready None \<longrightarrow> dyn_rest r d = [] \<and> dyn_rest r d' = []) \<and>
    (\<forall>f. p = Ready (Some (Inr f)) \<longrightarrow> dyn_rest r d = f # dyn_rest r d') \<and>
    (p = Pending \<longrightarrow> dyn_rest r d' = dyn_rest r d)"
  using assms(2)
proof (induction d arbitrary: d')
  case (Dyn_Ext b)
  with http_body.poll_none [OF assms(1)] http_body.poll_frame [OF assms(1)] http_body.poll_wait [OF assms(1)]
  show ?case by (auto simp: lift_poll_eq)
qed (auto simp: lift_poll_eq dest!: full_poll_rest)

lemma dyn_end_rest: "http_body x r \<Longrightarrow> dyn_end x d \<Longrightarrow> dyn_rest r d = []"
  by (induction d) (auto simp: full_rest_def http_body.ended)

lemma dyn_hint_rest:
  "http_body x r \<Longrightarrow> dyn_hint x d = with_exact n \<Longrightarrow> length (concat (map frame_bytes (dyn_rest r d))) = n"
  by (induction d) (auto simp: full_hint_rest http_body.exact)

lemma dyn_http_body: "http_body x r \<Longrightarrow> http_body (dyn_ops_of x) (dyn_rest r)"
  by (rule http_body.intro) (auto simp: dyn_ops_of_def dyn_end_rest dyn_hint_rest dest: dyn_poll_rest)

lemma body_poll_rest:
  assumes "http_body x r" and "body_poll_frame x b = (p, b')"
  shows "(p = Ready None \<longrightarrow> body_rest r b = [] \<and> body_rest r b' = []) \<and>
    (\<forall>f. p = Ready (Some (Inr f)) \<longrightarrow> body_rest r b = f # body_rest r b') \<and>
    (p = Pending \<longrightarrow> body_rest r b' = body_rest r b)"
  using assms(2) dyn_poll_rest [OF assms(1)] http_body.poll_none [OF assms(1)] http_body.poll_frame [OF assms(1)]
    http_body.poll_wait [OF assms(1)]
  by (cases b) (auto simp: lift_poll_eq dest!: full_poll_rest)

lemma body_http_body: "http_body x r \<Longrightarrow> http_body (body_ops_of x) (body_rest r)"
proof (rule http_body.intro, goal_cases)
  case (4 b)
  then show ?case by (cases b) (auto simp: body_ops_of_def dyn_end_rest full_rest_def http_body.ended)
next
  case (5 b n)
  then show ?case by (cases b) (auto simp: body_ops_of_def dyn_hint_rest full_hint_rest http_body.exact)
qed (auto simp: body_ops_of_def dest: body_poll_rest)

text \<open>The program's bodies over bodies of one piece, with all they may be boxed in.\<close>

interpretation dyn: http_body "dyn_ops_of full_ops" "dyn_rest full_rest"
  by (rule dyn_http_body) (rule full.http_body_axioms)

interpretation body: http_body "body_ops_of full_ops" "body_rest full_rest"
  by (rule body_http_body) (rule full.http_body_axioms)

section \<open>Boxing changes nothing that can be observed\<close>

text \<open>What \<open>n\<close> polls of a body show: its end flag and size hint before each, and the answers.\<close>

fun observe :: "('b, 't, 'e) body_ops \<Rightarrow> nat \<Rightarrow> 'b \<Rightarrow> (bool \<times> size_hint \<times> ('e + 't frame) option poll) list" where
  "observe x 0 b = []"
| "observe x (Suc n) b = (b_end x b, b_hint x b, fst (b_poll x b)) # observe x n (snd (b_poll x b))"

definition seen_as :: "('b, 't, 'e) body_ops \<Rightarrow> 'b body \<Rightarrow> 'b dyn_body \<Rightarrow> bool" where
  "seen_as x b d \<longleftrightarrow> (\<forall>n. observe (dyn_ops_of x) n d = observe (body_ops_of x) n b)"

lemma observe_box: "observe (dyn_ops_of x) n (Dyn_Box d) = observe (dyn_ops_of x) n d"
  by (induction n arbitrary: d) (auto simp: dyn_ops_of_def lift_poll_def)

lemma observe_boxed:
  "observe (body_ops_of x) n (Boxed d) = observe (dyn_ops_of x) n d"
  "observe (body_ops_of x) n (Http_Body d) = observe (dyn_ops_of x) n d"
  "observe (body_ops_of x) n (HttpSync d) = observe (dyn_ops_of x) n d"
  by (induction n arbitrary: d) (auto simp: dyn_ops_of_def body_ops_of_def lift_poll_def)

lemma observe_ext:
  "observe (body_ops_of x) n (Incoming b) = observe (dyn_ops_of x) n (Dyn_Ext b)"
  "observe (body_ops_of x) n (AxumBody b) = observe (dyn_ops_of x) n (Dyn_Ext b)"
  by (induction n arbitrary: b) (auto simp: dyn_ops_of_def body_ops_of_def lift_poll_def)

lemma observe_full:
  "observe (body_ops_of x) n (Full_Body f) = observe (dyn_ops_of x) n (Dyn_Full f)"
  "observe (body_ops_of x) n Empty_Body = observe (dyn_ops_of x) n Dyn_Empty"
  by (induction n arbitrary: f) (auto simp: dyn_ops_of_def body_ops_of_def lift_poll_def)

lemma observe_as_boxed: "observe (dyn_ops_of x) n (body_as_boxed b) = observe (body_ops_of x) n b"
  by (cases b) (simp_all add: observe_box observe_boxed observe_ext observe_full)

section \<open>Services and adapters (service/)\<close>

text \<open>A \<open>tower::Service\<close>: its readiness, its call, and one poll of the future of a call.\<close>

record ('s, 'req, 'f, 'rsp, 'e) service =
  s_ready :: "'s \<Rightarrow> ('e + unit) poll \<times> 's"
  s_call :: "'s \<Rightarrow> 'req \<Rightarrow> 'f \<times> 's"
  s_fpoll :: "'f \<Rightarrow> ('e + 'rsp) poll \<times> 'f"

record 'b request =
  rq_method :: string
  rq_uri :: uri
  rq_version :: version
  rq_headers :: "(string \<times> string) list"
  rq_extensions :: "string list"
  rq_body :: 'b

record 'b response =
  rs_status :: nat
  rs_headers :: "(string \<times> string) list"
  rs_body :: 'b

definition request_map :: "('a \<Rightarrow> 'b) \<Rightarrow> 'a request \<Rightarrow> 'b request" where
  "request_map f r = \<lparr>rq_method = rq_method r, rq_uri = rq_uri r, rq_version = rq_version r,
     rq_headers = rq_headers r, rq_extensions = rq_extensions r, rq_body = f (rq_body r)\<rparr>"

definition response_map :: "('a \<Rightarrow> 'b) \<Rightarrow> 'a response \<Rightarrow> 'b response" where
  "response_map f r = \<lparr>rs_status = rs_status r, rs_headers = rs_headers r, rs_body = f (rs_body r)\<rparr>"

text \<open>\<open>AdaptCustomBodyService\<close>: the request's body boxed, the response's made a \<open>Body\<close>.\<close>

definition adapt_body_future_poll ::
  "('out \<Rightarrow> 'b any_body) \<Rightarrow> ('f \<Rightarrow> ('e + 'out response) poll \<times> 'f) \<Rightarrow> 'f \<Rightarrow> ('e + 'b body response) poll \<times> 'f" where
  "adapt_body_future_poll as_any fpoll inner =
     (let (r, inner') = fpoll inner
      in (map_ready (map_sum id (response_map (\<lambda>res. body_new (as_any res)))) r, inner'))"

definition adapt_custom_body ::
  "('b dyn_body \<Rightarrow> 'in) \<Rightarrow> ('out \<Rightarrow> 'b any_body) \<Rightarrow> ('s, 'in request, 'f, 'out response, 'e) service
     \<Rightarrow> ('s, 'b body request, 'f, 'b body response, 'e) service" where
  "adapt_custom_body into as_any inner =
     \<lparr>s_ready = s_ready inner,
      s_call = (\<lambda>s req. s_call inner s (request_map (\<lambda>b. into (body_as_boxed b)) req)),
      s_fpoll = adapt_body_future_poll as_any (s_fpoll inner)\<rparr>"

text \<open>\<open>AdaptOuterBodyService\<close>: any body into a \<open>Body\<close>, the response's body transformed.\<close>

definition adapt_outer_future_poll ::
  "('b body \<Rightarrow> 'out) \<Rightarrow> ('f \<Rightarrow> ('e + 'b body response) poll \<times> 'f) \<Rightarrow> 'f \<Rightarrow> ('e + 'out response) poll \<times> 'f" where
  "adapt_outer_future_poll transform fpoll inner =
     (case fpoll inner of
        (Ready (Inr res), inner') \<Rightarrow> (Ready (Inr (response_map transform res)), inner')
      | (Ready (Inl err), inner') \<Rightarrow> (Ready (Inl err), inner')
      | (Pending, inner') \<Rightarrow> (Pending, inner')
      | (Panicked, inner') \<Rightarrow> (Panicked, inner'))"

definition adapt_outer_body ::
  "('in \<Rightarrow> 'b body) \<Rightarrow> ('b body \<Rightarrow> 'out) \<Rightarrow> ('s, 'b body request, 'f, 'b body response, 'e) service
     \<Rightarrow> ('s, 'in request, 'f, 'out response, 'e) service" where
  "adapt_outer_body into transform inner =
     \<lparr>s_ready = s_ready inner,
      s_call = (\<lambda>s req. s_call inner s (request_map into req)),
      s_fpoll = adapt_outer_future_poll transform (s_fpoll inner)\<rparr>"

text \<open>\<open>AdaptIncomingService\<close>: hyper's incoming body into a \<open>Body\<close>.\<close>

definition adapt_incoming ::
  "('s, 'b body request, 'f, 'rsp, 'e) service \<Rightarrow> ('s, 'b request, 'f, 'rsp, 'e) service" where
  "adapt_incoming inner =
     \<lparr>s_ready = s_ready inner,
      s_call = (\<lambda>s req. s_call inner s (request_map body_from_incoming req)),
      s_fpoll = s_fpoll inner\<rparr>"

text \<open>
  \<open>SharedService\<close>: the service behind a box whose futures are boxed, and a clone of it made by
  cloning what is in the box. The blanket \<open>HttpService\<close> passes both methods on.
\<close>

definition shared_service :: "('s, 'req, 'f, 'rsp, 'e) service \<Rightarrow> ('s, 'req, 'f, 'rsp, 'e) service" where
  "shared_service inner =
     \<lparr>s_ready = (\<lambda>s. s_ready inner s), s_call = (\<lambda>s req. s_call inner s req), s_fpoll = s_fpoll inner\<rparr>"

definition shared_clone :: "('s \<Rightarrow> 's) \<Rightarrow> 's \<Rightarrow> 's" where
  "shared_clone clone_box s = clone_box s"

definition http_service :: "('s, 'b request, 'f, 'c response, 'e) service \<Rightarrow> ('s, 'b request, 'f, 'c response, 'e) service" where
  "http_service inner =
     \<lparr>s_ready = (\<lambda>s. s_ready inner s), s_call = (\<lambda>s req. s_call inner s req), s_fpoll = s_fpoll inner\<rparr>"

text \<open>
  Makers of services (service/make.rs): a service whose request is a reference to the
  connection. \<open>make_service_fn\<close> wraps a function, which may change what it captured.
\<close>

definition make_service_fn ::
  "('s \<Rightarrow> 'target \<Rightarrow> 'f \<times> 's) \<Rightarrow> ('f \<Rightarrow> ('e + 'svc) poll \<times> 'f) \<Rightarrow> ('s, 'target, 'f, 'svc, 'e) service" where
  "make_service_fn f fpoll =
     \<lparr>s_ready = (\<lambda>s. (Ready (Inr ()), s)), s_call = (\<lambda>s target. f s target), s_fpoll = fpoll\<rparr>"

definition make_service_ref :: "('s, 'target, 'f, 'svc, 'e) service \<Rightarrow> ('s, 'target, 'f, 'svc, 'e) service" where
  "make_service_ref inner =
     \<lparr>s_ready = (\<lambda>s. s_ready inner s), s_call = (\<lambda>s target. s_call inner s target), s_fpoll = s_fpoll inner\<rparr>"

definition box_make_service :: "('s, 'target, 'f, 'svc, 'e) service \<Rightarrow> ('s, 'target, 'f, 'svc, 'e) service" where
  "box_make_service inner =
     \<lparr>s_ready = (\<lambda>s. s_ready inner s), s_call = (\<lambda>s target. s_call inner s target), s_fpoll = s_fpoll inner\<rparr>"

definition box_make_service_layer ::
  "('in \<Rightarrow> ('s, 'target, 'f, 'svc, 'e) service) \<Rightarrow> 'in \<Rightarrow> ('s, 'target, 'f, 'svc, 'e) service" where
  "box_make_service_layer inner_layer inner = box_make_service (inner_layer inner)"

text \<open>\<open>ServiceRef::call\<close> calls without asking for readiness.\<close>

definition service_ref_call :: "('s, 'io, 'f, 'rsp, 'e) service \<Rightarrow> 's \<Rightarrow> 'io \<Rightarrow> 'f \<times> 's" where
  "service_ref_call svc s stream = s_call svc s stream"

text \<open>\<open>TowerHyperService::call\<close> takes the service by reference and calls a clone of it.\<close>

definition tower_hyper_call :: "('s \<Rightarrow> 's) \<Rightarrow> ('s \<Rightarrow> 'req \<Rightarrow> 'f) \<Rightarrow> 's \<Rightarrow> 'req \<Rightarrow> 'f \<times> 's" where
  "tower_hyper_call clone oneshot s req = (oneshot (clone s) req, s)"

definition tower_hyper_poll :: "('f \<Rightarrow> ('e + 'rsp) poll \<times> 'f) \<Rightarrow> 'f \<Rightarrow> ('e + 'rsp) poll \<times> 'f" where
  "tower_hyper_poll fpoll f = fpoll f"

section \<open>Retries (service/retry.rs)\<close>

datatype attempts = Attempts usize

text \<open>\<open>self.0 - 1\<close>, which panics at 0 when overflow is checked and wraps when it is not.\<close>

definition usize_pred :: "bool \<Rightarrow> usize \<Rightarrow> usize run" where
  "usize_pred checked n = (if n = 0 \<and> checked then Panic else Return (n - 1))"

definition is_server_error :: "nat \<Rightarrow> bool" where
  "is_server_error status = (500 \<le> status \<and> status < 600)"

fun attempts_retry :: "bool \<Rightarrow> attempts \<Rightarrow> 'e + 'b response \<Rightarrow> attempts option run" where
  "attempts_retry checked (Attempts n) result =
     (case result of
        Inr res \<Rightarrow>
          (if is_server_error (rs_status res)
           then run_bind (usize_pred checked n) (\<lambda>m. Return (Some (Attempts m)))
           else Return None)
      | Inl _ \<Rightarrow>
          (if n > 0 then run_bind (usize_pred checked n) (\<lambda>m. Return (Some (Attempts m)))
           else Return None))"

definition attempts_clone_request :: "'b body request \<Rightarrow> 'b body request option" where
  "attempts_clone_request req =
     (case body_try_clone (rq_body req) of
        Some body \<Rightarrow>
          Some \<lparr>rq_method = rq_method req, rq_uri = rq_uri req, rq_version = rq_version req,
                rq_headers = rq_headers req, rq_extensions = [], rq_body = body\<rparr>
      | None \<Rightarrow> None)"

text \<open>
  The policy over the outcomes of successive calls: how many of them are retried, until it
  declines, the outcomes end, or it panics.
\<close>

fun retries :: "bool \<Rightarrow> attempts \<Rightarrow> ('e + 'b response) list \<Rightarrow> nat run" where
  "retries checked a [] = Return 0"
| "retries checked a (r # rs) =
     run_bind (attempts_retry checked a r) (\<lambda>oa.
       case oa of None \<Rightarrow> Return 0
       | Some a' \<Rightarrow> run_bind (retries checked a' rs) (\<lambda>k. Return (Suc k)))"


lemma unat_pred: "n \<noteq> 0 \<Longrightarrow> unat n = Suc (unat (n - 1))" for n :: usize
  using unat_minus_one [of n] by (simp add: unat_gt_0)

lemma retries_errors: "retries checked (Attempts n) (map Inl es) = Return (min (unat n) (length es))"
proof (induction es arbitrary: n)
  case (Cons e es)
  show ?case
  proof (cases "n = 0")
    case False
    then have "unat n = Suc (unat (n - 1))" by (rule unat_pred)
    with False Cons.IH [of "n - 1"] show ?thesis by (simp add: usize_pred_def word_gt_0)
  qed simp
qed simp

lemma retries_unchecked:
  "list_all (\<lambda>r. is_server_error (rs_status r)) rs \<Longrightarrow>
     retries False (Attempts n) (map Inr rs :: ('e + 'b response) list) = Return (length rs)"
  by (induction rs arbitrary: n) (auto simp: usize_pred_def)

lemma retries_checked:
  "list_all (\<lambda>r. is_server_error (rs_status r)) rs \<Longrightarrow> unat n < length rs \<Longrightarrow>
     retries True (Attempts n) (map Inr rs :: ('e + 'b response) list) = Panic"
proof (induction rs arbitrary: n)
  case (Cons r rs)
  show ?case
  proof (cases "n = 0")
    case True
    with Cons.prems show ?thesis by (simp add: usize_pred_def)
  next
    case False
    then have "unat n = Suc (unat (n - 1))" by (rule unat_pred)
    with Cons.IH [of "n - 1"] Cons.prems False show ?thesis by (simp add: usize_pred_def)
  qed
qed simp

section \<open>Properties\<close>

text \<open>Boxing a body, making a \<open>Body\<close> of the box, and passing a \<open>Body\<close> to \<open>Body::new\<close>
  change nothing that polling it, its end flag or its size hint can show.\<close>

theorem body_boxing:
  "observe (dyn_ops_of x) n (body_as_boxed b) = observe (body_ops_of x) n b \<and>
   observe (body_ops_of x) n (body_from_unsync (body_as_boxed b)) = observe (body_ops_of x) n b \<and>
   observe (body_ops_of x) n (body_from_box (body_as_boxed b)) = observe (body_ops_of x) n b \<and>
   observe (body_ops_of x) n (body_from_boxbody (body_as_boxed b)) = observe (body_ops_of x) n b \<and>
   body_new (Is_Body b) = b"
  by (simp add: observe_as_boxed observe_boxed body_from_unsync_def body_from_box_def body_from_boxbody_def body_new_def)

text \<open>A body made from bytes, a string or a literal has the exact size, is at its end
  exactly when empty, delivers the text in one frame and then ends.\<close>

theorem body_from_text:
  "observe (body_ops_of x) 2 (body_from_bytes s) =
     (if s = [] then [(True, with_exact 0, Ready None), (True, with_exact 0, Ready None)]
      else [(False, with_exact (length s), Ready (Some (Inr (Data s)))), (True, with_exact 0, Ready None)]) \<and>
   observe (body_ops_of x) 2 (body_from_string s) = observe (body_ops_of x) 2 (body_from_bytes s) \<and>
   observe (body_ops_of x) 2 (body_from_str s) = observe (body_ops_of x) 2 (body_from_bytes s)"
  by (simp add: numeral_2_eq_2 body_ops_of_def body_from_bytes_def body_from_string_def inner_from_string_def
      body_from_str_def full_new_def lift_poll_def)

text \<open>A request is cloned for a retry exactly when its body is of one piece or empty;
  the clone has its method, URI, version, headers and body, and none of its extensions.\<close>

theorem clone_request_replays:
  "attempts_clone_request req =
     (if (\<exists>f. rq_body req = Full_Body f) \<or> rq_body req = Empty_Body
      then Some (req\<lparr>rq_extensions := []\<rparr>) else None)"
  by (cases "rq_body req") (auto simp: attempts_clone_request_def)



end
