(* ===== verification/Client_Proto.thy ===== *)
theory Client_Proto
  imports Transport Body Checkout
begin

text \<open>
  The client's protocols: \<open>client/conn/protocol/mod.rs\<close> (the flavours of HTTP and hyper's two
  builders as services), \<open>auto.rs\<close> (the builder that chooses between them) and \<open>mock.rs\<close>,
  with the sending side of \<open>client/conn/connection.rs\<close>. Hyper's handshakes and senders are
  parameters; the drivers that the code spawns are returned as a list.
\<close>

section \<open>Flavours of HTTP\<close>

datatype http_proto = Http1 | Http2

fun proto_multiplex :: "http_proto \<Rightarrow> bool" where
  "proto_multiplex Http2 = True"
| "proto_multiplex Http1 = False"

fun proto_version :: "http_proto \<Rightarrow> version" where
  "proto_version Http1 = HTTP_11"
| "proto_version Http2 = HTTP_2"

fun proto_from_version :: "version \<Rightarrow> http_proto run" where
  "proto_from_version HTTP_11 = Return Http1"
| "proto_from_version HTTP_10 = Return Http1"
| "proto_from_version HTTP_2 = Return Http2"
| "proto_from_version _ = Panic"

lemma proto_version_roundtrip: "proto_from_version (proto_version p) = Return p"
  by (cases p) simp_all

text \<open>\<open>'x\<close> stands for the boxed errors.\<close>

datatype 'x conn_error =
  Connect_Failed 'x | Handshake_Failed 'x | Canceled 'x | Conn_Closed 'x | Conn_Timeout | Invalid_Uri uri_error

record ('io, 'a) protocol_request =
  pr_transport :: "('io, 'a) transport_stream"
  pr_version :: http_proto

text \<open>The blanket \<open>Protocol\<close> of a service of such requests: \<open>connect\<close> calls it.\<close>

definition protocol_connect ::
  "('p, ('io, 'a) protocol_request, 'f, 'c, 'e) service \<Rightarrow> 'p \<Rightarrow> ('io, 'a) transport_stream \<Rightarrow> http_proto \<Rightarrow> 'f \<times> 'p" where
  "protocol_connect svc p transport version = s_call svc p \<lparr>pr_transport = transport, pr_version = version\<rparr>"

section \<open>Hyper's builders\<close>

text \<open>
  A builder \<open>'b\<close> of hyper starts a handshake \<open>'f\<close> on a stream; it ends with a sender and the
  driver of the connection. The future around it is an \<open>async\<close> block, which panics when it is
  polled after its end.
\<close>

record ('b, 'io, 'f, 'h, 'd, 'e) hyper_conn =
  hc_handshake :: "'b \<Rightarrow> 'io \<Rightarrow> 'f"
  hc_poll :: "'f \<Rightarrow> ('e + 'h \<times> 'd) poll \<times> 'f"

datatype 'f async_handshake = Shaking 'f | Shaken

fun handshake_poll ::
  "('b, 'io, 'f, 'h, 'd, 'e) hyper_conn \<Rightarrow> ('h \<Rightarrow> 'c) \<Rightarrow> 'f async_handshake
     \<Rightarrow> ('e conn_error + 'c) poll \<times> 'f async_handshake \<times> 'd list" where
  "handshake_poll hy mk (Shaking f) =
     (case hc_poll hy f of
        (Ready (Inr (sender, conn)), f') \<Rightarrow> (Ready (Inr (mk sender)), Shaken, [conn])
      | (Ready (Inl err), f') \<Rightarrow> (Ready (Inl (Handshake_Failed err)), Shaken, [])
      | (Pending, f') \<Rightarrow> (Pending, Shaking f', [])
      | (Panicked, f') \<Rightarrow> (Panicked, Shaken, []))"
| "handshake_poll hy mk Shaken = (Panicked, Shaken, [])"

definition http1_builder_ready :: "'b \<Rightarrow> ('e conn_error + unit) poll \<times> 'b" where
  "http1_builder_ready builder = (Ready (Inr ()), builder)"

definition http1_builder_call ::
  "('b, 'io, 'f, 'h, 'd, 'e) hyper_conn \<Rightarrow> 'b \<Rightarrow> ('io, 'a) protocol_request \<Rightarrow> 'f async_handshake \<times> 'b" where
  "http1_builder_call hy builder req = (Shaking (hc_handshake hy builder (ts_stream (pr_transport req))), builder)"

definition http1_builder_poll ::
  "('b, 'io, 'f, 'h1, 'd, 'e) hyper_conn \<Rightarrow> 'f async_handshake
     \<Rightarrow> ('e conn_error + ('h1, 'h2) http_connection) poll \<times> 'f async_handshake \<times> 'd list" where
  "http1_builder_poll hy = handshake_poll hy H1"

definition http2_builder_ready :: "'b \<Rightarrow> ('e conn_error + unit) poll \<times> 'b" where
  "http2_builder_ready builder = (Ready (Inr ()), builder)"

definition http2_builder_call ::
  "('b, 'io, 'f, 'h, 'd, 'e) hyper_conn \<Rightarrow> 'b \<Rightarrow> ('io, 'a) protocol_request \<Rightarrow> 'f async_handshake \<times> 'b" where
  "http2_builder_call hy builder req = (Shaking (hc_handshake hy builder (ts_stream (pr_transport req))), builder)"

definition http2_builder_poll ::
  "('b, 'io, 'f, 'h2, 'd, 'e) hyper_conn \<Rightarrow> 'f async_handshake
     \<Rightarrow> ('e conn_error + ('h1, 'h2) http_connection) poll \<times> 'f async_handshake \<times> 'd list" where
  "http2_builder_poll hy = handshake_poll hy H2"

section \<open>The automatic builder (protocol/auto.rs)\<close>

record ('b1, 'b2) http_builder =
  hb_http1 :: 'b1
  hb_http2 :: 'b2

definition http_builder_default :: "'b1 \<Rightarrow> 'b2 \<Rightarrow> ('b1, 'b2) http_builder" where
  "http_builder_default http1_new http2_new = \<lparr>hb_http1 = http1_new, hb_http2 = http2_new\<rparr>"

text \<open>\<open>HttpConnectFuture\<close>: \<open>handshake\<close> as an \<open>async\<close> block, with the builder it captured.\<close>

datatype ('b1, 'b2, 'io, 'a, 'f1, 'f2) http_connect =
  Connect_Start "('b1, 'b2) http_builder" "('io, 'a) transport_stream" http_proto
| Connect_H1 "'f1 async_handshake"
| Connect_H2 "'f2 async_handshake"

definition handshake_h1 ::
  "('b1, 'io, 'f1, 'h1, 'd, 'e) hyper_conn \<Rightarrow> ('b1, 'b2) http_builder \<Rightarrow> 'io \<Rightarrow> ('b1, 'b2, 'io, 'a, 'f1, 'f2) http_connect" where
  "handshake_h1 hy builder stream = Connect_H1 (Shaking (hc_handshake hy (hb_http1 builder) stream))"

definition handshake_h2 ::
  "('b2, 'io, 'f2, 'h2, 'd, 'e) hyper_conn \<Rightarrow> ('b1, 'b2) http_builder \<Rightarrow> 'io \<Rightarrow> ('b1, 'b2, 'io, 'a, 'f1, 'f2) http_connect" where
  "handshake_h2 hy builder stream = Connect_H2 (Shaking (hc_handshake hy (hb_http2 builder) stream))"

definition alpn_h2 :: "('io, 'a) transport_stream \<Rightarrow> bool" where
  "alpn_h2 transport = (Option.bind (ts_tls transport) alpn = Some (Http HTTP_2))"

definition http_handshake ::
  "('b1, 'io, 'f1, 'h1, 'd, 'e) hyper_conn \<Rightarrow> ('b2, 'io, 'f2, 'h2, 'd, 'e) hyper_conn \<Rightarrow> ('b1, 'b2) http_builder
     \<Rightarrow> ('io, 'a) transport_stream \<Rightarrow> http_proto \<Rightarrow> ('b1, 'b2, 'io, 'a, 'f1, 'f2) http_connect" where
  "http_handshake hy1 hy2 builder transport protocol =
     (case protocol of
        Http2 \<Rightarrow> handshake_h2 hy2 builder (ts_stream transport)
      | Http1 \<Rightarrow>
          (if alpn_h2 transport then handshake_h2 hy2 builder (ts_stream transport)
           else handshake_h1 hy1 builder (ts_stream transport)))"

fun http_connect_running ::
  "('b1, 'io, 'f1, 'h1, 'd, 'e) hyper_conn \<Rightarrow> ('b2, 'io, 'f2, 'h2, 'd, 'e) hyper_conn
     \<Rightarrow> ('b1, 'b2, 'io, 'a, 'f1, 'f2) http_connect
     \<Rightarrow> ('e conn_error + ('h1, 'h2) http_connection) poll \<times> ('b1, 'b2, 'io, 'a, 'f1, 'f2) http_connect \<times> 'd list" where
  "http_connect_running hy1 hy2 (Connect_H1 f) =
     (let (r, f', spawned) = handshake_poll hy1 H1 f in (r, Connect_H1 f', spawned))"
| "http_connect_running hy1 hy2 (Connect_H2 f) =
     (let (r, f', spawned) = handshake_poll hy2 H2 f in (r, Connect_H2 f', spawned))"
| "http_connect_running hy1 hy2 (Connect_Start builder transport protocol) =
     (Pending, Connect_Start builder transport protocol, [])"

text \<open>The first poll starts a handshake and polls it at once.\<close>

fun http_connect_poll ::
  "('b1, 'io, 'f1, 'h1, 'd, 'e) hyper_conn \<Rightarrow> ('b2, 'io, 'f2, 'h2, 'd, 'e) hyper_conn
     \<Rightarrow> ('b1, 'b2, 'io, 'a, 'f1, 'f2) http_connect
     \<Rightarrow> ('e conn_error + ('h1, 'h2) http_connection) poll \<times> ('b1, 'b2, 'io, 'a, 'f1, 'f2) http_connect \<times> 'd list" where
  "http_connect_poll hy1 hy2 (Connect_Start builder transport protocol) =
     http_connect_running hy1 hy2 (http_handshake hy1 hy2 builder transport protocol)"
| "http_connect_poll hy1 hy2 (Connect_H1 f) = http_connect_running hy1 hy2 (Connect_H1 f)"
| "http_connect_poll hy1 hy2 (Connect_H2 f) = http_connect_running hy1 hy2 (Connect_H2 f)"

definition http_builder_ready :: "('b1, 'b2) http_builder \<Rightarrow> ('e conn_error + unit) poll \<times> ('b1, 'b2) http_builder" where
  "http_builder_ready builder = (Ready (Inr ()), builder)"

definition http_builder_call ::
  "('b1, 'b2) http_builder \<Rightarrow> ('io, 'a) protocol_request
     \<Rightarrow> ('b1, 'b2, 'io, 'a, 'f1, 'f2) http_connect \<times> ('b1, 'b2) http_builder" where
  "http_builder_call builder req = (Connect_Start builder (pr_transport req) (pr_version req), builder)"

lemma surjective_pairing3: "p = (fst p, fst (snd p), snd (snd p))"
  by simp

text \<open>The flavour that the first poll settles is kept.\<close>

definition flavour_ok :: "bool \<Rightarrow> ('b1, 'b2, 'io, 'a, 'f1, 'f2) http_connect \<Rightarrow> bool" where
  "flavour_ok h2 f = (case f of
     Connect_Start b transport p \<Rightarrow> h2 = (p = Http2 \<or> alpn_h2 transport)
   | Connect_H1 _ \<Rightarrow> \<not> h2
   | Connect_H2 _ \<Rightarrow> h2)"

lemma handshake_poll_made:
  "handshake_poll hy mk f = (r, f', ds) \<Longrightarrow>
     (\<forall>c. r = Ready (Inr c) \<longrightarrow> (\<exists>h. c = mk h) \<and> length ds = 1) \<and> ((\<nexists>c. r = Ready (Inr c)) \<longrightarrow> ds = [])"
  by (cases f) (auto split: prod.splits poll.splits sum.splits)

lemma handshake_flavour: "flavour_ok (p = Http2 \<or> alpn_h2 t) (http_handshake hy1 hy2 b t p)"
  by (cases p) (simp_all add: flavour_ok_def http_handshake_def handshake_h1_def handshake_h2_def)

lemma connect_flavour:
  assumes "flavour_ok h2 f" and "http_connect_poll hy1 hy2 f = (r, f', ds)"
  shows "flavour_ok h2 f'"
    and "r = Ready (Inr c) \<Longrightarrow> http_version c = (if h2 then HTTP_2 else HTTP_11) \<and> length ds = 1"
proof -
  have run: "flavour_ok h2 g' \<and> (\<forall>c. r = Ready (Inr c) \<longrightarrow>
      http_version c = (if h2 then HTTP_2 else HTTP_11) \<and> length ds = 1)"
    if "flavour_ok h2 g" "http_connect_running hy1 hy2 g = (r, g', ds)" for g g'
    using that by (cases g) (auto simp: flavour_ok_def split: prod.splits dest!: handshake_poll_made)
  have "flavour_ok h2 f' \<and> (\<forall>c. r = Ready (Inr c) \<longrightarrow>
      http_version c = (if h2 then HTTP_2 else HTTP_11) \<and> length ds = 1)"
  proof (cases f)
    case (Connect_Start b t p)
    with assms(1) have "h2 = (p = Http2 \<or> alpn_h2 t)" by (simp add: flavour_ok_def)
    with assms(2) Connect_Start handshake_flavour [of p t hy1 hy2 b] run show ?thesis by auto
  next
    case (Connect_H1 g)
    with run [of f f'] assms show ?thesis by simp
  next
    case (Connect_H2 g)
    with run [of f f'] assms show ?thesis by simp
  qed
  then show "flavour_ok h2 f'"
    and "r = Ready (Inr c) \<Longrightarrow> http_version c = (if h2 then HTTP_2 else HTTP_11) \<and> length ds = 1" by auto
qed

section \<open>Connections that send (connection.rs, protocol/mock.rs)\<close>

text \<open>
  The trait \<open>Connection\<close>: its version, the future of a request it sends, and its readiness.
\<close>

record ('c, 'b, 'sf, 'r, 'h) connection_ops =
  c_version :: "'c \<Rightarrow> version"
  c_send :: "'c \<Rightarrow> 'b body request \<Rightarrow> 'sf"
  c_fpoll :: "'sf \<Rightarrow> ('h + 'r response) poll \<times> 'sf"
  c_ready :: "'c \<Rightarrow> ('h + unit) poll"

definition http_send_request ::
  "('h1 \<Rightarrow> 'b body request \<Rightarrow> 'sf) \<Rightarrow> ('h2 \<Rightarrow> 'b body request \<Rightarrow> 'sf) \<Rightarrow> ('h1, 'h2) http_connection
     \<Rightarrow> 'b body request \<Rightarrow> 'sf" where
  "http_send_request send1 send2 c request =
     (case c of
        H2 conn \<Rightarrow> send2 conn (request\<lparr>rq_version := http_send_version c (rq_version request)\<rparr>)
      | H1 conn \<Rightarrow> send1 conn (request\<lparr>rq_version := http_send_version c (rq_version request)\<rparr>))"

definition http_poll_ready ::
  "('h1 \<Rightarrow> ('h + unit) poll) \<Rightarrow> ('h2 \<Rightarrow> ('h + unit) poll) \<Rightarrow> ('h1, 'h2) http_connection \<Rightarrow> ('h + unit) poll" where
  "http_poll_ready ready1 ready2 c = (case c of H2 conn \<Rightarrow> ready2 conn | H1 conn \<Rightarrow> ready1 conn)"

text \<open>\<open>std::future::Ready\<close> holds its value until it is polled, and panics afterwards.\<close>

fun ready_poll :: "'r option \<Rightarrow> 'r poll \<times> 'r option" where
  "ready_poll (Some r) = (Ready r, None)"
| "ready_poll None = (Panicked, None)"

definition mock_sender_send :: "unit \<Rightarrow> 'b body request \<Rightarrow> ('h + 'b body response) option" where
  "mock_sender_send s request = Some (Inr \<lparr>rs_status = 200, rs_headers = [], rs_body = rq_body request\<rparr>)"

definition mock_sender_connection :: "(unit, 'b, ('h + 'b body response) option, 'b body, 'h) connection_ops" where
  "mock_sender_connection =
     \<lparr>c_version = (\<lambda>_. HTTP_11), c_send = mock_sender_send, c_fpoll = ready_poll, c_ready = (\<lambda>_. Ready (Inr ()))\<rparr>"

definition mock_protocol_service ::
  "(unit, (mock_stream, 'a) protocol_request, ('x conn_error + unit) option, unit, 'x conn_error) service" where
  "mock_protocol_service =
     \<lparr>s_ready = (\<lambda>p. (Ready (Inr ()), p)), s_call = (\<lambda>p req. (Some (Inr ()), p)), s_fpoll = ready_poll\<rparr>"

section \<open>Properties\<close>

text \<open>Whatever happens on the way, the connection that the automatic builder answers is an
  HTTP/2 connection exactly when HTTP/2 was asked for or the TLS handshake agreed on it by ALPN,
  and its one driver is then spawned.\<close>

theorem http_connect_version:
  assumes "start = fst (http_builder_call b \<lparr>pr_transport = t, pr_version = p\<rparr>)"
    and "http_connect_poll hy1 hy2 (((\<lambda>f. fst (snd (http_connect_poll hy1 hy2 f))) ^^ k) start) = (Ready (Inr c), f', drivers)"
  shows "http_version c = (if p = Http2 \<or> alpn_h2 t then HTTP_2 else HTTP_11) \<and> length drivers = 1"
proof -
  have "flavour_ok (p = Http2 \<or> alpn_h2 t) (((\<lambda>f. fst (snd (http_connect_poll hy1 hy2 f))) ^^ k) start)"
  proof (induction k)
    case 0
    show ?case by (simp add: assms(1) http_builder_call_def flavour_ok_def)
  next
    case (Suc k)
    then show ?case using connect_flavour(1) [OF _ surjective_pairing3] by simp
  qed
  from connect_flavour(2) [OF this assms(2) refl] show ?thesis .
qed

definition proto_probe :: "(unit, nat, nat, nat, nat, unit) hyper_conn" where
  "proto_probe = \<lparr>hc_handshake = (\<lambda>b io. io), hc_poll = (\<lambda>f. (Ready (Inr (f, f)), f))\<rparr>"

definition proto_transport :: "protocol option \<Rightarrow> (nat, unit) transport_stream" where
  "proto_transport proto = \<lparr>ts_stream = 7, ts_info = info_default (),
     ts_tls = Some \<lparr>server_name = None, validated_server_name = False, alpn = proto\<rparr>\<rparr>"

theorem http_connect_version_witness:
  "\<exists>c f'. http_connect_poll proto_probe proto_probe (fst (http_builder_call (http_builder_default () ())
      \<lparr>pr_transport = proto_transport (Some (Http HTTP_2)), pr_version = Http1\<rparr>)) = (Ready (Inr c), f', [7]) \<and> http_version c = HTTP_2"
proof -
  let ?start = "fst (http_builder_call (http_builder_default () ()) \<lparr>pr_transport = proto_transport (Some (Http HTTP_2)), pr_version = Http1\<rparr>)"
  obtain c f' where r: "http_connect_poll proto_probe proto_probe ?start = (Ready (Inr c), f', [7])"
    by (simp add: http_builder_call_def http_handshake_def handshake_h2_def alpn_h2_def proto_transport_def proto_probe_def)
  then have "http_connect_poll proto_probe proto_probe
      (((\<lambda>f. fst (snd (http_connect_poll proto_probe proto_probe f))) ^^ 0) ?start) = (Ready (Inr c), f', [7])"
    by (simp only: funpow_0)
  from http_connect_version [OF refl this] have "http_version c = HTTP_2" by (simp add: alpn_h2_def proto_transport_def)
  with r show ?thesis by blast
qed

end
