(* ===== verification/Client_Service.thy ===== *)
theory Client_Service
  imports Client_Proto Pool_System
begin

text \<open>
  The client as a service (client/service.rs) and the errors of client/mod.rs: how a request
  finds a connection (\<open>connect_to\<close>), how it is prepared for it (\<open>prepare_request\<close> and the
  forms of its URI), the future that carries it out (\<open>ResponseFuture\<close>, \<open>execute_request\<close>), and
  the system of many requests over one pool, whose steps refine those of \<open>Pool_System\<close>.
\<close>

section \<open>Errors (client/mod.rs)\<close>

text \<open>What the code boxes: a connection's error, a sender's error \<open>'h\<close>, or a text.\<close>

datatype ('x, 'h) boxed_error = Box_Connection "'x conn_error" | Box_Sender 'h | Box_Text string

datatype ('x, 'h) client_error =
  Error_Connection "('x, 'h) boxed_error"
| Error_Transport "('x, 'h) boxed_error"
| Error_Protocol "('x, 'h) boxed_error"
| Error_User 'h
| InvalidMethod string
| UnsupportedProtocol

fun client_error_from_pool :: "'x conn_error pool_error \<Rightarrow> ('x, 'h) client_error" where
  "client_error_from_pool (Connecting_Error e) = Error_Connection (Box_Connection e)"
| "client_error_from_pool (Handshaking_Error e) = Error_Transport (Box_Connection e)"
| "client_error_from_pool Unavailable = Error_Connection (Box_Text ''pool closed, no connection can be made'')"

section \<open>Forms of a URI\<close>

text \<open>
  The http crate's invariant of a URI, kept by its parser and by \<open>Uri::from_parts\<close>: with a
  scheme it is absolute; without one it is an authority or a path, never both.
\<close>

definition uri_wf :: "uri \<Rightarrow> bool" where
  "uri_wf u = (case u_scheme u of
     Some _ \<Rightarrow> u_authority u \<noteq> None \<and> u_path u \<noteq> None
   | None \<Rightarrow> (u_authority u = None) = (u_path u \<noteq> None))"

definition uri_of_path :: "string \<Rightarrow> uri" where
  "uri_of_path p = \<lparr>u_scheme = None, u_authority = None, u_path = Some p\<rparr>"

definition authority_form :: "uri \<Rightarrow> uri run" where
  "authority_form u =
     (case u_authority u of
        Some auth \<Rightarrow> Return \<lparr>u_scheme = None, u_authority = Some auth, u_path = None\<rparr>
      | None \<Rightarrow> Panic)"

text \<open>Two debug assertions: nothing at all where they are not checked.\<close>

definition absolute_form :: "bool \<Rightarrow> uri \<Rightarrow> uri run" where
  "absolute_form checked u =
     (if checked \<and> (u_scheme u = None \<or> u_authority u = None) then Panic else Return u)"

definition origin_form :: "uri \<Rightarrow> uri" where
  "origin_form u =
     (case u_path u of
        Some path \<Rightarrow> if path \<noteq> ''/'' then uri_of_path path else uri_of_path ''/''
      | None \<Rightarrow> uri_of_path ''/'')"

definition is_schema_secure :: "uri \<Rightarrow> bool" where
  "is_schema_secure u =
     (case u_scheme u of Some scheme \<Rightarrow> scheme = ''wss'' \<or> scheme = ''https'' | None \<Rightarrow> False)"

definition get_non_default_port :: "uri \<Rightarrow> u16 option" where
  "get_non_default_port u =
     (case (uri_port u, is_schema_secure u) of
        (Some p, True) \<Rightarrow> if p = 443 then None else uri_port u
      | (Some p, False) \<Rightarrow> if p = 80 then None else uri_port u
      | (None, _) \<Rightarrow> uri_port u)"

section \<open>Headers\<close>

text \<open>
  \<open>HeaderMap::entry(name).or_insert_with(value)\<close>, names in lower case; the value is computed,
  and may panic, only where it is inserted. \<open>HeaderValue::from_str\<close> takes visible ASCII and tabs.
\<close>

definition or_insert_with :: "string \<Rightarrow> string run \<Rightarrow> (string \<times> string) list \<Rightarrow> (string \<times> string) list run" where
  "or_insert_with name value headers =
     (if name \<in> fst ` set headers then Return headers
      else run_bind value (\<lambda>v. Return (headers @ [(name, v)])))"

definition header_byte :: "char \<Rightarrow> bool" where
  "header_byte c = (let b = of_char c :: nat in 32 \<le> b \<and> b < 127 \<or> b = 9)"

definition header_value_from_str :: "string \<Rightarrow> string option" where
  "header_value_from_str s = (if list_all header_byte s then Some s else None)"

definition host_value :: "uri \<Rightarrow> string run" where
  "host_value u =
     run_bind (expect (ok_or () (uri_host u))) (\<lambda>hostname.
       expect (ok_or () (case get_non_default_port u of
           Some port \<Rightarrow> header_value_from_str (hostname @ '':'' @ decimal (unat port))
         | None \<Rightarrow> header_value_from_str hostname)))"

definition set_host_header :: "'b request \<Rightarrow> 'b request run" where
  "set_host_header request =
     run_bind (or_insert_with ''host'' (host_value (rq_uri request)) (rq_headers request))
       (\<lambda>hs. Return (request\<lparr>rq_headers := hs\<rparr>))"

section \<open>Preparing a request\<close>

text \<open>\<open>CARGO_PKG_NAME\<close> and \<open>CARGO_PKG_VERSION\<close>, from Cargo.toml.\<close>

definition package_agent :: string where
  "package_agent = ''hyperdriver/0.4.4''"

text \<open>\<open>checked\<close> says whether debug assertions are compiled in.\<close>

definition prepare_request ::
  "bool \<Rightarrow> version \<Rightarrow> 'b body request \<Rightarrow> (('x, 'h) client_error + 'b body request) run" where
  "prepare_request checked conn_version request0 =
     run_bind (or_insert_with ''user-agent'' (Return package_agent) (rq_headers request0)) (\<lambda>hs.
       let request = request0\<lparr>rq_headers := hs\<rparr> in
       if conn_version = HTTP_11 then
         if rq_version request = HTTP_2 \<or> rq_version request = HTTP_3 then Return (Inl UnsupportedProtocol)
         else run_bind (set_host_header request) (\<lambda>req.
           if rq_method req = ''CONNECT'' then
             run_bind (authority_form (rq_uri req)) (\<lambda>u.
               Return (Inr (req\<lparr>rq_uri := if u_scheme u = Some ''https'' then origin_form u else u\<rparr>)))
           else if u_scheme (rq_uri req) = None \<or> u_authority (rq_uri req) = None then
             run_bind (absolute_form checked (rq_uri req)) (\<lambda>u. Return (Inr (req\<lparr>rq_uri := u\<rparr>)))
           else Return (Inr (req\<lparr>rq_uri := origin_form (rq_uri req)\<rparr>)))
       else if rq_method request = ''CONNECT'' then Return (Inl (InvalidMethod ''CONNECT''))
       else if conn_version = HTTP_2 then Return (Inr (request\<lparr>rq_version := HTTP_2\<rparr>))
       else Return (Inr request))"

lemma or_insert_Return:
  "or_insert_with name (Return v) hs = Return (if name \<in> fst ` set hs then hs else hs @ [(name, v)])"
  by (simp add: or_insert_with_def)

text \<open>The \<open>Host\<close> header's value: the host, with the port where the scheme does not imply it.\<close>

definition host_text :: "uri \<Rightarrow> authority \<Rightarrow> string" where
  "host_text u a = au_host a @ (case get_non_default_port u of
     Some port \<Rightarrow> '':'' @ decimal (unat port) | None \<Rightarrow> [])"

lemma header_byte_digit: "digit_value c \<noteq> None \<Longrightarrow> header_byte c"
  by (auto simp: digit_value_def header_byte_def Let_def split: if_splits)

lemma header_value_decimal: "list_all header_byte (decimal n)"
  unfolding list_all_iff using decimal_digits header_byte_digit by blast

lemma host_value_text:
  "u_authority u = Some a \<Longrightarrow> list_all header_byte (au_host a) \<Longrightarrow> host_value u = Return (host_text u a)"
  by (auto simp: host_value_def host_text_def uri_host_def header_value_from_str_def header_value_decimal
      header_byte_def split: option.splits)

section \<open>Connecting\<close>

text \<open>
  The two closures of \<open>connect_to\<close>, as the \<open>async\<close> blocks they return: a transport that is
  asked for readiness and then connects to the URI, and a protocol that is asked for
  readiness and then starts its handshake. Each goes on to its second part in the same poll.
\<close>

datatype ('t, 'cf) transport_future = Trans_Ready 't uri | Trans_Connecting 'cf | Trans_Done

definition transport_connecting_poll ::
  "('t, 'cf, 'io, 'a, 'x) transport_ops \<Rightarrow> 'cf \<Rightarrow> ('x conn_error + ('io, 'a) transport_stream) poll \<times> ('t, 'cf) transport_future" where
  "transport_connecting_poll ops f =
     (case t_fpoll ops f of
        (Pending, f') \<Rightarrow> (Pending, Trans_Connecting f')
      | (Panicked, f') \<Rightarrow> (Panicked, Trans_Done)
      | (Ready r, f') \<Rightarrow> (Ready (map_err Connect_Failed r), Trans_Done))"

fun transport_future_poll ::
  "('t, 'cf, 'io, 'a, 'x) transport_ops \<Rightarrow> ('t, 'cf) transport_future
     \<Rightarrow> ('x conn_error + ('io, 'a) transport_stream) poll \<times> ('t, 'cf) transport_future" where
  "transport_future_poll ops (Trans_Ready t u) =
     (case t_poll_ready ops t of
        (Pending, t') \<Rightarrow> (Pending, Trans_Ready t' u)
      | (Panicked, t') \<Rightarrow> (Panicked, Trans_Done)
      | (Ready (Inl e), t') \<Rightarrow> (Ready (Inl (Connect_Failed e)), Trans_Done)
      | (Ready (Inr _), t') \<Rightarrow> transport_connecting_poll ops (fst (t_connect ops t' u)))"
| "transport_future_poll ops (Trans_Connecting f) = transport_connecting_poll ops f"
| "transport_future_poll ops Trans_Done = (Panicked, Trans_Done)"

datatype ('p, 'io, 'a, 'hf) protocol_future =
  Prot_Ready 'p "('io, 'a) transport_stream" http_proto | Prot_Handshaking 'hf | Prot_Done

definition protocol_handshaking_poll ::
  "('p, ('io, 'a) protocol_request, 'hf, 'c, 'x) service \<Rightarrow> 'hf
     \<Rightarrow> ('x conn_error + 'c) poll \<times> ('p, 'io, 'a, 'hf) protocol_future" where
  "protocol_handshaking_poll svc f =
     (case s_fpoll svc f of
        (Pending, f') \<Rightarrow> (Pending, Prot_Handshaking f')
      | (Panicked, f') \<Rightarrow> (Panicked, Prot_Done)
      | (Ready r, f') \<Rightarrow> (Ready (map_err Handshake_Failed r), Prot_Done))"

fun protocol_future_poll ::
  "('p, ('io, 'a) protocol_request, 'hf, 'c, 'x) service \<Rightarrow> ('p, 'io, 'a, 'hf) protocol_future
     \<Rightarrow> ('x conn_error + 'c) poll \<times> ('p, 'io, 'a, 'hf) protocol_future" where
  "protocol_future_poll svc (Prot_Ready p transport version) =
     (case s_ready svc p of
        (Pending, p') \<Rightarrow> (Pending, Prot_Ready p' transport version)
      | (Panicked, p') \<Rightarrow> (Panicked, Prot_Done)
      | (Ready (Inl e), p') \<Rightarrow> (Ready (Inl (Handshake_Failed e)), Prot_Done)
      | (Ready (Inr _), p') \<Rightarrow> protocol_handshaking_poll svc (fst (protocol_connect svc p' transport version)))"
| "protocol_future_poll svc (Prot_Handshaking f) = protocol_handshaking_poll svc f"
| "protocol_future_poll svc Prot_Done = (Panicked, Prot_Done)"

text \<open>
  \<open>ClientService\<close> with its pool's address, and its connector: the transport's future and
  what the handshake's closure captured.
\<close>

record ('t, 'p) client_service =
  cs_transport :: 't
  cs_protocol :: 'p
  cs_pool :: "nat option"

record ('t, 'p, 'cf) connector =
  cn_transport :: "('t, 'cf) transport_future"
  cn_protocol :: 'p
  cn_version :: http_proto

definition client_service_new ::
  "'t \<Rightarrow> 'p \<Rightarrow> config \<Rightarrow> nat \<Rightarrow> ('k, 'c) pool_heap \<Rightarrow> ('t, 'p) client_service \<times> ('k, 'c) pool_heap" where
  "client_service_new transport protocol pool a heap =
     (\<lparr>cs_transport = transport, cs_protocol = protocol, cs_pool = Some a\<rparr>, heap(a \<mapsto> pool_new pool))"

definition client_without_pool :: "('t, 'p) client_service \<Rightarrow> ('t, 'p) client_service" where
  "client_without_pool svc = svc\<lparr>cs_pool := None\<rparr>"

definition tcp_http_pool_config :: config where
  "tcp_http_pool_config = \<lparr>idle_timeout = Some (90 * 10 ^ 9), max_idle_per_host = 32\<rparr>"

text \<open>\<open>Default\<close> of the TLS transport over TCP and of the automatic builder are the arguments.\<close>

definition client_new_tcp_http ::
  "'t \<Rightarrow> ('b1, 'b2) http_builder \<Rightarrow> nat \<Rightarrow> ('k, 'c) pool_heap
     \<Rightarrow> ('t, ('b1, 'b2) http_builder) client_service \<times> ('k, 'c) pool_heap" where
  "client_new_tcp_http transport_default builder_default a heap =
     (\<lparr>cs_transport = transport_default, cs_protocol = builder_default, cs_pool = Some a\<rparr>,
      heap(a \<mapsto> pool_new tcp_http_pool_config))"

definition client_connector :: "('t, 'p) client_service \<Rightarrow> uri \<Rightarrow> http_proto \<Rightarrow> ('t, 'p, 'cf) connector" where
  "client_connector svc u http_protocol =
     \<lparr>cn_transport = Trans_Ready (cs_transport svc) u, cn_protocol = cs_protocol svc, cn_version = http_protocol\<rparr>"

text \<open>
  \<open>connect_to\<close>. \<open>pool\<close> is the pool behind the client's \<open>Arc\<close> with its address, \<open>ch\<close> the fresh
  channel of a checkout; the answer has the pool afterwards, the checkout, and whether its
  sender was kept in a queue.
\<close>

type_synonym ('c, 't, 'p, 'cf, 'st) client_checkout = "(key, 'c, ('t, 'p, 'cf) connector, 'st) checkout"

definition client_connect_to ::
  "'c conn_ops \<Rightarrow> instant \<Rightarrow> sender \<Rightarrow> (nat \<times> (key, 'c) pool_inner) option \<Rightarrow> ('t, 'p) client_service \<Rightarrow> uri \<Rightarrow> http_proto
     \<Rightarrow> 'x conn_error + ((key, 'c) pool_inner option \<times> ('c, 't, 'p, 'cf, 'st) client_checkout \<times> bool)" where
  "client_connect_to ops now ch pool svc u http_protocol =
     result_bind (map_err Invalid_Uri (key_try_from u)) (\<lambda>key.
       let connector = client_connector svc u http_protocol in
       case pool of
         Some (a, i) \<Rightarrow>
           (let (i', co, kept) = pool_checkout ops now a ch key (proto_multiplex http_protocol) connector i
            in Inr (Some i', co, kept))
       | None \<Rightarrow> Inr (None, checkout_detached key connector, False))"

section \<open>Requests in flight\<close>

text \<open>
  What requests share: the pools, the channels of the waiting checkouts, and the spawned tasks,
  each of which holds a connection until it is ready again.
\<close>

record 'c client_net =
  nt_heap :: "(key, 'c) pool_heap"
  nt_cells :: "(key, 'c) cells"
  nt_tasks :: "(key, 'c) pooled list"

definition net_release :: "'c conn_ops \<Rightarrow> instant \<Rightarrow> (key, 'c) pooled \<Rightarrow> 'c client_net \<Rightarrow> 'c client_net" where
  "net_release ops now p net =
     (let (heap, cells) = release ops now p (nt_heap net) (nt_cells net)
      in net\<lparr>nt_heap := heap, nt_cells := cells\<rparr>)"

text \<open>\<open>execute_request\<close>, an \<open>async fn\<close>; its locals are dropped when it ends or panics.\<close>

datatype ('c, 'b, 'sf) exec_future =
  Exec_Start "'b body request" "(key, 'c) pooled" | Exec_Sending 'sf "(key, 'c) pooled" | Exec_Done

type_synonym ('x, 'h, 'b, 's, 'c) request_output =
  "(('x, 'h) client_error + 'b body response) poll \<times> 's \<times> 'c client_net"

definition exec_sending_poll ::
  "'c conn_ops \<Rightarrow> ('c, 'b, 'sf, 'r, 'h) connection_ops \<Rightarrow> ('r \<Rightarrow> 'b body) \<Rightarrow> instant \<Rightarrow> 'sf \<Rightarrow> (key, 'c) pooled
     \<Rightarrow> 'c client_net \<Rightarrow> ('x, 'h, 'b, ('c, 'b, 'sf) exec_future, 'c) request_output" where
  "exec_sending_poll ops via into now fut conn net =
     (case c_fpoll via fut of
        (Pending, fut') \<Rightarrow> (Pending, Exec_Sending fut' conn, net)
      | (Panicked, fut') \<Rightarrow> (Panicked, Exec_Done, net_release ops now conn net)
      | (Ready (Inl error), fut') \<Rightarrow>
          (Ready (Inl (Error_Connection (Box_Sender error))), Exec_Done, net_release ops now conn net)
      | (Ready (Inr response), fut') \<Rightarrow>
          (case p_connection conn of
             None \<Rightarrow> (Panicked, Exec_Done, net_release ops now conn net)
           | Some c \<Rightarrow>
               (Ready (Inr (response_map into response)), Exec_Done,
                if can_share ops c then net_release ops now conn net
                else net\<lparr>nt_tasks := nt_tasks net @ [conn]\<rparr>)))"

fun exec_poll ::
  "bool \<Rightarrow> 'c conn_ops \<Rightarrow> ('c, 'b, 'sf, 'r, 'h) connection_ops \<Rightarrow> ('r \<Rightarrow> 'b body) \<Rightarrow> instant
     \<Rightarrow> ('c, 'b, 'sf) exec_future \<Rightarrow> 'c client_net \<Rightarrow> ('x, 'h, 'b, ('c, 'b, 'sf) exec_future, 'c) request_output" where
  "exec_poll checked ops via into now (Exec_Start request conn) net =
     (case p_connection conn of
        None \<Rightarrow> (Panicked, Exec_Done, net_release ops now conn net)
      | Some c \<Rightarrow>
          (case prepare_request checked (c_version via c) request of
             Panic \<Rightarrow> (Panicked, Exec_Done, net_release ops now conn net)
           | Return (Inl e) \<Rightarrow> (Ready (Inl e), Exec_Done, net_release ops now conn net)
           | Return (Inr req) \<Rightarrow> exec_sending_poll ops via into now (c_send via c req) conn net))"
| "exec_poll checked ops via into now (Exec_Sending fut conn) net =
     exec_sending_poll ops via into now fut conn net"
| "exec_poll checked ops via into now Exec_Done net = (Panicked, Exec_Done, net)"

text \<open>\<open>ResponseFuture\<close>. What the checkout's futures answer is an input of the poll.\<close>

datatype ('c, 'f, 'st, 'b, 'sf, 'x) response_future =
  RF_Empty
| RF_Checkout "(key, 'c, 'f, 'st) checkout" "'b body request"
| RF_Connection_Error "'x conn_error"
| RF_Request "('c, 'b, 'sf) exec_future"

definition response_request_poll ::
  "bool \<Rightarrow> 'c conn_ops \<Rightarrow> ('c, 'b, 'sf, 'r, 'h) connection_ops \<Rightarrow> ('r \<Rightarrow> 'b body) \<Rightarrow> instant
     \<Rightarrow> ('c, 'b, 'sf) exec_future \<Rightarrow> 'c client_net
     \<Rightarrow> ('x, 'h, 'b, ('c, 'f, 'st, 'b, 'sf, 'x) response_future, 'c) request_output" where
  "response_request_poll checked ops via into now fut net =
     (let (r, fut', net') = exec_poll checked ops via into now fut net
      in case r of
           Pending \<Rightarrow> (Pending, RF_Request fut', net')
         | _ \<Rightarrow> (r, RF_Empty, net'))"

text \<open>
  Polling the checkout is \<open>do_poll\<close> on a world of that checkout alone: it also drops the
  checkout when it has completed, as \<open>poll\<close> does where its local goes out of scope.
\<close>

fun response_poll ::
  "bool \<Rightarrow> 'c conn_ops \<Rightarrow> ('c, 'b, 'sf, 'r, 'h) connection_ops \<Rightarrow> ('r \<Rightarrow> 'b body) \<Rightarrow> ('st \<Rightarrow> bool) \<Rightarrow> instant
     \<Rightarrow> ('x conn_error + 'st) poll \<Rightarrow> ('st \<Rightarrow> ('x conn_error + 'c) poll)
     \<Rightarrow> ('c, 'f, 'st, 'b, 'sf, 'x) response_future \<Rightarrow> 'c client_net
     \<Rightarrow> ('x, 'h, 'b, ('c, 'f, 'st, 'b, 'sf, 'x) response_future, 'c) request_output" where
  "response_poll checked ops via into tshare now tr hs (RF_Checkout checkout request) net =
     (let (w, res) = do_poll ops tshare now tr hs 0
            \<lparr>w_heap = nt_heap net, w_cells = nt_cells net, w_checkouts = [checkout], w_held = []\<rparr>;
          net' = net\<lparr>nt_heap := w_heap w, nt_cells := w_cells w\<rparr>
      in case res of
           Ready (Inr conn) \<Rightarrow> response_request_poll checked ops via into now (Exec_Start request conn) net'
         | Ready (Inl error) \<Rightarrow> (Ready (Inl (client_error_from_pool error)), RF_Empty, net')
         | Pending \<Rightarrow> (Pending, RF_Checkout (hd (w_checkouts w)) request, net')
         | Panicked \<Rightarrow> (Panicked, RF_Empty, net'))"
| "response_poll checked ops via into tshare now tr hs (RF_Request fut) net =
     response_request_poll checked ops via into now fut net"
| "response_poll checked ops via into tshare now tr hs (RF_Connection_Error error) net =
     (Ready (Inl (Error_Connection (Box_Connection error))), RF_Empty, net)"
| "response_poll checked ops via into tshare now tr hs RF_Empty net = (Panicked, RF_Empty, net)"

text \<open>Dropping the future: its checkout, or the connection its request is on.\<close>

fun response_drop ::
  "'c conn_ops \<Rightarrow> instant \<Rightarrow> ('c, 'f, 'st, 'b, 'sf, 'x) response_future \<Rightarrow> 'c client_net \<Rightarrow> 'c client_net" where
  "response_drop ops now (RF_Checkout checkout request) net =
     (let (heap, cells) = end_checkout ops now checkout (nt_heap net) (nt_cells net)
      in net\<lparr>nt_heap := heap, nt_cells := cells\<rparr>)"
| "response_drop ops now (RF_Request (Exec_Start request conn)) net = net_release ops now conn net"
| "response_drop ops now (RF_Request (Exec_Sending fut conn)) net = net_release ops now conn net"
| "response_drop ops now (RF_Request Exec_Done) net = net"
| "response_drop ops now (RF_Connection_Error error) net = net"
| "response_drop ops now RF_Empty net = net"

text \<open>\<open>Service::call\<close>; the conversion of the request's version panics for HTTP/0.9 and HTTP/3.\<close>

definition client_call ::
  "'c conn_ops \<Rightarrow> instant \<Rightarrow> ('in \<Rightarrow> 'b body) \<Rightarrow> ('t, 'p) client_service \<Rightarrow> 'in request \<Rightarrow> 'c client_net
     \<Rightarrow> (('c, ('t, 'p, 'cf) connector, 'st, 'b, 'sf, 'x) response_future \<times> 'c client_net) run" where
  "client_call ops now into svc request net =
     run_bind (proto_from_version (rq_version request)) (\<lambda>protocol.
       let pool = Option.bind (cs_pool svc) (\<lambda>a. map_option (Pair a) (nt_heap net a)) in
       Return (case client_connect_to ops now (length (nt_cells net)) pool svc (rq_uri request) protocol of
           Inl error \<Rightarrow> (RF_Connection_Error error, net)
         | Inr (inner, checkout, kept) \<Rightarrow>
             (RF_Checkout checkout (request_map into request),
              (case (cs_pool svc, inner) of
                 (Some a, Some i) \<Rightarrow>
                   net\<lparr>nt_heap := (nt_heap net)(a \<mapsto> i),
                       nt_cells := nt_cells net @ [if kept then Empty else TxDropped]\<rparr>
               | _ \<Rightarrow> net))))"

definition client_poll_ready :: "('t, 'p) client_service \<Rightarrow> (('x, 'h) client_error + unit) poll \<times> ('t, 'p) client_service" where
  "client_poll_ready svc = (Ready (Inr ()), svc)"

text \<open>The task that waits for the connection to be ready again, whatever the answer, and drops it.\<close>

definition ready_task_poll ::
  "'c conn_ops \<Rightarrow> ('c, 'b, 'sf, 'r, 'h) connection_ops \<Rightarrow> instant \<Rightarrow> nat \<Rightarrow> 'c client_net \<Rightarrow> 'c client_net" where
  "ready_task_poll ops via now j net =
     (let conn = nt_tasks net ! j;
          finish = net_release ops now conn (net\<lparr>nt_tasks := remove_at j (nt_tasks net)\<rparr>)
      in case p_connection conn of
           None \<Rightarrow> finish
         | Some c \<Rightarrow> (case c_ready via c of Pending \<Rightarrow> net | _ \<Rightarrow> finish))"

section \<open>Properties\<close>

definition upsert :: "string \<Rightarrow> string \<Rightarrow> (string \<times> string) list \<Rightarrow> string \<Rightarrow> string option" where
  "upsert name v hs n = (if n = name \<and> map_of hs n = None then Some v else map_of hs n)"

lemma map_of_insert:
  "map_of (if name \<in> fst ` set hs then hs else hs @ [(name, v)]) = upsert name v hs"
proof (cases "name \<in> fst ` set hs")
  case True
  then have "map_of hs name \<noteq> None" by (simp add: map_of_eq_None_iff)
  with True show ?thesis by (auto simp: upsert_def fun_eq_iff)
next
  case False
  then have "map_of hs name = None" by (simp add: map_of_eq_None_iff)
  with False show ?thesis by (auto simp: upsert_def fun_eq_iff map_add_def split: option.splits)
qed

lemma prepare_http1:
  assumes "u_scheme (rq_uri req) = Some s" and "u_authority (rq_uri req) = Some a"
    and "list_all header_byte (au_host a)" and "rq_version req \<noteq> HTTP_2" and "rq_version req \<noteq> HTTP_3"
  shows "\<exists>hs1 hs. map_of hs1 = upsert ''user-agent'' package_agent (rq_headers req) \<and>
    map_of hs = upsert ''host'' (host_text (rq_uri req) a) hs1 \<and>
    prepare_request checked HTTP_11 req = Return (Inr (req\<lparr>rq_headers := hs,
      rq_uri := if rq_method req = ''CONNECT'' then \<lparr>u_scheme = None, u_authority = Some a, u_path = None\<rparr>
                else origin_form (rq_uri req)\<rparr>))"
proof -
  let ?hs1 = "if ''user-agent'' \<in> fst ` set (rq_headers req) then rq_headers req
    else rq_headers req @ [(''user-agent'', package_agent)]"
  let ?hs = "if ''host'' \<in> fst ` set ?hs1 then ?hs1 else ?hs1 @ [(''host'', host_text (rq_uri req) a)]"
  have "prepare_request checked HTTP_11 req = Return (Inr (req\<lparr>rq_headers := ?hs,
      rq_uri := if rq_method req = ''CONNECT'' then \<lparr>u_scheme = None, u_authority = Some a, u_path = None\<rparr>
                else origin_form (rq_uri req)\<rparr>))"
    using assms by (simp add: prepare_request_def or_insert_Return host_value_text set_host_header_def
      authority_form_def Let_def)
  with map_of_insert [of "''user-agent''" "rq_headers req" package_agent]
    map_of_insert [of "''host''" ?hs1 "host_text (rq_uri req) a"]
  show ?thesis by (intro exI [of _ ?hs1] exI [of _ ?hs]) (simp del: fun_upd_apply)
qed

lemma prepare_other:
  "v \<noteq> HTTP_11 \<Longrightarrow> prepare_request checked v req =
     Return (if rq_method req = ''CONNECT'' then Inl (InvalidMethod ''CONNECT'')
       else Inr (req\<lparr>rq_headers := if ''user-agent'' \<in> fst ` set (rq_headers req) then rq_headers req
                     else rq_headers req @ [(''user-agent'', package_agent)],
                   rq_version := if v = HTTP_2 then HTTP_2 else rq_version req\<rparr>))"
  by (simp add: prepare_request_def or_insert_Return Let_def)

text \<open>C18: a request sent over HTTP/1.1 to an absolute URI names its host in \<open>Host\<close>, with the
  port where the scheme does not imply it, and its agent in \<open>User-Agent\<close>, unless it already has
  these headers; its URI becomes the path with the query, or the authority for \<open>CONNECT\<close>;
  nothing else changes.\<close>

theorem request_on_http1:
  fixes req :: "'b body request"
  assumes "u_scheme (rq_uri req) = Some s" and "u_authority (rq_uri req) = Some a" and "u_path (rq_uri req) = Some p"
    and "list_all header_byte (au_host a)" and "rq_version req \<noteq> HTTP_2" and "rq_version req \<noteq> HTTP_3"
  shows "\<exists>hs. prepare_request checked HTTP_11 req = (Return (Inr (req\<lparr>rq_headers := hs,
      rq_uri := if rq_method req = ''CONNECT'' then \<lparr>u_scheme = None, u_authority = Some a, u_path = None\<rparr>
                else \<lparr>u_scheme = None, u_authority = None, u_path = Some p\<rparr>\<rparr>)) :: (('x, 'h) client_error + 'b body request) run) \<and>
    map_of hs ''host'' = Some (case map_of (rq_headers req) ''host'' of Some v \<Rightarrow> v
      | None \<Rightarrow> au_host a @ (case au_port a of None \<Rightarrow> []
          | Some port \<Rightarrow> if port = (if s = ''https'' \<or> s = ''wss'' then 443 else 80) then [] else '':'' @ decimal (unat port))) \<and>
    map_of hs ''user-agent'' = Some (case map_of (rq_headers req) ''user-agent'' of Some v \<Rightarrow> v | None \<Rightarrow> ''hyperdriver/0.4.4'') \<and>
    (\<forall>n. n \<noteq> ''host'' \<and> n \<noteq> ''user-agent'' \<longrightarrow> map_of hs n = map_of (rq_headers req) n)"
proof -
  obtain hs1 hs where h: "map_of hs1 = upsert ''user-agent'' package_agent (rq_headers req)"
      "map_of hs = upsert ''host'' (host_text (rq_uri req) a) hs1"
    and r: "prepare_request checked HTTP_11 req = (Return (Inr (req\<lparr>rq_headers := hs,
      rq_uri := if rq_method req = ''CONNECT'' then \<lparr>u_scheme = None, u_authority = Some a, u_path = None\<rparr>
                else origin_form (rq_uri req)\<rparr>)) :: (('x, 'h) client_error + 'b body request) run)"
    using prepare_http1 [OF assms(1,2,4,5,6)] by blast
  have o: "origin_form (rq_uri req) = \<lparr>u_scheme = None, u_authority = None, u_path = Some p\<rparr>"
    using assms(3) by (simp add: origin_form_def uri_of_path_def)
  have t: "host_text (rq_uri req) a = au_host a @ (case au_port a of None \<Rightarrow> []
      | Some port \<Rightarrow> if port = (if s = ''https'' \<or> s = ''wss'' then 443 else 80) then [] else '':'' @ decimal (unat port))"
    using assms(1,2) by (auto simp: host_text_def get_non_default_port_def uri_port_def is_schema_secure_def split: option.splits)
  have ua: "map_of hs ''user-agent'' =
      Some (case map_of (rq_headers req) ''user-agent'' of Some v \<Rightarrow> v | None \<Rightarrow> ''hyperdriver/0.4.4'')"
    and rest: "\<forall>n. n \<noteq> ''host'' \<and> n \<noteq> ''user-agent'' \<longrightarrow> map_of hs n = map_of (rq_headers req) n"
    and host: "map_of hs ''host'' =
      Some (case map_of (rq_headers req) ''host'' of Some v \<Rightarrow> v | None \<Rightarrow> host_text (rq_uri req) a)"
    by (simp_all add: h upsert_def package_agent_def split: option.splits)
  from r ua rest host show ?thesis unfolding o t by blast
qed

theorem request_on_http1_witness:
  "let a = \<lparr>au_text = ''h:81'', au_host = ''h'', au_port = Some 81\<rparr>;
       req = \<lparr>rq_method = ''GET'', rq_uri = \<lparr>u_scheme = Some ''http'', u_authority = Some a, u_path = Some ''/x''\<rparr>,
              rq_version = HTTP_11, rq_headers = [], rq_extensions = [], rq_body = Empty_Body\<rparr>
   in \<exists>hs r. prepare_request True HTTP_11 req = (Return (Inr r) :: ((unit, unit) client_error + unit body request) run) \<and>
        rq_headers r = hs \<and> map_of hs ''host'' = Some (''h:'' @ decimal 81)"
proof -
  define a where "a = \<lparr>au_text = ''h:81'', au_host = ''h'', au_port = Some (81 :: u16)\<rparr>"
  define req where "req = \<lparr>rq_method = ''GET'', rq_uri = \<lparr>u_scheme = Some ''http'', u_authority = Some a, u_path = Some ''/x''\<rparr>,
    rq_version = HTTP_11, rq_headers = [], rq_extensions = [], rq_body = Empty_Body :: unit body\<rparr>"
  have u: "u_scheme (rq_uri req) = Some ''http''" "u_authority (rq_uri req) = Some a"
      "u_path (rq_uri req) = Some ''/x''" "rq_version req \<noteq> HTTP_2" "rq_version req \<noteq> HTTP_3"
      "rq_headers req = []" and h: "list_all header_byte (au_host a)"
    by (simp_all add: req_def a_def header_byte_def)
  obtain hs r where "prepare_request True HTTP_11 req = (Return (Inr r) :: ((unit, unit) client_error + unit body request) run)"
      and "rq_headers r = hs" and "map_of hs ''host'' = Some (''h'' @ '':'' @ decimal (unat (81 :: u16)))"
    using request_on_http1 [OF u(1,2,3) h u(4,5), of True] u(6) by (force simp: a_def)
  then have "\<exists>hs r. prepare_request True HTTP_11 req = (Return (Inr r) :: ((unit, unit) client_error + unit body request) run) \<and>
        rq_headers r = hs \<and> map_of hs ''host'' = Some (''h:'' @ decimal 81)"
    by simp
  then show ?thesis by (simp add: Let_def req_def a_def)
qed

text \<open>C19: a request that \<open>connect_to\<close> accepts is never the cause of a panic of
  \<open>prepare_request\<close>, with debug assertions or without; it is refused exactly when it asks for
  HTTP/2 or 3 on an HTTP/1.1 connection, or for \<open>CONNECT\<close> on any other.\<close>

theorem prepare_after_connect:
  fixes req :: "'b body request"
  assumes "uri_wf (rq_uri req)" and "client_connect_to ops now ch pool svc (rq_uri req) proto = Inr checkout"
    and "\<forall>a. u_authority (rq_uri req) = Some a \<longrightarrow> list_all header_byte (au_host a)"
  shows "\<exists>r. prepare_request checked v req = (Return r :: (('x, 'h) client_error + 'b body request) run) \<and>
    (\<forall>e. r = Inl e \<longleftrightarrow>
       (if v = HTTP_11 then rq_version req \<in> {HTTP_2, HTTP_3} \<and> e = UnsupportedProtocol
        else rq_method req = ''CONNECT'' \<and> e = InvalidMethod ''CONNECT''))"
proof (cases "v = HTTP_11")
  case False
  then show ?thesis by (auto simp: prepare_other)
next
  case True
  from assms(2) obtain s where s: "u_scheme (rq_uri req) = Some s"
    by (cases "u_scheme (rq_uri req)") (auto simp: client_connect_to_def key_try_from_def)
  with assms(1) obtain a where a: "u_authority (rq_uri req) = Some a" by (auto simp: uri_wf_def)
  show ?thesis
  proof (cases "rq_version req \<in> {HTTP_2, HTTP_3}")
    case True
    with \<open>v = HTTP_11\<close> show ?thesis
      by (auto simp: prepare_request_def or_insert_Return Let_def)
  next
    case False
    with prepare_http1 [OF s a, of checked] assms(3) a \<open>v = HTTP_11\<close> show ?thesis by fastforce
  qed
qed

theorem prepare_after_connect_witness:
  "let a = \<lparr>au_text = ''h'', au_host = ''h'', au_port = None\<rparr>;
       req = \<lparr>rq_method = ''GET'', rq_uri = \<lparr>u_scheme = Some ''http'', u_authority = Some a, u_path = Some ''/''\<rparr>,
              rq_version = HTTP_2, rq_headers = [], rq_extensions = [], rq_body = Empty_Body\<rparr>
   in prepare_request True HTTP_11 req = (Return (Inl UnsupportedProtocol) :: ((unit, unit) client_error + unit body request) run)"
proof -
  define a where "a = \<lparr>au_text = ''h'', au_host = ''h'', au_port = None :: u16 option\<rparr>"
  define req where "req = \<lparr>rq_method = ''GET'', rq_uri = \<lparr>u_scheme = Some ''http'', u_authority = Some a, u_path = Some ''/''\<rparr>,
    rq_version = HTTP_2, rq_headers = [], rq_extensions = [], rq_body = Empty_Body :: unit body\<rparr>"
  define svc where "svc = \<lparr>cs_transport = (), cs_protocol = (), cs_pool = None\<rparr>"
  have wf: "uri_wf (rq_uri req)" and h: "\<forall>a. u_authority (rq_uri req) = Some a \<longrightarrow> list_all header_byte (au_host a)"
      and v: "rq_version req = HTTP_2"
    by (simp_all add: uri_wf_def req_def a_def header_byte_def)
  have co: "client_connect_to sender_ops 0 0 None svc (rq_uri req) Http2 =
      (Inr (None, checkout_detached (Key ''http'' (Some a)) (client_connector svc (rq_uri req) Http2), False) ::
        unit conn_error + (_ \<times> (unit, unit, unit, unit, unit) client_checkout \<times> _))"
    by (simp add: client_connect_to_def key_try_from_def req_def)
  obtain r :: "(unit, unit) client_error + unit body request"
    where "prepare_request True HTTP_11 req = Return r" and "r = Inl UnsupportedProtocol"
    using prepare_after_connect [OF wf co h, of True HTTP_11, where 'x = unit and 'h = unit] v by auto
  then have "prepare_request True HTTP_11 req =
      (Return (Inl UnsupportedProtocol) :: ((unit, unit) client_error + unit body request) run)"
    by simp
  then show ?thesis by (simp add: Let_def req_def a_def)
qed

end
