(* ===== verification/Client_System.thy ===== *)
theory Client_System
  imports Client_Service
begin

text \<open>
  Many requests over one pool: the steps a client's user, its runtime and its connections can
  take, and the proof that they refine those of \<open>Pool_System\<close>, so that its invariants hold for
  the requests in flight and the tasks they leave behind.
\<close>

section \<open>Steps\<close>

type_synonym ('c, 'f, 'st, 'b, 'sf, 'x) client_world =
  "'c client_net \<times> ('c, 'f, 'st, 'b, 'sf, 'x) response_future list"

definition client_init :: "config \<Rightarrow> ('c, 'f, 'st, 'b, 'sf, 'x) client_world" where
  "client_init conf = (\<lparr>nt_heap = [0 \<mapsto> pool_new conf], nt_cells = [], nt_tasks = []\<rparr>, [])"

text \<open>What each future owns.\<close>

fun future_checkouts :: "('c, 'f, 'st, 'b, 'sf, 'x) response_future \<Rightarrow> (key, 'c, 'f, 'st) checkout list" where
  "future_checkouts (RF_Checkout checkout request) = [checkout]"
| "future_checkouts _ = []"

fun exec_held :: "('c, 'b, 'sf) exec_future \<Rightarrow> (key, 'c) pooled list" where
  "exec_held (Exec_Start request conn) = [conn]"
| "exec_held (Exec_Sending fut conn) = [conn]"
| "exec_held Exec_Done = []"

fun future_held :: "('c, 'f, 'st, 'b, 'sf, 'x) response_future \<Rightarrow> (key, 'c) pooled list" where
  "future_held (RF_Request fut) = exec_held fut"
| "future_held _ = []"

definition future_conns :: "('c, 'f, 'st, 'b, 'sf, 'x) response_future \<Rightarrow> 'c multiset" where
  "future_conns f = list_msum checkout_conns (future_checkouts f) + list_msum pooled_conns (future_held f)"

definition client_conns :: "('c, 'f, 'st, 'b, 'sf, 'x) client_world \<Rightarrow> 'c multiset" where
  "client_conns w = heap_conns (nt_heap (fst w)) 0 + cells_conns (nt_cells (fst w))
     + list_msum pooled_conns (nt_tasks (fst w)) + list_msum future_conns (snd w)"

text \<open>
  \<open>vias\<close> are the ways in which connections may answer. A client has the pool at address 0 or
  none; a handshake never answers a connection that is in use already.
\<close>

inductive client_step ::
  "('c \<Rightarrow> bool) \<Rightarrow> ('c, 'b, 'sf, 'r, 'h) connection_ops set \<Rightarrow> ('r \<Rightarrow> 'b body)
     \<Rightarrow> ('c, ('t, 'p, 'cf) connector, 'st, 'b, 'sf, 'x) client_world
     \<Rightarrow> ('c, ('t, 'p, 'cf) connector, 'st, 'b, 'sf, 'x) client_world \<Rightarrow> bool"
  for share vias into where
  call: "poolable_connection ops \<Longrightarrow> can_share ops = share \<Longrightarrow> cs_pool svc \<in> {None, Some 0} \<Longrightarrow>
     client_call ops now id svc request net = Return (f, net') \<Longrightarrow>
     client_step share vias into (net, fs) (net', fs @ [f])"
| poll: "poolable_connection ops \<Longrightarrow> can_share ops = share \<Longrightarrow> via \<in> vias \<Longrightarrow> j < length fs \<Longrightarrow>
     (\<And>t c. hs t = Ready (Inr c) \<Longrightarrow> share c \<or> c \<notin># client_conns (net, fs)) \<Longrightarrow>
     response_poll checked ops via into tshare now tr hs (fs ! j) net = (r, f, net') \<Longrightarrow>
     client_step share vias into (net, fs) (net', fs[j := f])"
| cancel: "poolable_connection ops \<Longrightarrow> can_share ops = share \<Longrightarrow> j < length fs \<Longrightarrow>
     client_step share vias into (net, fs) (response_drop ops now (fs ! j) net, remove_at j fs)"
| task: "poolable_connection ops \<Longrightarrow> can_share ops = share \<Longrightarrow> via \<in> vias \<Longrightarrow> j < length (nt_tasks net) \<Longrightarrow>
     client_step share vias into (net, fs) (ready_task_poll ops via now j net, fs)"
| drop_pool: "client_step share vias into (net, fs)
     (net\<lparr>nt_heap := (nt_heap net)(0 := None), nt_cells := map tx_drop (nt_cells net)\<rparr>, fs)"

section \<open>The world of the pool behind it\<close>

definition view ::
  "'c client_net \<Rightarrow> (key, 'c, 'f, 'st) checkout list \<Rightarrow> (key, 'c) pooled list \<Rightarrow> (key, 'c, 'f, 'st) world" where
  "view net cos held = \<lparr>w_heap = nt_heap net, w_cells = nt_cells net, w_checkouts = cos, w_held = held\<rparr>"

lemma view_simps [simp]:
  "w_heap (view net cos held) = nt_heap net" "w_cells (view net cos held) = nt_cells net"
  "w_checkouts (view net cos held) = cos" "w_held (view net cos held) = held"
  by (simp_all add: view_def)

definition good :: "('c \<Rightarrow> bool) \<Rightarrow> ('k, 'c, 'f, 'st) world \<Rightarrow> bool" where
  "good share w \<longleftrightarrow> winv w \<and> exclusive share w"

lemma good_step: "good share w \<Longrightarrow> winv w' \<Longrightarrow> step_conns share w w' \<Longrightarrow> good share w'"
  using step_conns_exclusive by (auto simp: good_def)

lemma list_msum_mset: "mset xs = mset ys \<Longrightarrow> list_msum f xs = list_msum f ys"
  by (metis list_msum_def mset_map sum_mset_sum_list)

lemma world_perm:
  assumes "mset cos = mset cos'" and "mset held = mset held'"
  shows "world_conns (view net cos held) = world_conns (view net cos' held')"
  by (simp add: world_conns_def list_msum_mset [OF assms(1)] list_msum_mset [OF assms(2)])

lemma good_perm:
  assumes "mset cos = mset cos'" and "mset held = mset held'"
  shows "good share (view net cos held) = good share (view net cos' held')"
  using world_perm [OF assms] mset_eq_setD [OF assms(1)] mset_eq_setD [OF assms(2)]
  by (simp add: good_def winv_def exclusive_def)

lemma net_release_tasks [simp]: "nt_tasks (net_release ops now p net) = nt_tasks net"
  by (simp add: net_release_def split: prod.splits)

lemma net_release_good:
  assumes "good share (view net cos (p # held))" and "poolable_connection ops" and "can_share ops = share"
  shows "good share (view (net_release ops now p net) cos held)"
proof -
  have "do_release ops now 0 (view net cos (p # held)) = view (net_release ops now p net) cos held"
    by (simp add: do_release_def net_release_def view_def remove_at_def split: prod.splits)
  with do_release_ok [of "view net cos (p # held)" ops share 0 now] assms good_step show ?thesis
    by (force simp: good_def)
qed

lemma net_tasks_view [simp]: "view (net\<lparr>nt_tasks := ts\<rparr>) cos held = view net cos held"
  by (simp add: view_def)

lemma exec_sending_good:
  assumes "good share (view net cos (p # held @ nt_tasks net))" and "poolable_connection ops" and "can_share ops = share"
    and "exec_sending_poll ops via into now fut p net = (r, e, net')"
  shows "good share (view net' cos (exec_held e @ held @ nt_tasks net'))" and "r \<noteq> Pending \<Longrightarrow> e = Exec_Done"
proof -
  note rel = net_release_good [OF assms(1-3), of now]
  have "good share (view net cos (held @ nt_tasks net @ [p]))"
    using assms(1) good_perm [of cos cos "p # held @ nt_tasks net" "held @ nt_tasks net @ [p]"] by simp
  with assms rel show "good share (view net' cos (exec_held e @ held @ nt_tasks net'))"
    by (auto simp: exec_sending_poll_def split: prod.splits poll.splits sum.splits option.splits if_splits)
  show "r \<noteq> Pending \<Longrightarrow> e = Exec_Done"
    using assms(4) by (auto simp: exec_sending_poll_def split: prod.splits poll.splits sum.splits option.splits if_splits)
qed

lemma exec_good:
  assumes "good share (view net cos (exec_held f @ held @ nt_tasks net))"
    and "poolable_connection ops" and "can_share ops = share"
    and "exec_poll checked ops via into now f net = (r, e, net')"
  shows "good share (view net' cos (exec_held e @ held @ nt_tasks net'))" and "r \<noteq> Pending \<Longrightarrow> e = Exec_Done"
proof -
  have "good share (view net' cos (exec_held e @ held @ nt_tasks net')) \<and> (r \<noteq> Pending \<longrightarrow> e = Exec_Done)"
  proof (cases f)
    case (Exec_Start req p)
    with assms(1) have g: "good share (view net cos (p # held @ nt_tasks net))" by simp
    note sent = exec_sending_good [OF g assms(2,3)]
    from assms(4) Exec_Start net_release_good [OF g assms(2,3)] show ?thesis
      by (auto split: option.splits run.splits sum.splits dest: sent)
  next
    case (Exec_Sending fut p)
    with assms exec_sending_good [of share net cos p held ops via into now fut r e net'] show ?thesis by auto
  qed (use assms in auto)
  then show "good share (view net' cos (exec_held e @ held @ nt_tasks net'))" and "r \<noteq> Pending \<Longrightarrow> e = Exec_Done"
    by auto
qed

lemma request_good:
  fixes r :: "(('x, 'h) client_error + 'b body response) poll"
  assumes "good share (view net cos (exec_held f @ held @ nt_tasks net))"
    and "poolable_connection ops" and "can_share ops = share"
    and "response_request_poll checked ops via into now f net = (r, g, net')"
  shows "good share (view net' (future_checkouts g @ cos) (future_held g @ held @ nt_tasks net'))"
proof -
  obtain r' :: "(('x, 'h) client_error + 'b body response) poll" and e n where e: "exec_poll checked ops via into now f net = (r', e, n)" using prod_cases3 by blast
  from exec_good [OF assms(1-3) e] assms(4) e show ?thesis
    by (auto simp: response_request_poll_def split: poll.splits)
qed

text \<open>A poll of the first checkout depends on no other, and leaves the others as they are.\<close>

lemma do_poll_head:
  assumes "(case rx_channel (ck_waiter co) of None \<Rightarrow> (Panicked, w_cells w)
      | Some n \<Rightarrow> (let (r, c) = rx_poll (w_cells w ! n) in (r, (w_cells w)[n := c]))) = (rx, cells)"
    and "checkout_poll ops tshare (rx_closed cells) now \<lparr>in_rx = rx, in_transport = tr, in_handshake = hs\<rparr> (w_heap w) co
       = (heap', sends, co', res)"
    and "w_checkouts w = co # cos"
  shows "do_poll ops tshare now tr hs 0 w =
    (case res of
       Pending \<Rightarrow> (w\<lparr>w_heap := heap', w_cells := deliver sends cells, w_checkouts := co' # cos\<rparr>, res)
     | _ \<Rightarrow> (let (heap'', cells'') = end_checkout ops now co' heap' (deliver sends cells)
            in (w\<lparr>w_heap := heap'', w_cells := cells'', w_checkouts := cos,
                  w_held := w_held w @ (case res of Ready (Inr p) \<Rightarrow> [p] | _ \<Rightarrow> [])\<rparr>, res)))"
  using assms by (cases res) (simp_all add: do_poll_def Let_def remove_at_def)

lemma do_poll_view:
  "\<exists>heap cells co' res. \<forall>cos held. do_poll ops tshare now tr hs 0 (view net (co # cos) held) =
     (\<lparr>w_heap = heap, w_cells = cells, w_checkouts = (if res = Pending then co' # cos else cos),
       w_held = held @ (case res of Ready (Inr p) \<Rightarrow> [p] | _ \<Rightarrow> [])\<rparr>, res)"
proof -
  obtain rx cells where rx: "(case rx_channel (ck_waiter co) of None \<Rightarrow> (Panicked, nt_cells net)
      | Some n \<Rightarrow> (let (r, c) = rx_poll (nt_cells net ! n) in (r, (nt_cells net)[n := c]))) = (rx, cells)"
    using prod.exhaust by blast
  obtain heap' sends co' res where cp:
    "checkout_poll ops tshare (rx_closed cells) now \<lparr>in_rx = rx, in_transport = tr, in_handshake = hs\<rparr> (nt_heap net) co
       = (heap', sends, co', res)" using prod_cases4 by blast
  obtain heap'' cells'' where ec: "end_checkout ops now co' heap' (deliver sends cells) = (heap'', cells'')" by fastforce
  have polled: "do_poll ops tshare now tr hs 0 (view net (co # cos) held) =
    (case res of
       Pending \<Rightarrow> ((view net (co # cos) held)\<lparr>w_heap := heap', w_cells := deliver sends cells, w_checkouts := co' # cos\<rparr>, res)
     | _ \<Rightarrow> ((view net (co # cos) held)\<lparr>w_heap := heap'', w_cells := cells'', w_checkouts := cos,
            w_held := held @ (case res of Ready (Inr p) \<Rightarrow> [p] | _ \<Rightarrow> [])\<rparr>, res))" for cos held
  proof -
    have "do_poll ops tshare now tr hs 0 (view net (co # cos) held) = (case res of
       Pending \<Rightarrow> ((view net (co # cos) held)\<lparr>w_heap := heap', w_cells := deliver sends cells, w_checkouts := co' # cos\<rparr>, res)
     | _ \<Rightarrow> (let (heap'', cells'') = end_checkout ops now co' heap' (deliver sends cells)
            in ((view net (co # cos) held)\<lparr>w_heap := heap'', w_cells := cells'', w_checkouts := cos,
                  w_held := w_held (view net (co # cos) held) @ (case res of Ready (Inr p) \<Rightarrow> [p] | _ \<Rightarrow> [])\<rparr>, res)))"
      by (rule do_poll_head; unfold view_simps) (rule rx cp refl)+
    then show ?thesis by (cases res) (simp_all add: ec)
  qed
  let ?heap = "if res = Pending then heap' else heap''" and ?cells = "if res = Pending then deliver sends cells else cells''"
  have "do_poll ops tshare now tr hs 0 (view net (co # cos) held) =
     (\<lparr>w_heap = ?heap, w_cells = ?cells, w_checkouts = (if res = Pending then co' # cos else cos),
       w_held = held @ (case res of Ready (Inr p) \<Rightarrow> [p] | _ \<Rightarrow> [])\<rparr>, res)" for cos held
    by (cases res) (simp_all add: polled)
  then show ?thesis by blast
qed

lemma response_poll_good:
  fixes r :: "(('x, 'h) client_error + 'b body response) poll"
  assumes "good share (view net (future_checkouts f @ cos) (future_held f @ held @ nt_tasks net))"
    and "poolable_connection ops" and "can_share ops = share"
    and "\<And>t c. hs t = Ready (Inr c) \<Longrightarrow>
      share c \<or> c \<notin># world_conns (view net (future_checkouts f @ cos) (future_held f @ held @ nt_tasks net))"
    and "response_poll checked ops via into tshare now tr hs f net = (r, g, net')"
  shows "good share (view net' (future_checkouts g @ cos) (future_held g @ held @ nt_tasks net'))"
proof (cases f)
  case (RF_Request e)
  with assms request_good [of share net cos e held ops checked via into now r g net'] show ?thesis by simp
next
  case (RF_Checkout co req)
  let ?w = "view net (co # cos) (held @ nt_tasks net)"
  from do_poll_view [of ops tshare now tr hs net co] obtain heap cells co' res where
    polled: "\<And>cos held. do_poll ops tshare now tr hs 0 (view net (co # cos) held) =
      (\<lparr>w_heap = heap, w_cells = cells, w_checkouts = (if res = Pending then co' # cos else cos),
        w_held = held @ (case res of Ready (Inr p) \<Rightarrow> [p] | _ \<Rightarrow> [])\<rparr>, res)" by blast
  let ?net = "net\<lparr>nt_heap := heap, nt_cells := cells\<rparr>"
  from assms(1) RF_Checkout have g: "good share ?w" by simp
  then have "good share (fst (do_poll ops tshare now tr hs 0 ?w))"
    using do_poll_ok [of ?w ops share 0 hs tshare now tr] assms(2,3,4) RF_Checkout good_step [OF g]
    by (simp add: good_def)
  then have after: "good share (view ?net (if res = Pending then co' # cos else cos)
      (held @ nt_tasks net @ (case res of Ready (Inr p) \<Rightarrow> [p] | _ \<Rightarrow> [])))"
    unfolding polled by (simp add: view_def)
  from polled [of "[]" "[]"] have single: "do_poll ops tshare now tr hs 0
      \<lparr>w_heap = nt_heap net, w_cells = nt_cells net, w_checkouts = [co], w_held = []\<rparr> =
      (\<lparr>w_heap = heap, w_cells = cells, w_checkouts = (if res = Pending then [co'] else []),
        w_held = (case res of Ready (Inr p) \<Rightarrow> [p] | _ \<Rightarrow> [])\<rparr>, res)" by (simp add: view_def)
  show ?thesis
  proof (cases "\<exists>p. res = Ready (Inr p)")
    case True
    then obtain p where p: "res = Ready (Inr p)" ..
    have "good share (view ?net cos (exec_held (Exec_Start req p) @ held @ nt_tasks ?net))"
      using after p good_perm [of cos cos "held @ nt_tasks net @ [p]" "p # held @ nt_tasks net"] by simp
    from request_good [OF this assms(2,3)] assms(5) RF_Checkout single p show ?thesis by simp
  next
    case False
    with assms(5) RF_Checkout single after show ?thesis
      by (auto split: poll.splits sum.splits)
  qed
qed (use assms in auto)

lemma response_drop_good:
  assumes "good share (view net (future_checkouts f @ cos) (future_held f @ held @ nt_tasks net))"
    and "poolable_connection ops" and "can_share ops = share"
  shows "good share (view (response_drop ops now f net) cos (held @ nt_tasks (response_drop ops now f net)))"
proof (cases f)
  case (RF_Checkout co req)
  let ?w = "view net (co # cos) (held @ nt_tasks net)"
  from assms(1) RF_Checkout have g: "good share ?w" by simp
  have "do_cancel ops now 0 ?w = view (response_drop ops now f net) cos (held @ nt_tasks (response_drop ops now f net))"
    by (simp add: RF_Checkout do_cancel_def view_def remove_at_def split: prod.splits)
  with do_cancel_ok [of ?w ops share 0 now] assms(2,3) g good_step [OF g] show ?thesis by (simp add: good_def)
next
  case (RF_Request e)
  with assms net_release_good [of share net cos _ "held @ nt_tasks net" ops now] show ?thesis by (cases e) auto
qed (use assms in auto)

lemma ready_task_good:
  assumes "good share (view net cos (nt_tasks net @ held))" and "j < length (nt_tasks net)"
    and "poolable_connection ops" and "can_share ops = share"
  shows "good share (view (ready_task_poll ops via now j net) cos (nt_tasks (ready_task_poll ops via now j net) @ held))"
proof -
  let ?ts = "nt_tasks net" and ?p = "nt_tasks net ! j"
  let ?net = "net\<lparr>nt_tasks := remove_at j (nt_tasks net)\<rparr>"
  have "good share (view ?net cos (?p # remove_at j ?ts @ held))"
    using assms(1) good_perm [of cos cos "?ts @ held" "?p # remove_at j ?ts @ held"]
    by (simp add: mset_remove_at [OF assms(2)])
  from net_release_good [OF this assms(3,4), of now] assms(1)
  show ?thesis by (auto simp: ready_task_poll_def Let_def split: option.splits poll.splits)
qed

section \<open>Every step keeps the invariant\<close>

definition client_ok :: "('c \<Rightarrow> bool) \<Rightarrow> ('c, 'f, 'st, 'b, 'sf, 'x) client_world \<Rightarrow> bool" where
  "client_ok share w \<longleftrightarrow> good share (view (fst w) (concat (map future_checkouts (snd w)))
     (concat (map future_held (snd w)) @ nt_tasks (fst w)))"

lemma list_msum_concat: "list_msum f (concat xss) = list_msum (list_msum f) xss"
  by (induction xss) simp_all

lemma list_msum_add: "list_msum (\<lambda>x. f x + g x) xs = list_msum f xs + list_msum g xs"
  by (induction xs) (simp_all add: ac_simps)

lemma list_msum_map: "list_msum f (map g xs) = list_msum (\<lambda>x. f (g x)) xs"
  by (simp add: list_msum_def comp_def)

lemma client_conns_world:
  "client_conns (net, fs) = world_conns (view net (concat (map future_checkouts fs)) (concat (map future_held fs) @ nt_tasks net))"
proof -
  have "list_msum future_conns fs = list_msum (\<lambda>f. list_msum checkout_conns (future_checkouts f)) fs
      + list_msum (\<lambda>f. list_msum pooled_conns (future_held f)) fs"
    by (simp add: future_conns_def [abs_def] list_msum_add)
  then show ?thesis by (simp add: client_conns_def world_conns_def list_msum_concat list_msum_map ac_simps)
qed

lemma mset_concat_at:
  "j < length fs \<Longrightarrow> mset (concat (map g fs)) = mset (g (fs ! j) @ concat (map g (remove_at j fs)))"
  by (subst id_take_nth_drop [of j fs]) (auto simp: remove_at_def ac_simps)

lemma mset_concat_update:
  "j < length fs \<Longrightarrow> mset (concat (map g (fs[j := f]))) = mset (g f @ concat (map g (remove_at j fs)))"
  by (auto simp: upd_conv_take_nth_drop remove_at_def ac_simps)

lemma client_call_good:
  fixes f :: "('c, ('t, 'p, 'cf) connector, 'st, 'b, 'sf, 'x) response_future"
  assumes "good share (view net cos held)" and "cs_pool svc \<in> {None, Some 0}"
    and "client_call ops now into svc request net = Return (f, net')"
  shows "good share (view net' (cos @ future_checkouts f) held)" and "future_held f = []" and "nt_tasks net' = nt_tasks net"
proof -
  let ?pool = "Option.bind (cs_pool svc) (\<lambda>a. map_option (Pair a) (nt_heap net a))"
  from assms(3) obtain proto where proto: "proto_from_version (rq_version request) = Return proto"
    by (cases "proto_from_version (rq_version request)") (simp_all add: client_call_def)
  note call = assms(3) [unfolded client_call_def proto run_bind.simps Let_def, simplified]
  have "good share (view net' (cos @ future_checkouts f) held) \<and> future_held f = [] \<and> nt_tasks net' = nt_tasks net"
  proof (cases "key_try_from (rq_uri request)")
    case (Inl e)
    with call assms(1) show ?thesis by (auto simp: client_connect_to_def)
  next
    case (Inr key)
    let ?connector = "client_connector svc (rq_uri request) proto :: ('t, 'p, 'cf) connector"
    show ?thesis
    proof (cases ?pool)
      case None
      let ?co = "checkout_detached key ?connector :: ('c, 't, 'p, 'cf, 'st) client_checkout"
      from call Inr None have f: "f = RF_Checkout ?co (request_map into request)" "net' = net"
        by (auto simp: client_connect_to_def split: option.splits)
      have "winv (view net (cos @ [?co]) held)"
        using assms(1) by (auto simp: good_def winv_def co_ok_def checkout_detached_def)
      moreover have "world_conns (view net (cos @ [?co]) held) = world_conns (view net cos held)"
        by (simp add: world_conns_def checkout_conns_def checkout_detached_def)
      ultimately show ?thesis using assms(1) f by (simp add: good_def exclusive_def)
    next
      case (Some ai)
      with assms(2) obtain i where i: "cs_pool svc = Some 0" "nt_heap net 0 = Some i" "ai = (0, i)"
        by (auto simp: bind_eq_Some_conv)
      obtain i' co kept where pc: "pool_checkout ops now 0 (length (nt_cells net)) key (proto_multiplex proto) ?connector i
          = (i', co :: ('c, 't, 'p, 'cf, 'st) client_checkout, kept)" using prod_cases3 by blast
      from call Inr Some i pc have f: "f = RF_Checkout co (request_map into request)"
          "net' = net\<lparr>nt_heap := (nt_heap net)(0 \<mapsto> i'), nt_cells := nt_cells net @ [if kept then Empty else TxDropped]\<rparr>"
        by (auto simp: client_connect_to_def)
      have "do_checkout ops now key (proto_multiplex proto) ?connector (view net cos held) = view net' (cos @ [co]) held"
        using i pc f by (simp add: do_checkout_def view_def)
      with do_checkout_ok(1) [of "view net cos held" ops now key "proto_multiplex proto" ?connector]
        do_checkout_ok(2) [of "view net cos held" share ops now key "proto_multiplex proto" ?connector] assms(1) good_step f
      show ?thesis by (force simp: good_def)
    qed
  qed
  then show "good share (view net' (cos @ future_checkouts f) held)" and "future_held f = []" and "nt_tasks net' = nt_tasks net"
    by simp_all
qed

lemma client_ok_at:
  assumes "client_ok share (net, fs)" and "j < length fs"
  shows "good share (view net (future_checkouts (fs ! j) @ concat (map future_checkouts (remove_at j fs)))
    (future_held (fs ! j) @ concat (map future_held (remove_at j fs)) @ nt_tasks net))"
  using assms(1) good_perm [OF mset_concat_at [OF assms(2), of future_checkouts],
      of "concat (map future_held fs) @ nt_tasks net"
      "future_held (fs ! j) @ concat (map future_held (remove_at j fs)) @ nt_tasks net"]
    mset_concat_at [OF assms(2), of future_held]
  by (simp add: client_ok_def)

lemma client_step_ok:
  assumes "client_step share vias into w w'" and "client_ok share w"
  shows "client_ok share w'"
  using assms
proof (cases rule: client_step.cases)
  case (call ops svc now request net f net' fs)
  from assms(2) call(1) have "good share (view net (concat (map future_checkouts fs)) (concat (map future_held fs) @ nt_tasks net))"
    by (simp add: client_ok_def)
  from client_call_good [OF this call(5,6)] call(2) show ?thesis by (simp add: client_ok_def)
next
  case (poll ops via j fs hs net checked tshare now tr r f net')
  let ?cos = "concat (map future_checkouts (remove_at j fs))" and ?held = "concat (map future_held (remove_at j fs))"
  note at = mset_concat_at [OF poll(6), of future_checkouts] and upd = mset_concat_update [OF poll(6), of future_checkouts f]
      mset_concat_update [OF poll(6), of future_held f]
    and held = mset_concat_at [OF poll(6), of future_held]
  have perm: "mset (concat (map future_held fs) @ nt_tasks net) = mset (future_held (fs ! j) @ ?held @ nt_tasks net)"
    by (simp add: held)
  note g = client_ok_at [OF assms(2) [unfolded poll(1)] poll(6)]
  have fresh: "share c \<or> c \<notin># world_conns (view net (future_checkouts (fs ! j) @ ?cos) (future_held (fs ! j) @ ?held @ nt_tasks net))"
    if "hs t = Ready (Inr c)" for t c
    using poll(7) [OF that] world_perm [OF at perm] by (simp add: client_conns_world)
  from response_poll_good [OF g poll(3,4) fresh poll(8)]
  have "good share (view net' (future_checkouts f @ ?cos) (future_held f @ ?held @ nt_tasks net'))" .
  then have "good share (view net' (concat (map future_checkouts (fs[j := f]))) (concat (map future_held (fs[j := f])) @ nt_tasks net'))"
    using good_perm [of "concat (map future_checkouts (fs[j := f]))" "future_checkouts f @ ?cos"
      "concat (map future_held (fs[j := f])) @ nt_tasks net'" "future_held f @ ?held @ nt_tasks net'" share net'] upd by simp
  with poll(2) show ?thesis by (simp add: client_ok_def)
next
  case (cancel ops j fs net now)
  from response_drop_good [OF client_ok_at [OF assms(2) [unfolded cancel(1)] cancel(5)] cancel(3,4)] cancel(2) show ?thesis by (simp add: client_ok_def)
next
  case (task ops via j net fs now)
  let ?cos = "concat (map future_checkouts fs)" and ?held = "concat (map future_held fs)"
  have "good share (view net ?cos (nt_tasks net @ ?held))"
    using assms(2) task(1) good_perm [of ?cos ?cos "?held @ nt_tasks net" "nt_tasks net @ ?held" share net]
    by (simp add: client_ok_def)
  from ready_task_good [OF this task(6,3,4), of via now] task(2) show ?thesis
    using good_perm [of ?cos ?cos "nt_tasks (ready_task_poll ops via now j net) @ ?held"
      "?held @ nt_tasks (ready_task_poll ops via now j net)"] by (simp add: client_ok_def)
next
  case (drop_pool net fs)
  let ?w = "view net (concat (map future_checkouts fs)) (concat (map future_held fs) @ nt_tasks net)"
  from assms(2) drop_pool(1) have g: "good share ?w" by (simp add: client_ok_def)
  have "do_drop_pool ?w = view (net\<lparr>nt_heap := (nt_heap net)(0 := None), nt_cells := map tx_drop (nt_cells net)\<rparr>)
      (concat (map future_checkouts fs)) (concat (map future_held fs) @ nt_tasks net)"
    by (simp add: do_drop_pool_def view_def)
  with do_drop_pool_ok(1) [of ?w] do_drop_pool_ok(2) [of ?w share] g good_step [OF g] drop_pool(2) show ?thesis
    by (simp add: client_ok_def good_def)
qed

lemma client_init_ok: "client_ok share (client_init conf)"
  using winv_init [of conf] exclusive_init [of share conf]
  by (simp add: client_ok_def client_init_def good_def view_def world_init_def)

lemma client_reachable_ok:
  "(client_step share vias into)\<^sup>*\<^sup>* (client_init conf) w \<Longrightarrow> client_ok share w"
  by (induction rule: rtranclp_induct) (auto simp: client_init_ok intro: client_step_ok)

section \<open>Properties\<close>

text \<open>C2: whatever requests are made, polled, answered and dropped over one pool, a connection
  that cannot be multiplexed is never used twice: it is idle in the pool, on its way to a
  request, carrying one request, or waiting in one task to be ready again.\<close>

theorem client_exclusive:
  assumes "(client_step share vias into)\<^sup>*\<^sup>* (client_init conf) w" and "\<not> share c"
  shows "count (client_conns w) c \<le> 1"
  using client_reachable_ok [OF assms(1)] assms(2)
  by (cases w) (simp add: client_ok_def good_def exclusive_def client_conns_world)

definition example_request :: "version \<Rightarrow> unit body request" where
  "example_request v = \<lparr>rq_method = ''GET'', rq_uri = \<lparr>u_scheme = Some ''http'',
      u_authority = Some \<lparr>au_text = ''h'', au_host = ''h'', au_port = None\<rparr>, u_path = Some ''/''\<rparr>,
     rq_version = v, rq_headers = [], rq_extensions = [], rq_body = Empty_Body\<rparr>"

definition example_service :: "(unit, unit) client_service" where
  "example_service = \<lparr>cs_transport = (), cs_protocol = (), cs_pool = Some 0\<rparr>"

definition example_via :: "(nat, unit, unit, unit body, unit) connection_ops" where
  "example_via = \<lparr>c_version = (\<lambda>_. HTTP_11), c_send = (\<lambda>_ _. ()), c_fpoll = (\<lambda>f. (Pending, f)), c_ready = (\<lambda>_. Pending)\<rparr>"

definition example_net :: "nat client_net" where
  "example_net = \<lparr>nt_heap = [0 \<mapsto> pool_new config_default], nt_cells = [], nt_tasks = []\<rparr>"

text \<open>One request, called and polled once: it is then carried by the connection 7.\<close>

definition example_called ::
  "(nat, (unit, unit, unit) connector, unit, unit, unit, unit) client_world" where
  "example_called = (case client_call (exclusive_ops :: nat conn_ops) 1 id example_service (example_request HTTP_11) example_net of
     Return (f, net) \<Rightarrow> (net, [f]) | Panic \<Rightarrow> (example_net, []))"

definition example_polled ::
  "(nat, (unit, unit, unit) connector, unit, unit, unit, unit) client_world" where
  "example_polled = (let (r, f, net) = response_poll True exclusive_ops example_via id (\<lambda>_. False) 2
       (Ready (Inr ())) (\<lambda>_. Ready (Inr 7)) (hd (snd example_called)) (fst example_called)
     in let r' = (r :: ((unit, unit) client_error + unit body response) poll) in (net, [f]))"

lemma example_call:
  "client_call (exclusive_ops :: nat conn_ops) 1 id example_service (example_request HTTP_11) example_net =
     Return (hd (snd example_called), fst example_called)"
  "length (snd example_called) = 1" "client_conns example_called = {#}"
  by (simp_all add: example_called_def client_call_def example_request_def example_service_def example_net_def
      client_connect_to_def key_try_from_def client_conns_def world_simps config_default_def heap_conns_def
      cells_conns_def cell_conns_def future_conns_def checkout_conns_def inner_conns_def)

lemma example_step:
  obtains f net where "example_called = (net, [f])"
    and "client_step (\<lambda>_. False) {example_via} id
      (client_init config_default :: (nat, (unit, unit, unit) connector, unit, unit, unit, unit) client_world) (net, [f])"
proof -
  obtain net fs where e: "example_called = (net, fs)" by fastforce
  have "length fs = 1" using example_call(2) unfolding e by simp
  then obtain f where "fs = [f]" by (auto simp: length_Suc_conv)
  with e have called: "example_called = (net, [f])" by simp
  have i: "(client_init config_default :: (nat, (unit, unit, unit) connector, unit, unit, unit, unit) client_world)
      = (example_net, [])" by (simp add: client_init_def example_net_def)
  have "client_step (\<lambda>_. False) {example_via} id (example_net, []) (net, [] @ [f])"
    by (rule client_step.call [OF exclusive_ops_lawful _ example_call(1) [unfolded called list.sel snd_conv fst_conv]])
      (simp add: example_service_def)
  with called i that show thesis by simp
qed

theorem client_exclusive_witness:
  "count (client_conns example_polled) 7 \<le> 1 \<and> length (snd example_polled) = 1"
proof -
  let ?step = "client_step (\<lambda>_. False) {example_via} id"
  let ?init = "client_init config_default :: (nat, (unit, unit, unit) connector, unit, unit, unit, unit) client_world"
  obtain f net where called: "example_called = (net, [f])" and a: "?step ?init (net, [f])"
    by (rule example_step)
  obtain r g net' where p: "response_poll True exclusive_ops example_via id (\<lambda>_. False) 2
       (Ready (Inr ())) (\<lambda>_. Ready (Inr 7)) f net = (r :: ((unit, unit) client_error + unit body response) poll, g, net')"
    using prod_cases3 by blast
  then have polled: "example_polled = (net', [g])"
    by (simp add: example_polled_def called Let_def)
  have "?step (net, [f]) (net', [f][0 := g])"
    by (rule client_step.poll [OF exclusive_ops_lawful, where via = example_via])
      (use example_call(3) called p in simp_all)
  with a have "?step\<^sup>*\<^sup>* ?init example_polled"
    by (simp add: polled converse_rtranclp_into_rtranclp)
  from client_exclusive [OF this, of 7] show ?thesis by (simp add: polled)
qed

end
