(* ===== verification/Client_Builder.thy ===== *)
theory Client_Builder
  imports Client_Service Transport
begin

text \<open>
  The client and its builder (client/mod.rs, client/builder.rs): the settings, the stack of
  layers that \<open>build_service\<close> puts around the client's service, and the requests of a
  \<open>Client\<close>. The layers and the redirect policies are tower's and tower-http's, and with
  \<open>oneshot\<close> they are parameters.
\<close>

section \<open>Settings\<close>

record ('t, 'p, 'rp, 'cfg) client_builder =
  cb_transport :: 't
  cb_protocol :: 'p
  cb_user_agent :: "string option"
  cb_redirect :: "'rp option"
  cb_timeout :: "duration option"
  cb_retries :: "usize option"
  cb_tls :: "'cfg option"
  cb_pool :: "config option"

definition client_builder_new :: "(unit, unit, 'rp, 'cfg) client_builder" where
  "client_builder_new =
     \<lparr>cb_transport = (), cb_protocol = (), cb_user_agent = None, cb_redirect = None, cb_timeout = None,
      cb_retries = None, cb_tls = None, cb_pool = None\<rparr>"

text \<open>
  \<open>default_tls_config\<close>: the platform's certificates, each added to the roots; both fail by
  panicking. The protocols offered by ALPN are HTTP/2 and HTTP/1.1, in this order.
\<close>

fun add_roots :: "('cert \<Rightarrow> 'roots \<Rightarrow> 'err + 'roots) \<Rightarrow> 'cert list \<Rightarrow> 'roots \<Rightarrow> 'roots run" where
  "add_roots add [] roots = Return roots"
| "add_roots add (cert # certs) roots = run_bind (expect (add cert roots)) (add_roots add certs)"

definition default_tls_config ::
  "'err + 'cert list \<Rightarrow> ('cert \<Rightarrow> 'roots \<Rightarrow> 'err + 'roots) \<Rightarrow> 'roots \<Rightarrow> ('roots \<Rightarrow> string list \<Rightarrow> 'cfg) \<Rightarrow> 'cfg run" where
  "default_tls_config native add none make_config =
     run_bind (expect native) (\<lambda>certs.
       run_bind (add_roots add certs none) (\<lambda>roots.
         Return (make_config roots ([] @ [''h2''] @ [''http/1.1'']))))"

definition client_builder_default ::
  "'t \<Rightarrow> 'p \<Rightarrow> 'rp \<Rightarrow> 'cfg run \<Rightarrow> ('t, 'p, 'rp, 'cfg) client_builder run" where
  "client_builder_default tcp_default auto_default standard tls =
     run_bind tls (\<lambda>cfg.
       Return \<lparr>cb_transport = tcp_default, cb_protocol = auto_default, cb_user_agent = None,
         cb_redirect = Some standard, cb_timeout = Some (30 * 10 ^ 9), cb_retries = Some 3,
         cb_tls = Some cfg, cb_pool = Some config_default\<rparr>)"

text \<open>Settings that change a type rebuild the record, the others update it.\<close>

definition client_with_tcp ::
  "'t2 \<Rightarrow> ('t, 'p, 'rp, 'cfg) client_builder \<Rightarrow> ('t2, 'p, 'rp, 'cfg) client_builder" where
  "client_with_tcp conf b =
     \<lparr>cb_transport = conf, cb_protocol = cb_protocol b, cb_user_agent = cb_user_agent b, cb_redirect = cb_redirect b,
      cb_timeout = cb_timeout b, cb_retries = cb_retries b, cb_tls = cb_tls b, cb_pool = cb_pool b\<rparr>"

definition client_with_transport ::
  "'t2 \<Rightarrow> ('t, 'p, 'rp, 'cfg) client_builder \<Rightarrow> ('t2, 'p, 'rp, 'cfg) client_builder" where
  "client_with_transport transport b =
     \<lparr>cb_transport = transport, cb_protocol = cb_protocol b, cb_user_agent = cb_user_agent b, cb_redirect = cb_redirect b,
      cb_timeout = cb_timeout b, cb_retries = cb_retries b, cb_tls = cb_tls b, cb_pool = cb_pool b\<rparr>"

definition client_without_tls :: "('t, 'p, 'rp, 'cfg) client_builder \<Rightarrow> ('t, 'p, 'rp, 'cfg) client_builder" where
  "client_without_tls b = b\<lparr>cb_tls := None\<rparr>"

definition client_with_tls :: "'cfg \<Rightarrow> ('t, 'p, 'rp, 'cfg) client_builder \<Rightarrow> ('t, 'p, 'rp, 'cfg) client_builder" where
  "client_with_tls conf b = b\<lparr>cb_tls := Some conf\<rparr>"

definition client_with_default_tls ::
  "'cfg run \<Rightarrow> ('t, 'p, 'rp, 'cfg) client_builder \<Rightarrow> ('t, 'p, 'rp, 'cfg) client_builder run" where
  "client_with_default_tls tls b = run_bind tls (\<lambda>cfg. Return (b\<lparr>cb_tls := Some cfg\<rparr>))"

definition client_tls :: "('t, 'p, 'rp, 'cfg) client_builder \<Rightarrow> 'cfg option" where
  "client_tls b = cb_tls b"

definition client_pool :: "('t, 'p, 'rp, 'cfg) client_builder \<Rightarrow> config option" where
  "client_pool b = cb_pool b"

definition client_with_pool :: "config \<Rightarrow> ('t, 'p, 'rp, 'cfg) client_builder \<Rightarrow> ('t, 'p, 'rp, 'cfg) client_builder" where
  "client_with_pool pool b = b\<lparr>cb_pool := Some pool\<rparr>"

definition client_with_default_pool :: "('t, 'p, 'rp, 'cfg) client_builder \<Rightarrow> ('t, 'p, 'rp, 'cfg) client_builder" where
  "client_with_default_pool b = b\<lparr>cb_pool := Some config_default\<rparr>"

definition client_builder_without_pool :: "('t, 'p, 'rp, 'cfg) client_builder \<Rightarrow> ('t, 'p, 'rp, 'cfg) client_builder" where
  "client_builder_without_pool b = b\<lparr>cb_pool := None\<rparr>"

definition client_with_auto_http ::
  "'p2 \<Rightarrow> ('t, 'p, 'rp, 'cfg) client_builder \<Rightarrow> ('t, 'p2, 'rp, 'cfg) client_builder" where
  "client_with_auto_http auto_default b =
     \<lparr>cb_transport = cb_transport b, cb_protocol = auto_default, cb_user_agent = cb_user_agent b, cb_redirect = cb_redirect b,
      cb_timeout = cb_timeout b, cb_retries = cb_retries b, cb_tls = cb_tls b, cb_pool = cb_pool b\<rparr>"

definition client_with_protocol ::
  "'p2 \<Rightarrow> ('t, 'p, 'rp, 'cfg) client_builder \<Rightarrow> ('t, 'p2, 'rp, 'cfg) client_builder" where
  "client_with_protocol protocol b =
     \<lparr>cb_transport = cb_transport b, cb_protocol = protocol, cb_user_agent = cb_user_agent b, cb_redirect = cb_redirect b,
      cb_timeout = cb_timeout b, cb_retries = cb_retries b, cb_tls = cb_tls b, cb_pool = cb_pool b\<rparr>"

definition client_protocol :: "('t, 'p, 'rp, 'cfg) client_builder \<Rightarrow> 'p" where
  "client_protocol b = cb_protocol b"

definition client_with_user_agent :: "string \<Rightarrow> ('t, 'p, 'rp, 'cfg) client_builder \<Rightarrow> ('t, 'p, 'rp, 'cfg) client_builder" where
  "client_with_user_agent user_agent b = b\<lparr>cb_user_agent := Some user_agent\<rparr>"

definition client_user_agent :: "('t, 'p, 'rp, 'cfg) client_builder \<Rightarrow> string option" where
  "client_user_agent b = cb_user_agent b"

definition client_with_redirect_policy ::
  "'rp2 \<Rightarrow> ('t, 'p, 'rp, 'cfg) client_builder \<Rightarrow> ('t, 'p, 'rp2, 'cfg) client_builder" where
  "client_with_redirect_policy policy b =
     \<lparr>cb_transport = cb_transport b, cb_protocol = cb_protocol b, cb_user_agent = cb_user_agent b, cb_redirect = Some policy,
      cb_timeout = cb_timeout b, cb_retries = cb_retries b, cb_tls = cb_tls b, cb_pool = cb_pool b\<rparr>"

definition client_without_redirects ::
  "('t, 'p, 'rp, 'cfg) client_builder \<Rightarrow> ('t, 'p, 'rp2, 'cfg) client_builder" where
  "client_without_redirects b =
     \<lparr>cb_transport = cb_transport b, cb_protocol = cb_protocol b, cb_user_agent = cb_user_agent b, cb_redirect = None,
      cb_timeout = cb_timeout b, cb_retries = cb_retries b, cb_tls = cb_tls b, cb_pool = cb_pool b\<rparr>"

definition client_with_standard_redirect_policy ::
  "'rp2 \<Rightarrow> ('t, 'p, 'rp, 'cfg) client_builder \<Rightarrow> ('t, 'p, 'rp2, 'cfg) client_builder" where
  "client_with_standard_redirect_policy standard b =
     \<lparr>cb_transport = cb_transport b, cb_protocol = cb_protocol b, cb_user_agent = cb_user_agent b, cb_redirect = Some standard,
      cb_timeout = cb_timeout b, cb_retries = cb_retries b, cb_tls = cb_tls b, cb_pool = cb_pool b\<rparr>"

definition client_redirect_policy :: "('t, 'p, 'rp, 'cfg) client_builder \<Rightarrow> 'rp option" where
  "client_redirect_policy b = cb_redirect b"

definition client_with_timeout :: "duration \<Rightarrow> ('t, 'p, 'rp, 'cfg) client_builder \<Rightarrow> ('t, 'p, 'rp, 'cfg) client_builder" where
  "client_with_timeout tmo b = b\<lparr>cb_timeout := Some tmo\<rparr>"

definition client_timeout :: "('t, 'p, 'rp, 'cfg) client_builder \<Rightarrow> duration option" where
  "client_timeout b = cb_timeout b"

definition client_without_timeout :: "('t, 'p, 'rp, 'cfg) client_builder \<Rightarrow> ('t, 'p, 'rp, 'cfg) client_builder" where
  "client_without_timeout b = b\<lparr>cb_timeout := None\<rparr>"

definition client_with_optional_timeout :: "duration option \<Rightarrow> ('t, 'p, 'rp, 'cfg) client_builder \<Rightarrow> ('t, 'p, 'rp, 'cfg) client_builder" where
  "client_with_optional_timeout tmo b = b\<lparr>cb_timeout := tmo\<rparr>"

definition client_with_retries :: "usize \<Rightarrow> ('t, 'p, 'rp, 'cfg) client_builder \<Rightarrow> ('t, 'p, 'rp, 'cfg) client_builder" where
  "client_with_retries attempts b = b\<lparr>cb_retries := Some attempts\<rparr>"

definition client_retries :: "('t, 'p, 'rp, 'cfg) client_builder \<Rightarrow> usize option" where
  "client_retries b = cb_retries b"

definition client_without_retries :: "('t, 'p, 'rp, 'cfg) client_builder \<Rightarrow> ('t, 'p, 'rp, 'cfg) client_builder" where
  "client_without_retries b = b\<lparr>cb_retries := None\<rparr>"

section \<open>Building\<close>

text \<open>
  The layers around a service \<open>'svc\<close>, each as the function that wraps one. \<open>option_layer\<close> of
  nothing wraps nothing.
\<close>

record ('svc, 'rp) client_layers =
  ly_shared :: "'svc \<Rightarrow> 'svc"
  ly_retry :: "attempts \<Rightarrow> 'svc \<Rightarrow> 'svc"
  ly_timeout :: "duration \<Rightarrow> 'svc \<Rightarrow> 'svc"
  ly_header_if_not_present :: "string \<Rightarrow> string \<Rightarrow> 'svc \<Rightarrow> 'svc"
  ly_redirect :: "'rp \<Rightarrow> 'svc \<Rightarrow> 'svc"

definition option_layer :: "('svc \<Rightarrow> 'svc) option \<Rightarrow> 'svc \<Rightarrow> 'svc" where
  "option_layer l svc = (case l of Some f \<Rightarrow> f svc | None \<Rightarrow> svc)"

text \<open>
  \<open>BuildTransport\<close> and \<open>BuildProtocol\<close> are the functions \<open>bt\<close> and \<open>bp\<close>; for a transport or a
  protocol proper they are \<open>build_self\<close>. The pool is allocated at \<open>a\<close>.
\<close>

definition build_self :: "'p \<Rightarrow> 'p" where
  "build_self p = p"

definition build_user_agent :: "string option \<Rightarrow> string run" where
  "build_user_agent user_agent =
     (case user_agent of
        Some ua \<Rightarrow> expect (ok_or () (header_value_from_str ua))
      | None \<Rightarrow> Return package_agent)"

definition client_build_service ::
  "('svc, 'rp) client_layers \<Rightarrow> ('t \<Rightarrow> 't2) \<Rightarrow> ('p \<Rightarrow> 'p2) \<Rightarrow> ((('t2, 'cfg) tls_transport, 'p2) client_service \<Rightarrow> 'svc)
     \<Rightarrow> nat \<Rightarrow> (key, 'c) pool_heap \<Rightarrow> ('t, 'p, 'rp, 'cfg) client_builder \<Rightarrow> ('svc \<times> (key, 'c) pool_heap) run" where
  "client_build_service ly bt bp service a heap b =
     run_bind (build_user_agent (cb_user_agent b)) (\<lambda>user_agent.
       let transport = tls_transport_optional (cb_tls b) (bt (cb_transport b));
           inner = service \<lparr>cs_transport = transport, cs_protocol = bp (cb_protocol b),
                            cs_pool = map_option (\<lambda>_. a) (cb_pool b)\<rparr>;
           heap' = (case cb_pool b of Some conf \<Rightarrow> heap(a \<mapsto> pool_new conf) | None \<Rightarrow> heap)
       in Return
            (ly_shared ly
              (option_layer (map_option (\<lambda>n. ly_retry ly (Attempts n)) (cb_retries b))
                (option_layer (map_option (ly_timeout ly) (cb_timeout b))
                  (ly_header_if_not_present ly ''user-agent'' user_agent
                    (option_layer (map_option (ly_redirect ly) (cb_redirect b)) inner)))), heap'))"

section \<open>Clients (client/mod.rs)\<close>

text \<open>A \<open>Client\<close> is a shared service; each request goes to a clone of it.\<close>

definition client_new_from_service :: "('s \<Rightarrow> 'svc) \<Rightarrow> 's \<Rightarrow> 'svc" where
  "client_new_from_service into service = into service"

definition client_build ::
  "('svc, 'rp) client_layers \<Rightarrow> ('t \<Rightarrow> 't2) \<Rightarrow> ('p \<Rightarrow> 'p2) \<Rightarrow> ((('t2, 'cfg) tls_transport, 'p2) client_service \<Rightarrow> 'svc)
     \<Rightarrow> nat \<Rightarrow> (key, 'c) pool_heap \<Rightarrow> ('t, 'p, 'rp, 'cfg) client_builder \<Rightarrow> ('svc \<times> (key, 'c) pool_heap) run" where
  "client_build ly bt bp service a heap b =
     run_bind (client_build_service ly bt bp service a heap b) (\<lambda>(svc, heap').
       Return (client_new_from_service id svc, heap'))"

definition client_request :: "('svc \<Rightarrow> 'svc) \<Rightarrow> ('svc \<Rightarrow> 'b body request \<Rightarrow> 'f) \<Rightarrow> 'svc \<Rightarrow> 'b body request \<Rightarrow> 'f" where
  "client_request clone oneshot svc request = oneshot (clone svc) request"

definition client_get :: "('svc \<Rightarrow> 'svc) \<Rightarrow> ('svc \<Rightarrow> 'b body request \<Rightarrow> 'f) \<Rightarrow> 'svc \<Rightarrow> uri \<Rightarrow> 'f" where
  "client_get clone oneshot svc u =
     client_request clone oneshot svc
       \<lparr>rq_method = ''GET'', rq_uri = u, rq_version = HTTP_11, rq_headers = [], rq_extensions = [], rq_body = body_empty\<rparr>"

section \<open>What is built\<close>

lemma build_user_agent_panics:
  "build_user_agent ua = Panic \<longleftrightarrow> (\<exists>s. ua = Some s \<and> \<not> list_all header_byte s)"
  by (auto simp: build_user_agent_def header_value_from_str_def split: option.splits)

text \<open>Building fails only on a user agent that is no header value.\<close>

lemma client_build_panics:
  "client_build ly bt bp service a heap b = Panic \<longleftrightarrow> (\<exists>s. cb_user_agent b = Some s \<and> \<not> list_all header_byte s)"
  using build_user_agent_panics [of "cb_user_agent b"]
  by (cases "build_user_agent (cb_user_agent b)") (auto simp: client_build_def client_build_service_def Let_def)

lemma package_agent_valid: "list_all header_byte package_agent"
  by (simp add: package_agent_def header_byte_def)

text \<open>
  What the header layer is documented to do: the requests of the service it wraps get the
  header, if they have none of this name.
\<close>

definition inserts_header :: "(string \<Rightarrow> string \<Rightarrow> ('b body request \<Rightarrow> 'f) \<Rightarrow> 'b body request \<Rightarrow> 'f) \<Rightarrow> bool" where
  "inserts_header layer \<longleftrightarrow> (\<forall>name v svc req. \<exists>hs. or_insert_with name (Return v) (rq_headers req) = Return hs \<and>
     layer name v svc req = svc (req\<lparr>rq_headers := hs\<rparr>))"

lemma or_insert_keeps:
  "or_insert_with name v hs = Return hs' \<Longrightarrow> map_of hs n = Some x \<Longrightarrow> map_of hs' n = Some x"
  by (cases v) (auto simp: or_insert_with_def map_add_def split: if_splits option.splits)

lemma prepare_keeps:
  assumes "prepare_request checked v req = Return (Inr r)" and "map_of (rq_headers req) n = Some x"
  shows "map_of (rq_headers r) n = Some x"
proof -
  have host: "map_of (rq_headers q') n = Some x"
    if "set_host_header q = Return q'" "map_of (rq_headers q) n = Some x" for q q'
    using that by (cases "or_insert_with ''host'' (host_value (rq_uri q)) (rq_headers q)")
      (auto simp: set_host_header_def dest: or_insert_keeps)
  obtain hs where hs: "or_insert_with ''user-agent'' (Return package_agent) (rq_headers req) = Return hs"
    "map_of hs n = Some x" using assms(2) or_insert_keeps by (metis or_insert_Return)
  have form: "rq_headers r = rq_headers q" if "run_bind m (\<lambda>u. Return (Inr (q\<lparr>rq_uri := f u\<rparr>))) = Return (Inr r)" for m f q
    using that by (cases m) auto
  show ?thesis
  proof (cases "v = HTTP_11")
    case True
    then obtain q where q: "set_host_header (req\<lparr>rq_headers := hs\<rparr>) = Return q" and "rq_headers r = rq_headers q"
      using assms(1) hs(1)
      by (cases "set_host_header (req\<lparr>rq_headers := hs\<rparr>)") (auto simp: prepare_request_def split: if_splits dest: form)
    with host [OF q] hs(2) show ?thesis by simp
  next
    case False
    with assms(1) hs show ?thesis by (auto simp: prepare_request_def Let_def split: if_splits)
  qed
qed

text \<open>A client without retries, timeout and redirects hands its requests straight to the
  client's service; the agent they are sent with is their own, else the builder's, else the
  package's, whatever \<open>prepare_request\<close> adds later.\<close>

theorem client_agent_sent:
  fixes ly :: "('b body request \<Rightarrow> 'f, 'rp) client_layers" and req :: "'b body request"
  assumes "inserts_header (ly_header_if_not_present ly)" and "ly_shared ly = id"
    and "cb_retries b = None" and "cb_timeout b = None" and "cb_redirect b = None"
    and "client_build ly bt bp service a heap b = Return (client, heap')"
  shows "\<exists>svc req'. client req = service svc req' \<and> heap' = (case cb_pool b of None \<Rightarrow> heap | Some conf \<Rightarrow> heap(a \<mapsto> pool_new conf)) \<and>
    (cs_pool svc = None) = (cb_pool b = None) \<and>
    (\<forall>checked v r. prepare_request checked v req' = (Return (Inr r) :: (('x, 'h) client_error + 'b body request) run) \<longrightarrow>
       map_of (rq_headers r) ''user-agent'' =
         Some (case map_of (rq_headers req) ''user-agent'' of Some s \<Rightarrow> s
               | None \<Rightarrow> (case cb_user_agent b of Some ua \<Rightarrow> ua | None \<Rightarrow> ''hyperdriver/0.4.4'')))"
proof -
  obtain ua where ua: "build_user_agent (cb_user_agent b) = Return ua"
    using assms(6) by (cases "build_user_agent (cb_user_agent b)") (auto simp: client_build_def client_build_service_def)
  then have agent_text: "ua = (case cb_user_agent b of Some ua \<Rightarrow> ua | None \<Rightarrow> ''hyperdriver/0.4.4'')"
    by (auto simp: build_user_agent_def header_value_from_str_def package_agent_def split: option.splits if_splits)
  let ?svc = "\<lparr>cs_transport = tls_transport_optional (cb_tls b) (bt (cb_transport b)), cs_protocol = bp (cb_protocol b),
    cs_pool = map_option (\<lambda>_. a) (cb_pool b)\<rparr>"
  have client: "client = ly_header_if_not_present ly ''user-agent'' ua (service ?svc)"
    and heap: "heap' = (case cb_pool b of None \<Rightarrow> heap | Some conf \<Rightarrow> heap(a \<mapsto> pool_new conf))"
    using assms(2-6) ua by (auto simp: client_build_def client_build_service_def client_new_from_service_def option_layer_def
      Let_def split: option.splits)
  from assms(1) obtain hs where hs: "or_insert_with ''user-agent'' (Return ua) (rq_headers req) = Return hs"
    and sent: "client req = service ?svc (req\<lparr>rq_headers := hs\<rparr>)"
    unfolding inserts_header_def client by blast
  have agent: "map_of hs ''user-agent'' = Some (case map_of (rq_headers req) ''user-agent'' of Some s \<Rightarrow> s | None \<Rightarrow> ua)"
    using hs map_of_insert [of "''user-agent''" "rq_headers req" ua] by (auto simp: or_insert_Return upsert_def split: option.splits)
  have "map_of (rq_headers r) ''user-agent'' = Some (case map_of (rq_headers req) ''user-agent'' of Some s \<Rightarrow> s | None \<Rightarrow> ua)"
    if "prepare_request checked v (req\<lparr>rq_headers := hs\<rparr>) = (Return (Inr r) :: (('x, 'h) client_error + 'b body request) run)" for checked v r
    using prepare_keeps [OF that] agent by simp
  with sent heap show ?thesis unfolding agent_text [symmetric]
    by (intro exI [of _ ?svc] exI [of _ "req\<lparr>rq_headers := hs\<rparr>"]) simp
qed

theorem client_agent_sent_witness:
  "let ly = \<lparr>ly_shared = id, ly_retry = (\<lambda>_. id), ly_timeout = (\<lambda>_. id),
         ly_header_if_not_present = (\<lambda>name v svc req. case or_insert_with name (Return v) (rq_headers req) of
            Return hs \<Rightarrow> svc (req\<lparr>rq_headers := hs\<rparr>) | Panic \<Rightarrow> svc req), ly_redirect = (\<lambda>_. id)\<rparr>;
       b = client_with_user_agent ''me/1'' client_builder_new :: (unit, unit, unit, unit) client_builder;
       req = \<lparr>rq_method = ''GET'', rq_uri = uri_of_path ''/'', rq_version = HTTP_2, rq_headers = [], rq_extensions = [],
              rq_body = Empty_Body :: unit body\<rparr>
   in \<exists>client heap'. client_build ly id id (\<lambda>svc req. req) 0 (Map.empty :: (key, unit) pool_heap) b = Return (client, heap') \<and>
        (\<forall>r. prepare_request True HTTP_2 (client req) = (Return (Inr r) :: ((unit, unit) client_error + unit body request) run) \<longrightarrow>
          map_of (rq_headers r) ''user-agent'' = Some ''me/1'')"
proof -
  define ly where "ly = \<lparr>ly_shared = id, ly_retry = (\<lambda>_. id), ly_timeout = (\<lambda>_. id),
         ly_header_if_not_present = (\<lambda>name v svc req. case or_insert_with name (Return v) (rq_headers req) of
            Return hs \<Rightarrow> svc (req\<lparr>rq_headers := hs\<rparr>) | Panic \<Rightarrow> svc req),
         ly_redirect = (\<lambda>_ :: unit. id :: (unit body request \<Rightarrow> unit body request) \<Rightarrow> _)\<rparr>"
  define b where "b = (client_with_user_agent ''me/1'' client_builder_new :: (unit, unit, unit, unit) client_builder)"
  define req where "req = \<lparr>rq_method = ''GET'', rq_uri = uri_of_path ''/'', rq_version = HTTP_2, rq_headers = [], rq_extensions = [],
              rq_body = Empty_Body :: unit body\<rparr>"
  have l: "inserts_header (ly_header_if_not_present ly)" "ly_shared ly = id"
    by (simp_all add: inserts_header_def ly_def or_insert_Return)
  have b: "cb_retries b = None" "cb_timeout b = None" "cb_redirect b = None" "cb_user_agent b = Some ''me/1''"
    by (simp_all add: b_def client_with_user_agent_def client_builder_new_def)
  have "client_build ly id id (\<lambda>svc req. req) 0 Map.empty b \<noteq> Panic"
    unfolding client_build_panics b by (simp add: header_byte_def)
  then obtain client heap' where built: "client_build ly id id (\<lambda>svc req. req) 0 (Map.empty :: (key, unit) pool_heap) b = Return (client, heap')"
    by (cases "client_build ly id id (\<lambda>svc req. req) 0 (Map.empty :: (key, unit) pool_heap) b") auto
  from client_agent_sent [OF l b(1,2,3) built, of req, where 'x = unit and 'h = unit] b(4)
  have "\<forall>r. prepare_request True HTTP_2 (client req) = (Return (Inr r) :: ((unit, unit) client_error + unit body request) run) \<longrightarrow>
      map_of (rq_headers r) ''user-agent'' = Some ''me/1''"
    by (auto simp: req_def)
  with built show ?thesis unfolding Let_def ly_def [symmetric] b_def [symmetric] req_def [symmetric] by blast
qed

end
