(* ===== verification/Duplex.thy ===== *)
theory Duplex
  imports Transport
begin

text \<open>
  In-memory connections (stream/duplex.rs, client/conn/transport/duplex.rs): a client's
  \<open>connect\<close> sends a request over a bounded channel, the acceptor makes a pair of streams and
  sends one end back through the request's oneshot channel. The channel of capacity 32 and
  the oneshot cells are those of the runtime; the pair of pipes is its \<open>tokio::io::duplex\<close>.
\<close>

section \<open>Streams\<close>

type_synonym duplex_addr = unit

definition duplex_addr_new :: duplex_addr where
  "duplex_addr_new = ()"

definition duplex_addr_display :: "duplex_addr \<Rightarrow> string" where
  "duplex_addr_display a = ''duplex''"

record 'io duplex_stream =
  ds_inner :: 'io
  ds_info :: "duplex_addr connection_info"

definition duplex_info :: "'io duplex_stream \<Rightarrow> duplex_addr connection_info" where
  "duplex_info s = ds_info s"

text \<open>\<open>mk k n\<close> are the two ends of the \<open>k\<close>-th pipe, of buffer size \<open>n\<close>.\<close>

definition duplex_stream_new ::
  "(nat \<Rightarrow> usize \<Rightarrow> 'io \<times> 'io) \<Rightarrow> nat \<Rightarrow> usize \<Rightarrow> 'io duplex_stream \<times> 'io duplex_stream" where
  "duplex_stream_new mk k max_buf_size =
     (let (a, b) = mk k max_buf_size;
          info = info_map (\<lambda>_. duplex_addr_new) (info_duplex max_buf_size)
      in (\<lparr>ds_inner = a, ds_info = info\<rparr>, \<lparr>ds_inner = b, ds_info = info\<rparr>))"

definition duplex_lift :: "('io \<Rightarrow> 'r \<times> 'io) \<Rightarrow> 'io duplex_stream \<Rightarrow> 'r \<times> 'io duplex_stream" where
  "duplex_lift f s = (let (r, io) = f (ds_inner s) in (r, s\<lparr>ds_inner := io\<rparr>))"

text \<open>Vectored writes are not forwarded, so they are the default of \<open>AsyncWrite\<close>.\<close>

definition duplex_io :: "('io, 'e) aio \<Rightarrow> ('io duplex_stream, 'e) aio" where
  "duplex_io io =
     \<lparr>a_read = \<lambda>n. duplex_lift (a_read io n),
      a_write = \<lambda>bs. duplex_lift (a_write io bs),
      a_flush = duplex_lift (a_flush io),
      a_shutdown = duplex_lift (a_shutdown io),
      a_is_vectored = \<lambda>_. False,
      a_write_vectored = default_vectored (\<lambda>bs. duplex_lift (a_write io bs))\<rparr>"

section \<open>Requests\<close>

record duplex_request =
  dr_ack :: nat
  dr_size :: usize

record 'io duplex_net =
  dn_cells :: "nat \<Rightarrow> 'io duplex_stream cell"
  dn_next :: nat
  dn_queue :: "duplex_request list"
  dn_senders :: nat
  dn_open :: bool
  dn_pipes :: nat

definition request_new :: "nat \<Rightarrow> usize \<Rightarrow> duplex_request" where
  "request_new ack max_buf_size = \<lparr>dr_ack = ack, dr_size = max_buf_size\<rparr>"

definition request_ack ::
  "(nat \<Rightarrow> usize \<Rightarrow> 'io \<times> 'io) \<Rightarrow> duplex_request \<Rightarrow> usize option \<Rightarrow> 'io duplex_net
     \<Rightarrow> (io_kind + 'io duplex_stream) \<times> 'io duplex_net" where
  "request_ack mk r max_buf_size net =
     (let n = (case max_buf_size of Some sz \<Rightarrow> min sz (dr_size r) | None \<Rightarrow> dr_size r);
          (tx, rx) = duplex_stream_new mk (dn_pipes net) n;
          net' = net\<lparr>dn_pipes := Suc (dn_pipes net)\<rparr>
      in case dn_cells net (dr_ack r) of
           Empty \<Rightarrow> (Inr rx, net'\<lparr>dn_cells := (dn_cells net)(dr_ack r := Full tx)\<rparr>)
         | _ \<Rightarrow> (Inl ConnectionReset, net'))"

section \<open>Connecting\<close>

text \<open>The future of \<open>DuplexClient::connect\<close>, by what it awaits next.\<close>

datatype connecting = Start usize | Sending duplex_request | Awaiting nat | Finished

definition channel_capacity :: nat where
  "channel_capacity = 32"

definition connect_await :: "nat \<Rightarrow> 'io duplex_net \<Rightarrow> (io_kind + 'io duplex_stream) poll \<times> connecting \<times> 'io duplex_net" where
  "connect_await c net =
     (let (r, cell') = rx_poll (dn_cells net c);
          net' = net\<lparr>dn_cells := (dn_cells net)(c := cell')\<rparr>
      in case r of
           Pending \<Rightarrow> (Pending, Awaiting c, net')
         | Panicked \<Rightarrow> (Panicked, Finished, net')
         | Ready (Inr s) \<Rightarrow> (Ready (Inr s), Finished, net')
         | Ready (Inl _) \<Rightarrow> (Ready (Inl ConnectionReset), Finished, net'))"

definition connect_send :: "duplex_request \<Rightarrow> 'io duplex_net \<Rightarrow> (io_kind + 'io duplex_stream) poll \<times> connecting \<times> 'io duplex_net" where
  "connect_send r net =
     (if \<not> dn_open net then (Ready (Inl ConnectionReset), Finished, net)
      else if length (dn_queue net) < channel_capacity
      then connect_await (dr_ack r) (net\<lparr>dn_queue := dn_queue net @ [r]\<rparr>)
      else (Pending, Sending r, net))"

fun connect_poll :: "connecting \<Rightarrow> 'io duplex_net \<Rightarrow> (io_kind + 'io duplex_stream) poll \<times> connecting \<times> 'io duplex_net" where
  "connect_poll (Start n) net =
     connect_send (request_new (dn_next net) n)
       (net\<lparr>dn_next := Suc (dn_next net), dn_cells := (dn_cells net)(dn_next net := Empty)\<rparr>)"
| "connect_poll (Sending r) net = connect_send r net"
| "connect_poll (Awaiting c) net = connect_await c net"
| "connect_poll Finished net = (Panicked, Finished, net)"

text \<open>Dropping the future drops the receiver of its cell.\<close>

fun connect_drop :: "connecting \<Rightarrow> 'io duplex_net \<Rightarrow> 'io duplex_net" where
  "connect_drop (Awaiting c) net = net\<lparr>dn_cells := (dn_cells net)(c := RxDropped)\<rparr>"
| "connect_drop _ net = net"

section \<open>Accepting\<close>

record duplex_incoming =
  di_max_buf_size :: "usize option"

definition incoming_new :: duplex_incoming where
  "incoming_new = \<lparr>di_max_buf_size = None\<rparr>"

definition with_max_buf_size :: "usize \<Rightarrow> duplex_incoming \<Rightarrow> duplex_incoming" where
  "with_max_buf_size n inc = inc\<lparr>di_max_buf_size := Some n\<rparr>"

text \<open>\<open>mpsc::Receiver::poll_recv\<close>: the queue first, then whether senders are left.\<close>

definition poll_recv :: "'io duplex_net \<Rightarrow> duplex_request option poll \<times> 'io duplex_net" where
  "poll_recv net =
     (case dn_queue net of
        r # rs \<Rightarrow> (Ready (Some r), net\<lparr>dn_queue := rs\<rparr>)
      | [] \<Rightarrow> (if dn_senders net = 0 then Ready None else Pending, net))"

definition duplex_poll_accept ::
  "(nat \<Rightarrow> usize \<Rightarrow> 'io \<times> 'io) \<Rightarrow> duplex_incoming \<Rightarrow> 'io duplex_net
     \<Rightarrow> (io_kind + 'io duplex_stream) poll \<times> 'io duplex_net" where
  "duplex_poll_accept mk inc net =
     (case poll_recv net of
        (Ready (Some r), net') \<Rightarrow> (let (s, net'') = request_ack mk r (di_max_buf_size inc) net' in (Ready s, net''))
      | (Ready None, net') \<Rightarrow> (Ready (Inl ConnectionReset), net')
      | (Pending, net') \<Rightarrow> (Pending, net')
      | (Panicked, net') \<Rightarrow> (Panicked, net'))"

definition duplex_poll_next ::
  "(nat \<Rightarrow> usize \<Rightarrow> 'io \<times> 'io) \<Rightarrow> duplex_incoming \<Rightarrow> 'io duplex_net
     \<Rightarrow> (io_kind + 'io duplex_stream) option poll \<times> 'io duplex_net" where
  "duplex_poll_next mk inc net =
     (case poll_recv net of
        (Ready (Some r), net') \<Rightarrow> (let (s, net'') = request_ack mk r (di_max_buf_size inc) net' in (Ready (Some s), net''))
      | (Ready None, net') \<Rightarrow> (Ready None, net')
      | (Pending, net') \<Rightarrow> (Pending, net')
      | (Panicked, net') \<Rightarrow> (Panicked, net'))"

text \<open>Dropping the acceptor drops the requests still queued, and their cells' senders.\<close>

definition incoming_drop :: "'io duplex_net \<Rightarrow> 'io duplex_net" where
  "incoming_drop net =
     net\<lparr>dn_open := False, dn_queue := [],
         dn_cells := (\<lambda>c. if c \<in> dr_ack ` set (dn_queue net) then tx_drop (dn_cells net c) else dn_cells net c)\<rparr>"

definition duplex_pair :: "'io duplex_net \<times> duplex_incoming" where
  "duplex_pair =
     (\<lparr>dn_cells = (\<lambda>_. Empty), dn_next = 0, dn_queue = [], dn_senders = 1, dn_open = True, dn_pipes = 0\<rparr>,
      incoming_new)"

section \<open>The client transport\<close>

record duplex_transport =
  dt_size :: usize

definition duplex_transport_new :: "usize \<Rightarrow> duplex_transport" where
  "duplex_transport_new max_buf_size = \<lparr>dt_size = max_buf_size\<rparr>"

definition duplex_transport_ready :: "duplex_transport \<Rightarrow> (io_kind + unit) poll" where
  "duplex_transport_ready t = Ready (Inr ())"

text \<open>\<open>call\<close> clones the client, which is a new sender, and connects with it.\<close>

definition duplex_transport_call :: "duplex_transport \<Rightarrow> uri \<Rightarrow> 'io duplex_net \<Rightarrow> connecting \<times> 'io duplex_net" where
  "duplex_transport_call t req net = (Start (dt_size t), net\<lparr>dn_senders := Suc (dn_senders net)\<rparr>)"

text \<open>The future owns its sender, and drops it when it completes.\<close>

definition client_drop :: "'io duplex_net \<Rightarrow> 'io duplex_net" where
  "client_drop net = net\<lparr>dn_senders := dn_senders net - 1\<rparr>"

definition duplex_transport_poll ::
  "connecting \<Rightarrow> 'io duplex_net
     \<Rightarrow> (io_kind + ('io duplex_stream, duplex_addr) transport_stream) poll \<times> connecting \<times> 'io duplex_net" where
  "duplex_transport_poll f net =
     (let (r, f', net') = connect_poll f net
      in (map_ready (map_sum id (\<lambda>s. transport_stream_new duplex_info s None)) r, f',
          if r = Pending then net' else client_drop net'))"

section \<open>Reachable states\<close>

text \<open>
  A system of connectors and one acceptor: connectors start, are polled and are dropped in
  any order, the acceptor accepts until it is dropped.
\<close>

type_synonym 'io duplex_world = "connecting list \<times> 'io duplex_net"

inductive duplex_step ::
  "(nat \<Rightarrow> usize \<Rightarrow> 'io \<times> 'io) \<Rightarrow> duplex_incoming \<Rightarrow> 'io duplex_world \<Rightarrow> 'io duplex_world \<Rightarrow> bool"
  for mk inc where
  step_connect: "duplex_step mk inc (cs, net) (cs @ [Start n], net)"
| step_poll: "i < length cs \<Longrightarrow> connect_poll (cs ! i) net = (r, c, net') \<Longrightarrow>
    duplex_step mk inc (cs, net) (cs[i := c], net')"
| step_cancel: "i < length cs \<Longrightarrow>
    duplex_step mk inc (cs, net) (cs[i := Finished], connect_drop (cs ! i) net)"
| step_accept: "dn_open net \<Longrightarrow> duplex_poll_accept mk inc net = (r, net') \<Longrightarrow> duplex_step mk inc (cs, net) (cs, net')"
| step_close: "dn_open net \<Longrightarrow> duplex_step mk inc (cs, net) (cs, incoming_drop net)"

inductive duplex_reachable ::
  "(nat \<Rightarrow> usize \<Rightarrow> 'io \<times> 'io) \<Rightarrow> duplex_incoming \<Rightarrow> 'io duplex_world \<Rightarrow> bool"
  for mk inc where
  reach_start: "duplex_reachable mk inc ([], fst duplex_pair)"
| reach_step: "duplex_reachable mk inc w \<Longrightarrow> duplex_step mk inc w w' \<Longrightarrow> duplex_reachable mk inc w'"

inductive_cases duplex_stepE: "duplex_step mk inc (cs, net) w"


fun cell_of :: "connecting \<Rightarrow> nat option" where
  "cell_of (Sending r) = Some (dr_ack r)"
| "cell_of (Awaiting c) = Some c"
| "cell_of _ = None"

fun cell_live :: "'p cell \<Rightarrow> bool" where
  "cell_live Empty = True"
| "cell_live (Full p) = True"
| "cell_live TxDropped = True"
| "cell_live _ = False"

definition connector_ok :: "'io duplex_net \<Rightarrow> connecting \<Rightarrow> bool" where
  "connector_ok net f \<longleftrightarrow> (\<forall>c. cell_of f = Some c \<longrightarrow> c < dn_next net \<and> cell_live (dn_cells net c) \<and>
     (f = Awaiting c \<and> dn_cells net c = Empty \<longrightarrow> c \<in> dr_ack ` set (dn_queue net)))"

definition own_cells :: "connecting list \<Rightarrow> bool" where
  "own_cells cs \<longleftrightarrow> (\<forall>i j c. i < length cs \<and> j < length cs \<and> cell_of (cs ! i) = Some c \<and> cell_of (cs ! j) = Some c \<longrightarrow> i = j)"

definition duplex_inv :: "'io duplex_world \<Rightarrow> bool" where
  "duplex_inv w \<longleftrightarrow> (case w of (cs, net) \<Rightarrow>
     own_cells cs \<and> (\<forall>i < length cs. connector_ok net (cs ! i)) \<and> length (dn_queue net) \<le> channel_capacity)"

lemma cell_live_cases: "cell_live x \<longleftrightarrow> x = Empty \<or> (\<exists>p. x = Full p) \<or> x = TxDropped"
  by (cases x) auto

lemma own_cells_upd:
  assumes "own_cells cs" and "cell_of f = None \<or> cell_of f = cell_of (cs ! i) \<or>
    (\<forall>j < length cs. cell_of (cs ! j) \<noteq> cell_of f)"
  shows "own_cells (cs[i := f])"
proof (cases "i < length cs")
  case True
  with assms show ?thesis
    unfolding own_cells_def by (auto simp: nth_list_update split: if_splits) metis+
qed (use assms in \<open>simp add: list_update_beyond\<close>)

lemma own_cells_snoc: "own_cells cs \<Longrightarrow> cell_of f = None \<Longrightarrow> own_cells (cs @ [f])"
  unfolding own_cells_def by (auto simp: nth_append split: if_splits)

text \<open>What a poll does to the connector polled and to the others.\<close>

lemma connect_await_ok:
  assumes "connect_await c net = (r, f, net')" and "c < dn_next net" and "cell_live (dn_cells net c)"
    and "dn_cells net c = Empty \<longrightarrow> c \<in> dr_ack ` set (dn_queue net)"
  shows "connector_ok net' f \<and> r \<noteq> Panicked \<and> (f = Finished \<or> f = Awaiting c) \<and> dn_queue net' = dn_queue net \<and>
    dn_next net' = dn_next net \<and> (\<forall>d. d \<noteq> c \<longrightarrow> dn_cells net' d = dn_cells net d)"
  using assms by (cases "dn_cells net c") (auto simp: connect_await_def connector_ok_def Let_def)

lemma connect_send_ok:
  assumes "connect_send r net = (p, f, net')" and "dr_ack r < dn_next net" and "cell_live (dn_cells net (dr_ack r))"
    and "length (dn_queue net) \<le> channel_capacity"
  shows "connector_ok net' f \<and> p \<noteq> Panicked \<and> (f = Finished \<or> cell_of f = Some (dr_ack r)) \<and>
    set (dn_queue net) \<subseteq> set (dn_queue net') \<and> length (dn_queue net') \<le> channel_capacity \<and>
    dn_next net' = dn_next net \<and> (\<forall>d. d \<noteq> dr_ack r \<longrightarrow> dn_cells net' d = dn_cells net d)"
proof (cases "dn_open net \<and> length (dn_queue net) < channel_capacity")
  case True
  with assms have "connect_await (dr_ack r) (net\<lparr>dn_queue := dn_queue net @ [r]\<rparr>) = (p, f, net')"
    by (simp add: connect_send_def)
  from connect_await_ok [OF this] assms True show ?thesis by auto
next
  case False
  with assms show ?thesis by (auto simp: connect_send_def connector_ok_def split: if_splits)
qed

lemma connect_poll_ok:
  assumes "connect_poll f0 net = (p, f, net')" and "connector_ok net f0" and "length (dn_queue net) \<le> channel_capacity"
  shows "connector_ok net' f \<and> (f0 \<noteq> Finished \<longrightarrow> p \<noteq> Panicked) \<and>
    (cell_of f = None \<or> cell_of f = cell_of f0 \<or> cell_of f = Some (dn_next net)) \<and>
    set (dn_queue net) \<subseteq> set (dn_queue net') \<and> length (dn_queue net') \<le> channel_capacity \<and>
    dn_next net \<le> dn_next net' \<and> (\<forall>d < dn_next net. cell_of f0 \<noteq> Some d \<longrightarrow> dn_cells net' d = dn_cells net d)"
proof (cases f0)
  case (Start n)
  let ?r = "request_new (dn_next net) n"
  let ?net = "net\<lparr>dn_next := Suc (dn_next net), dn_cells := (dn_cells net)(dn_next net := Empty)\<rparr>"
  from Start assms(1) have "connect_send ?r ?net = (p, f, net')" by simp
  from connect_send_ok [OF this] assms(3) Start show ?thesis by (auto simp: request_new_def)
next
  case (Sending r)
  with assms(1) have "connect_send r net = (p, f, net')" by simp
  from connect_send_ok [OF this] assms(2,3) Sending show ?thesis by (auto simp: connector_ok_def)
next
  case (Awaiting c)
  with assms(1) have "connect_await c net = (p, f, net')" by simp
  from connect_await_ok [OF this] assms(2,3) Awaiting show ?thesis by (auto simp: connector_ok_def)
next
  case Finished
  with assms show ?thesis by (auto simp: connector_ok_def)
qed

lemma connector_ok_frame:
  assumes "connector_ok net g" and "set (dn_queue net) \<subseteq> set (dn_queue net')" and "dn_next net \<le> dn_next net'"
    and "\<forall>c. cell_of g = Some c \<and> c < dn_next net \<longrightarrow> dn_cells net' c = dn_cells net c"
  shows "connector_ok net' g"
  using assms unfolding connector_ok_def by fastforce

lemma duplex_inv_poll:
  assumes "duplex_inv (cs, net)" and "i < length cs" and "connect_poll (cs ! i) net = (r, f, net')"
  shows "duplex_inv (cs[i := f], net')"
proof -
  from assms(1) have own: "own_cells cs" and ok: "\<And>j. j < length cs \<Longrightarrow> connector_ok net (cs ! j)"
    and q: "length (dn_queue net) \<le> channel_capacity" by (auto simp: duplex_inv_def)
  note p = connect_poll_ok [OF assms(3) ok [OF assms(2)] q]
  have "\<forall>j < length cs. cell_of (cs ! j) \<noteq> Some (dn_next net)"
    using ok by (force simp: connector_ok_def)
  with p have "cell_of f = None \<or> cell_of f = cell_of (cs ! i) \<or> (\<forall>j < length cs. cell_of (cs ! j) \<noteq> cell_of f)" by auto
  from own_cells_upd [OF own this] have "own_cells (cs[i := f])" .
  moreover have "connector_ok net' (cs[i := f] ! j)" if j: "j < length cs" for j
  proof (cases "j = i")
    case True
    with p j show ?thesis by simp
  next
    case False
    have "cell_of (cs ! i) \<noteq> Some c" if "cell_of (cs ! j) = Some c" for c
      using own that False j assms(2) unfolding own_cells_def by blast
    with connector_ok_frame [OF ok [OF j], of net'] p False j show ?thesis by simp
  qed
  ultimately show ?thesis using p by (simp add: duplex_inv_def)
qed

lemma duplex_inv_cancel:
  assumes "duplex_inv (cs, net)" and "i < length cs"
  shows "duplex_inv (cs[i := Finished], connect_drop (cs ! i) net)"
proof -
  from assms(1) have own: "own_cells cs" and ok: "\<And>j. j < length cs \<Longrightarrow> connector_ok net (cs ! j)"
    and q: "length (dn_queue net) \<le> channel_capacity" by (auto simp: duplex_inv_def)
  have "own_cells (cs[i := Finished])" by (rule own_cells_upd [OF own]) simp
  moreover have "connector_ok (connect_drop (cs ! i) net) (cs[i := Finished] ! j)" if j: "j < length cs" for j
  proof (cases "j = i")
    case True
    with j show ?thesis by (simp add: connector_ok_def)
  next
    case False
    have o': "cell_of (cs ! i) \<noteq> Some c" if "cell_of (cs ! j) = Some c" for c
      using own that False j assms(2) unfolding own_cells_def by blast
    have "connector_ok (connect_drop (cs ! i) net) (cs ! j)"
    proof (cases "cs ! i")
      case (Awaiting c)
      then have "\<forall>d. cell_of (cs ! j) = Some d \<and> d < dn_next net \<longrightarrow> dn_cells (connect_drop (cs ! i) net) d = dn_cells net d"
        using o' by auto
      with Awaiting connector_ok_frame [OF ok [OF j], of "connect_drop (cs ! i) net"] show ?thesis by simp
    qed (use ok [OF j] in simp_all)
    with False j show ?thesis by simp
  qed
  moreover have "dn_queue (connect_drop (cs ! i) net) = dn_queue net" by (cases "cs ! i") simp_all
  ultimately show ?thesis using q by (simp add: duplex_inv_def)
qed

lemma request_ack_frame:
  assumes "request_ack mk r n net = (s, net')"
  shows "dn_queue net' = dn_queue net \<and> dn_next net' = dn_next net \<and> dn_senders net' = dn_senders net \<and>
    dn_open net' = dn_open net \<and> dn_cells net' (dr_ack r) \<noteq> Empty \<and>
    (\<forall>c. c \<noteq> dr_ack r \<longrightarrow> dn_cells net' c = dn_cells net c) \<and>
    (cell_live (dn_cells net (dr_ack r)) \<longrightarrow> cell_live (dn_cells net' (dr_ack r)))"
  using assms by (auto simp: request_ack_def Let_def case_prod_beta split: cell.splits)

lemma duplex_inv_accept:
  assumes "duplex_inv (cs, net)" and "duplex_poll_accept mk inc net = (r, net')"
  shows "duplex_inv (cs, net')"
proof (cases "dn_queue net")
  case Nil
  with assms show ?thesis by (auto simp: duplex_poll_accept_def poll_recv_def split: if_splits)
next
  case (Cons q qs)
  with assms(2) obtain s where "request_ack mk q (di_max_buf_size inc) (net\<lparr>dn_queue := qs\<rparr>) = (s, net')"
    by (auto simp: duplex_poll_accept_def poll_recv_def Let_def case_prod_beta prod_eq_iff)
  note f = request_ack_frame [OF this]
  have "connector_ok net' g" if "connector_ok net g" for g
    unfolding connector_ok_def
  proof (intro allI impI)
    fix c
    assume c: "cell_of g = Some c"
    show "c < dn_next net' \<and> cell_live (dn_cells net' c) \<and> (g = Awaiting c \<and> dn_cells net' c = Empty \<longrightarrow> c \<in> dr_ack ` set (dn_queue net'))"
      using that c f Cons unfolding connector_ok_def by (cases "c = dr_ack q") auto
  qed
  with assms(1) f Cons show ?thesis by (auto simp: duplex_inv_def)
qed

lemma duplex_inv_close:
  assumes "duplex_inv (cs, net)"
  shows "duplex_inv (cs, incoming_drop net)"
proof -
  have "connector_ok (incoming_drop net) g" if "connector_ok net g" for g
    unfolding connector_ok_def
  proof (intro allI impI)
    fix c
    assume c: "cell_of g = Some c"
    with that show "c < dn_next (incoming_drop net) \<and> cell_live (dn_cells (incoming_drop net) c) \<and>
        (g = Awaiting c \<and> dn_cells (incoming_drop net) c = Empty \<longrightarrow> c \<in> dr_ack ` set (dn_queue (incoming_drop net)))"
      unfolding connector_ok_def incoming_drop_def by (cases "dn_cells net c") auto
  qed
  with assms show ?thesis by (auto simp: duplex_inv_def incoming_drop_def)
qed

lemma duplex_inv_step: "duplex_step mk inc w w' \<Longrightarrow> duplex_inv w \<Longrightarrow> duplex_inv w'"
proof (induction rule: duplex_step.induct)
  case (step_connect cs net n)
  then show ?case
    by (auto simp: duplex_inv_def own_cells_snoc nth_append connector_ok_def less_Suc_eq)
qed (blast intro: duplex_inv_poll duplex_inv_cancel duplex_inv_accept duplex_inv_close)+

lemma duplex_inv_reachable: "duplex_reachable mk inc w \<Longrightarrow> duplex_inv w"
  by (induction rule: duplex_reachable.induct)
    (auto simp: duplex_inv_def duplex_pair_def own_cells_def dest: duplex_inv_step)


section \<open>A backlog of requests\<close>

text \<open>
  The requests of a queue are alive when each has its own cell, still empty; the streams they
  become are the second ends of the next pipes.
\<close>

definition queue_alive :: "'io duplex_net \<Rightarrow> bool" where
  "queue_alive net \<longleftrightarrow> distinct (map dr_ack (dn_queue net)) \<and>
     (\<forall>r \<in> set (dn_queue net). dn_cells net (dr_ack r) = Empty) \<and> 0 < dn_senders net"

definition agreed_size :: "duplex_incoming \<Rightarrow> duplex_request \<Rightarrow> usize" where
  "agreed_size inc r = (case di_max_buf_size inc of Some n \<Rightarrow> min n (dr_size r) | None \<Rightarrow> dr_size r)"

definition backlog_from ::
  "(nat \<Rightarrow> usize \<Rightarrow> 'io \<times> 'io) \<Rightarrow> duplex_incoming \<Rightarrow> nat \<Rightarrow> duplex_request list
     \<Rightarrow> ('io duplex_stream \<times> 'io duplex_stream) list" where
  "backlog_from mk inc k rs = map (\<lambda>(i, r). duplex_stream_new mk i (agreed_size inc r)) (enumerate k rs)"

lemma backlog_from_simps [simp]:
  "backlog_from mk inc k [] = []"
  "backlog_from mk inc k (r # rs) = duplex_stream_new mk k (agreed_size inc r) # backlog_from mk inc (Suc k) rs"
  by (simp_all add: backlog_from_def)

lemma accept_alive:
  assumes "queue_alive net" and "dn_queue net = r # rs"
  shows "\<exists>net'. duplex_poll_accept mk inc net = (Ready (Inr (snd (duplex_stream_new mk (dn_pipes net) (agreed_size inc r)))), net') \<and>
    queue_alive net' \<and> dn_queue net' = rs \<and> dn_pipes net' = Suc (dn_pipes net) \<and> dn_next net' = dn_next net \<and>
    dn_open net' = dn_open net \<and>
    dn_cells net' = (dn_cells net)(dr_ack r := Full (fst (duplex_stream_new mk (dn_pipes net) (agreed_size inc r))))"
proof -
  from assms have e: "dn_cells net (dr_ack r) = Empty" and "dr_ack r \<notin> dr_ack ` set rs"
    by (simp_all add: queue_alive_def)
  then have "\<forall>q \<in> set rs. dr_ack q \<noteq> dr_ack r" by (metis imageI)
  with e assms show ?thesis
    by (auto simp: duplex_poll_accept_def poll_recv_def request_ack_def agreed_size_def Let_def case_prod_beta queue_alive_def)
qed

lemma accept_none: "queue_alive net \<Longrightarrow> dn_queue net = [] \<Longrightarrow> duplex_poll_accept mk inc net = (Pending, net)"
  by (simp add: duplex_poll_accept_def poll_recv_def queue_alive_def)

section \<open>Properties\<close>

text \<open>C24: a connector that waits for its stream is never forgotten: in every reachable state
  either its request is still queued or its poll is ready; polling it never panics, and the
  queue never exceeds the capacity of 32.\<close>

theorem duplex_no_stall:
  assumes "duplex_reachable mk inc (cs, net)" and "i < length cs" and "cs ! i = Awaiting c"
  shows "(fst (connect_poll (cs ! i) net) = Pending \<longrightarrow> c \<in> dr_ack ` set (dn_queue net)) \<and>
    fst (connect_poll (cs ! i) net) \<noteq> Panicked \<and> length (dn_queue net) \<le> 32"
proof -
  from duplex_inv_reachable [OF assms(1)] assms(2) have "connector_ok net (cs ! i)" "length (dn_queue net) \<le> 32"
    by (auto simp: duplex_inv_def channel_capacity_def)
  with assms(3) show ?thesis
    by (cases "dn_cells net c") (auto simp: connector_ok_def connect_await_def)
qed

theorem duplex_no_stall_witness:
  "duplex_reachable (\<lambda>k n. (k, k)) incoming_new
     ([Awaiting 0], snd (snd (connect_poll (Start 5) (fst duplex_pair :: nat duplex_net)))) \<and>
   0 \<in> dr_ack ` set (dn_queue (snd (snd (connect_poll (Start 5) (fst duplex_pair :: nat duplex_net)))))"
proof -
  let ?n = "fst duplex_pair :: nat duplex_net" and ?mk = "\<lambda>k (n :: usize). (k :: nat, k)"
  let ?o = "snd (snd (connect_poll (Start 5) ?n))"
  have p: "connect_poll ([Start 5] ! 0) ?n = (Pending, Awaiting 0, ?o)"
    by (simp add: connect_send_def connect_await_def duplex_pair_def channel_capacity_def request_new_def)
  have "duplex_reachable ?mk incoming_new ([] @ [Start 5], ?n)"
    by (rule reach_step [OF reach_start step_connect])
  then have "duplex_reachable ?mk incoming_new ([Start 5], ?n)" by simp
  from reach_step [OF this step_poll [OF _ p]] have r: "duplex_reachable ?mk incoming_new ([Awaiting 0], ?o)" by simp
  have "fst (connect_poll ([Awaiting 0] ! 0) ?o) = Pending"
    by (simp add: connect_send_def connect_await_def duplex_pair_def channel_capacity_def request_new_def)
  with r duplex_no_stall [OF r, of 0 0] show ?thesis by simp
qed

text \<open>C25: connecting and accepting meet: with a free acceptor, a connector that asks for a
  buffer waits, the accept answers one end of a new pipe, and the connector's next poll the
  other end; both carry the smaller of the two sizes asked for.\<close>

theorem duplex_connect_accept:
  assumes "dn_open net" and "dn_queue net = []" and "0 < dn_senders net"
    and "connect_poll (Start n) net = (r1, f, net1)" and "duplex_poll_accept mk inc net1 = (r2, net2)"
    and "connect_poll f net2 = (r3, f', net3)"
  shows "r1 = Pending \<and> f' = Finished \<and>
    (let ends = duplex_stream_new mk (dn_pipes net) (case di_max_buf_size inc of Some m \<Rightarrow> min m n | None \<Rightarrow> n)
     in r2 = Ready (Inr (snd ends)) \<and> r3 = Ready (Inr (fst ends)))"
proof -
  from assms(1,2,4) have 1: "r1 = Pending" "f = Awaiting (dn_next net)"
    and net1: "net1 = net\<lparr>dn_next := Suc (dn_next net), dn_cells := (dn_cells net)(dn_next net := Empty),
      dn_queue := [request_new (dn_next net) n]\<rparr>"
    by (auto simp: connect_send_def connect_await_def request_new_def channel_capacity_def)
  have "queue_alive net1" and "dn_queue net1 = [request_new (dn_next net) n]"
    using assms(3) by (simp_all add: net1 queue_alive_def request_new_def)
  from accept_alive [OF this, of mk inc] assms(5) have
    2: "r2 = Ready (Inr (snd (duplex_stream_new mk (dn_pipes net) (agreed_size inc (request_new (dn_next net) n)))))"
      "dn_cells net2 (dn_next net) = Full (fst (duplex_stream_new mk (dn_pipes net) (agreed_size inc (request_new (dn_next net) n))))"
    by (auto simp: net1 request_new_def)
  with assms(6) 1 show ?thesis
    by (auto simp: connect_await_def agreed_size_def request_new_def Let_def split: option.splits)
qed

theorem duplex_connect_accept_witness:
  "fst (connect_poll (Awaiting 0) (snd (duplex_poll_accept (\<lambda>k n. ((k, True), (k, False))) (with_max_buf_size 4 incoming_new)
      (snd (snd (connect_poll (Start 9) (fst duplex_pair :: (nat \<times> bool) duplex_net))))))) =
   Ready (Inr (fst (duplex_stream_new (\<lambda>k n. ((k, True), (k, False))) 0 4)))"
proof -
  let ?n = "fst duplex_pair :: (nat \<times> bool) duplex_net" and ?mk = "\<lambda>k (n :: usize). ((k :: nat, True), (k, False))"
  let ?inc = "with_max_buf_size 4 incoming_new"
  let ?n1 = "snd (snd (connect_poll (Start 9) ?n))"
  let ?a = "duplex_poll_accept ?mk ?inc ?n1"
  let ?c = "connect_poll (Awaiting 0) (snd ?a)"
  have 1: "connect_poll (Start 9) ?n = (Pending, Awaiting 0, ?n1)"
    by (simp add: connect_send_def connect_await_def duplex_pair_def channel_capacity_def request_new_def)
  have 2: "?a = (fst ?a, snd ?a)" and 3: "?c = (fst ?c, fst (snd ?c), snd (snd ?c))" by simp_all
  have "dn_open ?n" "dn_queue ?n = []" "0 < dn_senders ?n" "dn_pipes ?n = 0" by (simp_all add: duplex_pair_def)
  with duplex_connect_accept [OF _ _ _ 1 2 3] show ?thesis
    by (simp add: with_max_buf_size_def incoming_new_def Let_def)
qed

end
