(* ===== verification/Server.thy ===== *)
theory Server
  imports Duplex Body
begin

text \<open>
  The server (server/mod.rs, server/builder.rs): the states of \<open>Serving\<close>, the loop that
  accepts and spawns connections, and the graceful shutdown with the tasks of its
  connections. The acceptor, the maker of services and the protocol are the operations of a
  record; their errors are \<open>BoxError\<close>s.
\<close>

section \<open>The builder\<close>

record ('a, 'p, 'm) server =
  sr_acceptor :: 'a
  sr_protocol :: 'p
  sr_make_service :: 'm

datatype needs = NeedsAcceptor | NeedsProtocol | NeedsService

definition server_builder :: "(needs, needs, needs) server" where
  "server_builder = \<lparr>sr_acceptor = NeedsAcceptor, sr_protocol = NeedsProtocol, sr_make_service = NeedsService\<rparr>"

definition server_new :: "'a \<Rightarrow> 'p \<Rightarrow> 'm \<Rightarrow> ('a, 'p, 'm) server" where
  "server_new acceptor protocol make_service =
     \<lparr>sr_acceptor = acceptor, sr_protocol = protocol, sr_make_service = make_service\<rparr>"

definition with_acceptor :: "'b \<Rightarrow> ('a, 'p, 'm) server \<Rightarrow> ('b, 'p, 'm) server" where
  "with_acceptor acceptor s =
     \<lparr>sr_acceptor = acceptor, sr_protocol = sr_protocol s, sr_make_service = sr_make_service s\<rparr>"

definition with_incoming :: "'core \<Rightarrow> ('a, 'p, 'm) server \<Rightarrow> (('cfg, 'core) acceptor_inner, 'p, 'm) server" where
  "with_incoming incoming s = with_acceptor (acceptor_new incoming) s"

text \<open>\<open>bind\<close> is the answer of binding the listener.\<close>

definition with_bind ::
  "io_kind + 'core \<Rightarrow> ('a, 'p, 'm) server \<Rightarrow> io_kind + (('cfg, 'core) acceptor_inner, 'p, 'm) server" where
  "with_bind bind s = result_bind bind (\<lambda>listener. Inr (with_acceptor (acceptor_new listener) s))"

definition with_listener :: "'core \<Rightarrow> ('a, 'p, 'm) server \<Rightarrow> (('cfg, 'core) acceptor_inner, 'p, 'm) server" where
  "with_listener listener s = with_acceptor (acceptor_new listener) s"

definition with_protocol :: "'q \<Rightarrow> ('a, 'p, 'm) server \<Rightarrow> ('a, 'q, 'm) server" where
  "with_protocol protocol s =
     \<lparr>sr_acceptor = sr_acceptor s, sr_protocol = protocol, sr_make_service = sr_make_service s\<rparr>"

datatype http_builder = Auto_Builder | Http1_Builder | Http2_Builder

definition with_auto_http :: "('a, 'p, 'm) server \<Rightarrow> ('a, http_builder, 'm) server" where
  "with_auto_http s = with_protocol Auto_Builder s"

definition with_http1 :: "('a, 'p, 'm) server \<Rightarrow> ('a, http_builder, 'm) server" where
  "with_http1 s = with_protocol Http1_Builder s"

definition with_http2 :: "('a, 'p, 'm) server \<Rightarrow> ('a, http_builder, 'm) server" where
  "with_http2 s = with_protocol Http2_Builder s"

definition with_make_service :: "'n \<Rightarrow> ('a, 'p, 'm) server \<Rightarrow> ('a, 'p, 'n) server" where
  "with_make_service make_service s =
     \<lparr>sr_acceptor = sr_acceptor s, sr_protocol = sr_protocol s, sr_make_service = make_service\<rparr>"

text \<open>\<open>shared\<close> is \<open>tower::make::Shared::new\<close>.\<close>

definition with_shared_service :: "('svc \<Rightarrow> 'n) \<Rightarrow> 'svc \<Rightarrow> ('a, 'p, 'm) server \<Rightarrow> ('a, 'p, 'n) server" where
  "with_shared_service shared service s =
     \<lparr>sr_acceptor = sr_acceptor s, sr_protocol = sr_protocol s, sr_make_service = shared service\<rparr>"

text \<open>Adding TLS twice panics, as \<open>Acceptor::with_tls\<close> does.\<close>

definition server_with_tls ::
  "'cfg \<Rightarrow> (('cfg, 'core) acceptor_inner, 'p, 'm) server \<Rightarrow> (('cfg, 'core) acceptor_inner, 'p, 'm) server run" where
  "server_with_tls config s = run_bind (acceptor_with_tls config (sr_acceptor s)) (\<lambda>acc. Return (with_acceptor acc s))"

definition server_with_body :: "('a, 'p, 'm) server \<Rightarrow> ('a, 'p, 'm) server" where
  "server_with_body s =
     \<lparr>sr_acceptor = sr_acceptor s, sr_protocol = sr_protocol s, sr_make_service = sr_make_service s\<rparr>"

definition server_bind ::
  "io_kind + 'core \<Rightarrow> 'n \<Rightarrow> io_kind + (('cfg, 'core) acceptor_inner, http_builder, 'n) server" where
  "server_bind bind make_service =
     result_bind bind (\<lambda>incoming.
       Inr (with_make_service make_service (with_auto_http (with_acceptor (acceptor_new incoming) server_builder))))"

text \<open>The protocols of server/conn/mod.rs: hyper serves the adapted service over \<open>TokioIo\<close>.\<close>

definition http1_serve ::
  "('s tokio_io \<Rightarrow> 'svc \<Rightarrow> 'c) \<Rightarrow> ('c \<Rightarrow> 'u) \<Rightarrow> ('sv \<Rightarrow> 'svc) \<Rightarrow> 's \<Rightarrow> 'sv \<Rightarrow> 'u" where
  "http1_serve serve_connection with_upgrades adapt stream service =
     with_upgrades (serve_connection (TokioIo stream) (adapt service))"

definition http2_serve :: "('s tokio_io \<Rightarrow> 'svc \<Rightarrow> 'c) \<Rightarrow> ('sv \<Rightarrow> 'svc) \<Rightarrow> 's \<Rightarrow> 'sv \<Rightarrow> 'c" where
  "http2_serve serve_connection adapt stream service = serve_connection (TokioIo stream) (adapt service)"

section \<open>Serving\<close>

datatype 'e server_error = Accept_Error 'e | Server_Io io_kind | MakeService_Error 'e

definition server_error_accept :: "'e \<Rightarrow> 'e server_error" where
  "server_error_accept e = Accept_Error e"

definition server_error_make :: "'e \<Rightarrow> 'e server_error" where
  "server_error_make e = MakeService_Error e"

definition server_error_ready :: "'e \<Rightarrow> 'e server_error" where
  "server_error_ready e = MakeService_Error e"

datatype ('s, 'f) state = Preparing | Accepting | Making 'f 's

record ('a, 'p, 'm, 's, 'f) serving =
  sv_server :: "('a, 'p, 'm) server"
  sv_state :: "('s, 'f) state"

record ('a, 'p, 'm, 's, 'f, 'svc, 'conn, 'e) server_ops =
  so_accept :: "'a \<Rightarrow> ('e + 's) poll \<times> 'a"
  so_make :: "('m, 's, 'f, 'svc, 'e) service"
  so_serve :: "'p \<Rightarrow> 's \<Rightarrow> 'svc \<Rightarrow> 'conn"

definition server_into_future :: "('a, 'p, 'm) server \<Rightarrow> ('a, 'p, 'm, 's, 'f) serving" where
  "server_into_future s = \<lparr>sv_server = s, sv_state = Preparing\<rparr>"

definition poll_once ::
  "('a, 'p, 'm, 's, 'f, 'svc, 'conn, 'e) server_ops \<Rightarrow> ('a, 'p, 'm, 's, 'f) serving
     \<Rightarrow> ('e server_error + 'conn option) poll \<times> ('a, 'p, 'm, 's, 'f) serving" where
  "poll_once ops me =
     (case sv_state me of
        Preparing \<Rightarrow>
          (let (r, m) = s_ready (so_make ops) (sr_make_service (sv_server me));
               me' = me\<lparr>sv_server := (sv_server me)\<lparr>sr_make_service := m\<rparr>\<rparr>
           in case r of
                Pending \<Rightarrow> (Pending, me')
              | Panicked \<Rightarrow> (Panicked, me')
              | Ready (Inl e) \<Rightarrow> (Ready (Inl (server_error_ready e)), me')
              | Ready (Inr _) \<Rightarrow> (Ready (Inr None), me'\<lparr>sv_state := Accepting\<rparr>))
      | Accepting \<Rightarrow>
          (let (r, a) = so_accept ops (sr_acceptor (sv_server me));
               me' = me\<lparr>sv_server := (sv_server me)\<lparr>sr_acceptor := a\<rparr>\<rparr>
           in case r of
                Pending \<Rightarrow> (Pending, me')
              | Panicked \<Rightarrow> (Panicked, me')
              | Ready (Inr stream) \<Rightarrow>
                  (let (future, m) = s_call (so_make ops) (sr_make_service (sv_server me)) stream
                   in (Ready (Inr None),
                       me'\<lparr>sv_server := (sv_server me')\<lparr>sr_make_service := m\<rparr>, sv_state := Making future stream\<rparr>))
              | Ready (Inl e) \<Rightarrow> (Ready (Inl (server_error_accept e)), me'))
      | Making future stream \<Rightarrow>
          (case s_fpoll (so_make ops) future of
             (Pending, future') \<Rightarrow> (Pending, me\<lparr>sv_state := Making future' stream\<rparr>)
           | (Panicked, future') \<Rightarrow> (Panicked, me\<lparr>sv_state := Making future' stream\<rparr>)
           | (Ready (Inl e), future') \<Rightarrow> (Ready (Inl (server_error_make e)), me\<lparr>sv_state := Making future' stream\<rparr>)
           | (Ready (Inr service), future') \<Rightarrow>
               (Ready (Inr (Some (so_serve ops (sr_protocol (sv_server me)) stream service))),
                me\<lparr>sv_state := Preparing\<rparr>)))"

text \<open>
  The loop of \<open>Serving::poll\<close>: the connections it spawns, in order, and its answer; \<open>None\<close>
  when it does not return.
\<close>

partial_function (option) serving_poll ::
  "('a, 'p, 'm, 's, 'f, 'svc, 'conn, 'e) server_ops \<Rightarrow> ('a, 'p, 'm, 's, 'f) serving \<Rightarrow> 'conn list
     \<Rightarrow> (('e server_error + unit) poll \<times> ('a, 'p, 'm, 's, 'f) serving \<times> 'conn list) option" where
  "serving_poll ops me spawned =
     (case poll_once ops me of
        (Pending, me') \<Rightarrow> Some (Pending, me', spawned)
      | (Panicked, me') \<Rightarrow> Some (Panicked, me', spawned)
      | (Ready r, me') \<Rightarrow>
          (case r of
             Inl e \<Rightarrow> Some (Ready (Inl e), me', spawned)
           | Inr None \<Rightarrow> serving_poll ops me' spawned
           | Inr (Some conn) \<Rightarrow> serving_poll ops me' (spawned @ [conn])))"

declare serving_poll.simps [code]

section \<open>Closing\<close>

text \<open>
  A close channel is a watch channel whose receivers are only counted: \<open>CloseSender\<close> holds
  one, or none once it has sent, and \<open>CloseReciever\<close> waits until none is left.
\<close>

definition close_send :: "bool \<Rightarrow> nat \<Rightarrow> bool \<times> nat" where
  "close_send holds receivers = (False, if holds then receivers - 1 else receivers)"

definition close_clone :: "bool \<Rightarrow> nat \<Rightarrow> bool \<times> nat" where
  "close_clone holds receivers = (holds, if holds then Suc receivers else receivers)"

definition close_poll :: "nat \<Rightarrow> unit poll" where
  "close_poll receivers = (if receivers = 0 then Ready () else Pending)"

text \<open>\<open>close ()\<close>: a sender that holds the only receiver.\<close>

definition close :: "bool \<times> nat" where
  "close = (True, 1)"

record ('a, 'p, 'm, 's, 'f, 'g) graceful =
  gs_server :: "('a, 'p, 'm, 's, 'f) serving"
  gs_signal :: 'g
  gs_shutdown :: bool
  gs_connection :: bool

text \<open>
  The task of one connection: the connection, whether its fused \<open>shutdown\<close> future has fired,
  and whether the task is over.
\<close>

record 'conn conn_task =
  tk_conn :: 'conn
  tk_told :: bool
  tk_done :: bool

text \<open>The receivers of the shutdown channel and of the finished channel, and the tasks.\<close>

record 'conn close_net =
  cn_shutdown :: nat
  cn_finished :: nat
  cn_tasks :: "'conn conn_task list"

definition graceful_new :: "('a, 'p, 'm) server \<Rightarrow> 'g \<Rightarrow> ('a, 'p, 'm, 's, 'f, 'g) graceful \<times> 'conn close_net" where
  "graceful_new server signal =
     (let (tx, rx) = close; (tx2, rx2) = close
      in (\<lparr>gs_server = server_into_future server, gs_signal = signal, gs_shutdown = tx, gs_connection = tx2\<rparr>,
          \<lparr>cn_shutdown = rx, cn_finished = rx2, cn_tasks = []\<rparr>))"

text \<open>What the loop does with a new connection: it clones the finished sender into a task.\<close>

definition graceful_spawn :: "bool \<Rightarrow> 'conn \<Rightarrow> 'conn close_net \<Rightarrow> 'conn close_net" where
  "graceful_spawn connection conn net =
     (let (finished_tx, receivers) = close_clone connection (cn_finished net)
      in net\<lparr>cn_finished := receivers,
             cn_tasks := cn_tasks net @ [\<lparr>tk_conn = conn, tk_told = False, tk_done = False\<rparr>]\<rparr>)"

text \<open>One round of the loop: it returns (\<open>Inl\<close>) or goes round again (\<open>Inr\<close>).\<close>

definition graceful_once ::
  "('a, 'p, 'm, 's, 'f, 'svc, 'conn, 'e) server_ops \<Rightarrow> ('g \<Rightarrow> unit poll \<times> 'g)
     \<Rightarrow> ('a, 'p, 'm, 's, 'f, 'g) graceful \<Rightarrow> 'conn close_net
     \<Rightarrow> (('e server_error + unit) poll \<times> ('a, 'p, 'm, 's, 'f, 'g) graceful \<times> 'conn close_net)
        + ('a, 'p, 'm, 's, 'f, 'g) graceful \<times> 'conn close_net" where
  "graceful_once ops signal_poll this net =
     (let (sg, signal') = signal_poll (gs_signal this); this1 = this\<lparr>gs_signal := signal'\<rparr>
      in case sg of
           Ready _ \<Rightarrow>
             (let (tx, receivers) = close_send (gs_shutdown this1) (cn_shutdown net)
              in Inl (Ready (Inr ()), this1\<lparr>gs_shutdown := tx\<rparr>, net\<lparr>cn_shutdown := receivers\<rparr>))
         | Panicked \<Rightarrow> Inl (Panicked, this1, net)
         | Pending \<Rightarrow>
             (let (r, srv) = poll_once ops (gs_server this1); this2 = this1\<lparr>gs_server := srv\<rparr>
              in case r of
                   Pending \<Rightarrow> Inl (Pending, this2, net)
                 | Panicked \<Rightarrow> Inl (Panicked, this2, net)
                 | Ready (Inl e) \<Rightarrow> Inl (Ready (Inl e), this2, net)
                 | Ready (Inr oc) \<Rightarrow>
                     (let net' = (case oc of Some conn \<Rightarrow> graceful_spawn (gs_connection this2) conn net | None \<Rightarrow> net)
                      in case close_poll (cn_finished net') of
                           Ready _ \<Rightarrow> Inl (Ready (Inr ()), this2, net')
                         | _ \<Rightarrow> Inr (this2, net'))))"

partial_function (option) graceful_poll ::
  "('a, 'p, 'm, 's, 'f, 'svc, 'conn, 'e) server_ops \<Rightarrow> ('g \<Rightarrow> unit poll \<times> 'g)
     \<Rightarrow> ('a, 'p, 'm, 's, 'f, 'g) graceful \<Rightarrow> 'conn close_net
     \<Rightarrow> (('e server_error + unit) poll \<times> ('a, 'p, 'm, 's, 'f, 'g) graceful \<times> 'conn close_net) option" where
  "graceful_poll ops signal_poll this net =
     (case graceful_once ops signal_poll this net of
        Inl res \<Rightarrow> Some res
      | Inr (this', net') \<Rightarrow> graceful_poll ops signal_poll this' net')"

declare graceful_poll.simps [code]

text \<open>
  The \<open>select!\<close> loop of a task: \<open>conn_first\<close> says which of its two branches an iteration
  looks at first. The shutdown branch fires once, since the future is fused; then the
  connection is told to shut down and the loop goes round. When the connection ends or panics
  the task is over and its finished sender is gone.
\<close>

function select_loop ::
  "('conn \<Rightarrow> ('ce + unit) poll \<times> 'conn) \<Rightarrow> ('conn \<Rightarrow> 'conn) \<Rightarrow> bool \<Rightarrow> (bool \<Rightarrow> bool) \<Rightarrow> 'conn conn_task \<Rightarrow> 'conn conn_task" where
  "select_loop poll_conn graceful_shutdown closed conn_first tk =
     (if closed \<and> \<not> tk_told tk \<and> \<not> conn_first (tk_told tk)
      then select_loop poll_conn graceful_shutdown closed conn_first
             (tk\<lparr>tk_conn := graceful_shutdown (tk_conn tk), tk_told := True\<rparr>)
      else
        (case poll_conn (tk_conn tk) of
           (Ready _, conn) \<Rightarrow> tk\<lparr>tk_conn := conn, tk_done := True\<rparr>
         | (Panicked, conn) \<Rightarrow> tk\<lparr>tk_conn := conn, tk_done := True\<rparr>
         | (Pending, conn) \<Rightarrow>
             (if closed \<and> \<not> tk_told tk
              then select_loop poll_conn graceful_shutdown closed conn_first
                     (tk\<lparr>tk_conn := graceful_shutdown conn, tk_told := True\<rparr>)
              else tk\<lparr>tk_conn := conn\<rparr>)))"
  by pat_completeness auto

termination
  by (relation "measure (\<lambda>(p, s, c, o', tk). if tk_told tk then 0 else 1)") auto

declare select_loop.simps [simp del]

definition task_poll ::
  "('conn \<Rightarrow> ('ce + unit) poll \<times> 'conn) \<Rightarrow> ('conn \<Rightarrow> 'conn) \<Rightarrow> (bool \<Rightarrow> bool) \<Rightarrow> nat \<Rightarrow> 'conn close_net \<Rightarrow> 'conn close_net" where
  "task_poll poll_conn graceful_shutdown conn_first i net =
     (let tk = cn_tasks net ! i;
          tk' = select_loop poll_conn graceful_shutdown (close_poll (cn_shutdown net) = Ready ()) conn_first tk;
          (_, receivers) = (if tk_done tk' then close_send True (cn_finished net) else (True, cn_finished net))
      in net\<lparr>cn_tasks := (cn_tasks net)[i := tk'], cn_finished := receivers\<rparr>)"

text \<open>Dropping the graceful server drops both senders that are left to it.\<close>

definition graceful_drop :: "('a, 'p, 'm, 's, 'f, 'g) graceful \<Rightarrow> 'conn close_net \<Rightarrow> 'conn close_net" where
  "graceful_drop g net =
     net\<lparr>cn_shutdown := snd (close_send (gs_shutdown g) (cn_shutdown net)),
         cn_finished := snd (close_send (gs_connection g) (cn_finished net))\<rparr>"

section \<open>Serving a backlog\<close>

lemma serving_poll_steps:
  "poll_once ops me = (Ready (Inr None), me') \<Longrightarrow> serving_poll ops me sp = serving_poll ops me' sp"
  "poll_once ops me = (Ready (Inr (Some c)), me') \<Longrightarrow> serving_poll ops me sp = serving_poll ops me' (sp @ [c])"
  "poll_once ops me = (Pending, me') \<Longrightarrow> serving_poll ops me sp = Some (Pending, me', sp)"
  "poll_once ops me = (Ready (Inl e), me') \<Longrightarrow> serving_poll ops me sp = Some (Ready (Inl e), me', sp)"
  by (subst serving_poll.simps, simp)+

text \<open>
  The interfaces of the server: a listener hands out the streams that are waiting, in order,
  and then is pending; a maker is ready at once and makes the service of a stream.
\<close>

locale listener =
  fixes accept :: "'a \<Rightarrow> ('e + 's) poll \<times> 'a"
    and ok :: "'a \<Rightarrow> bool"
    and waiting :: "'a \<Rightarrow> 's list"
  assumes accept_next: "ok a \<Longrightarrow> waiting a = s # ss \<Longrightarrow> \<exists>a'. accept a = (Ready (Inr s), a') \<and> ok a' \<and> waiting a' = ss"
    and accept_wait: "ok a \<Longrightarrow> waiting a = [] \<Longrightarrow> \<exists>a'. accept a = (Pending, a') \<and> ok a' \<and> waiting a' = []"

locale service_maker =
  fixes maker :: "('m, 's, 'f, 'svc, 'e) service"
    and m_ok :: "'m \<Rightarrow> bool"
    and svc_of :: "'s \<Rightarrow> 'svc"
  assumes maker_ready: "m_ok m \<Longrightarrow> \<exists>m'. s_ready maker m = (Ready (Inr ()), m') \<and> m_ok m'"
    and maker_call: "m_ok m \<Longrightarrow> \<exists>f m' f'. s_call maker m s = (f, m') \<and> m_ok m' \<and> s_fpoll maker f = (Ready (Inr (svc_of s)), f')"

locale serving_env = listener "so_accept ops" ok waiting + service_maker "so_make ops" m_ok svc_of
  for ops :: "('a, 'p, 'm, 's, 'f, 'svc, 'conn, 'e) server_ops" and ok waiting m_ok svc_of
begin

lemma serve_one:
  assumes "sv_state me = Preparing" and "ok (sr_acceptor (sv_server me))" and "m_ok (sr_make_service (sv_server me))"
    and "waiting (sr_acceptor (sv_server me)) = s # ss"
  shows "\<exists>me'. serving_poll ops me sp =
      serving_poll ops me' (sp @ [so_serve ops (sr_protocol (sv_server me)) s (svc_of s)]) \<and>
    sv_state me' = Preparing \<and> ok (sr_acceptor (sv_server me')) \<and> m_ok (sr_make_service (sv_server me')) \<and>
    waiting (sr_acceptor (sv_server me')) = ss \<and> sr_protocol (sv_server me') = sr_protocol (sv_server me)"
proof -
  obtain m1 where m1: "s_ready (so_make ops) (sr_make_service (sv_server me)) = (Ready (Inr ()), m1)" "m_ok m1"
    using maker_ready [OF assms(3)] by blast
  obtain a1 where a1: "so_accept ops (sr_acceptor (sv_server me)) = (Ready (Inr s), a1)" "ok a1" "waiting a1 = ss"
    using accept_next [OF assms(2,4)] by blast
  obtain f m2 f' where m2: "s_call (so_make ops) m1 s = (f, m2)" "m_ok m2" "s_fpoll (so_make ops) f = (Ready (Inr (svc_of s)), f')"
    using maker_call [OF m1(2)] by blast
  let ?m1 = "me\<lparr>sv_server := (sv_server me)\<lparr>sr_make_service := m1\<rparr>, sv_state := Accepting\<rparr>"
  let ?m2 = "?m1\<lparr>sv_server := (sv_server ?m1)\<lparr>sr_acceptor := a1, sr_make_service := m2\<rparr>, sv_state := Making f s\<rparr>"
  have 1: "poll_once ops me = (Ready (Inr None), ?m1)" by (simp add: poll_once_def assms(1) m1)
  have 2: "poll_once ops ?m1 = (Ready (Inr None), ?m2)" by (simp add: poll_once_def a1 m2 Let_def)
  have 3: "poll_once ops ?m2 = (Ready (Inr (Some (so_serve ops (sr_protocol (sv_server me)) s (svc_of s)))),
      ?m2\<lparr>sv_state := Preparing\<rparr>)" by (simp add: poll_once_def m2)
  show ?thesis
    unfolding serving_poll_steps(1) [OF 1] serving_poll_steps(1) [OF 2] serving_poll_steps(2) [OF 3]
    by (rule exI [of _ "?m2\<lparr>sv_state := Preparing\<rparr>"]) (simp add: a1 m2)
qed

lemma serve_none:
  assumes "sv_state me = Preparing" and "ok (sr_acceptor (sv_server me))" and "m_ok (sr_make_service (sv_server me))"
    and "waiting (sr_acceptor (sv_server me)) = []"
  shows "\<exists>me'. serving_poll ops me sp = Some (Pending, me', sp) \<and> waiting (sr_acceptor (sv_server me')) = []"
proof -
  obtain m1 where m1: "s_ready (so_make ops) (sr_make_service (sv_server me)) = (Ready (Inr ()), m1)"
    using maker_ready [OF assms(3)] by blast
  obtain a1 where a1: "so_accept ops (sr_acceptor (sv_server me)) = (Pending, a1)" "waiting a1 = []"
    using accept_wait [OF assms(2,4)] by blast
  let ?m1 = "me\<lparr>sv_server := (sv_server me)\<lparr>sr_make_service := m1\<rparr>, sv_state := Accepting\<rparr>"
  have 1: "poll_once ops me = (Ready (Inr None), ?m1)" by (simp add: poll_once_def assms(1) m1)
  have 2: "poll_once ops ?m1 = (Pending, ?m1\<lparr>sv_server := (sv_server ?m1)\<lparr>sr_acceptor := a1\<rparr>\<rparr>)"
    by (simp add: poll_once_def a1 Let_def)
  show ?thesis
    unfolding serving_poll_steps(1) [OF 1] serving_poll_steps(3) [OF 2] by (simp add: a1)
qed

text \<open>One poll of the server returns, having served everything that waits, in order.\<close>

lemma serve_all:
  assumes "sv_state me = Preparing" and "ok (sr_acceptor (sv_server me))" and "m_ok (sr_make_service (sv_server me))"
  shows "\<exists>me'. serving_poll ops me sp =
      Some (Pending, me', sp @ map (\<lambda>s. so_serve ops (sr_protocol (sv_server me)) s (svc_of s)) (waiting (sr_acceptor (sv_server me)))) \<and>
    waiting (sr_acceptor (sv_server me')) = []"
  using assms
proof (induction "waiting (sr_acceptor (sv_server me))" arbitrary: me sp)
  case Nil
  with serve_none [of me sp] show ?case by simp
next
  case (Cons s ss)
  from serve_one [OF Cons.prems Cons.hyps(2) [symmetric], of sp] obtain me' where
    me': "serving_poll ops me sp = serving_poll ops me' (sp @ [so_serve ops (sr_protocol (sv_server me)) s (svc_of s)])"
      "sv_state me' = Preparing" "ok (sr_acceptor (sv_server me'))" "m_ok (sr_make_service (sv_server me'))"
      "waiting (sr_acceptor (sv_server me')) = ss" "sr_protocol (sv_server me') = sr_protocol (sv_server me)" by blast
  from Cons.hyps(1) [OF me'(5) [symmetric] me'(2-4), of "sp @ [so_serve ops (sr_protocol (sv_server me)) s (svc_of s)]"]
  show ?case by (simp add: me'(1,5,6) Cons.hyps(2) [symmetric])
qed

end


text \<open>The in-memory listener, as the server's acceptor.\<close>

definition duplex_accept ::
  "(nat \<Rightarrow> usize \<Rightarrow> 'io \<times> 'io) \<Rightarrow> duplex_incoming \<times> 'io duplex_net
     \<Rightarrow> (io_kind + 'io duplex_stream) poll \<times> duplex_incoming \<times> 'io duplex_net" where
  "duplex_accept mk a = (let (r, net) = duplex_poll_accept mk (fst a) (snd a) in (r, (fst a, net)))"

definition duplex_waiting ::
  "(nat \<Rightarrow> usize \<Rightarrow> 'io \<times> 'io) \<Rightarrow> duplex_incoming \<times> 'io duplex_net \<Rightarrow> 'io duplex_stream list" where
  "duplex_waiting mk a = map snd (backlog_from mk (fst a) (dn_pipes (snd a)) (dn_queue (snd a)))"

interpretation duplex: listener "duplex_accept mk" "\<lambda>a. queue_alive (snd a)" "duplex_waiting mk"
  for mk :: "nat \<Rightarrow> usize \<Rightarrow> 'io \<times> 'io"
proof
  fix a s ss
  assume a: "queue_alive (snd a)" and w: "duplex_waiting mk a = s # ss"
  then obtain r rs where q: "dn_queue (snd a) = r # rs" by (cases "dn_queue (snd a)") (auto simp: duplex_waiting_def)
  from accept_alive [OF a q, of mk "fst a"] w q
  show "\<exists>a'. duplex_accept mk a = (Ready (Inr s), a') \<and> queue_alive (snd a') \<and> duplex_waiting mk a' = ss"
    by (auto simp: duplex_accept_def duplex_waiting_def)
next
  fix a
  assume a: "queue_alive (snd a)" and w: "duplex_waiting mk a = []"
  then have "dn_queue (snd a) = []" by (cases "dn_queue (snd a)") (auto simp: duplex_waiting_def)
  with accept_none [OF a] w
  show "\<exists>a'. duplex_accept mk a = (Pending, a') \<and> queue_alive (snd a') \<and> duplex_waiting mk a' = []"
    using a by (auto simp: duplex_accept_def)
qed

text \<open>A maker that wraps a function whose future is ready at once, \<open>std::future::ready\<close>.\<close>

fun ready_poll :: "'v option \<Rightarrow> 'v poll \<times> 'v option" where
  "ready_poll (Some v) = (Ready v, None)"
| "ready_poll None = (Panicked, None)"

definition ready_maker :: "('s \<Rightarrow> 'svc) \<Rightarrow> (unit, 's, ('e + 'svc) option, 'svc, 'e) service" where
  "ready_maker f = make_service_ref (make_service_fn (\<lambda>u s. (Some (Inr (f s)), u)) ready_poll)"

interpretation ready: service_maker "ready_maker f" "\<lambda>_. True" f for f :: "'s \<Rightarrow> 'svc"
  by unfold_locales (auto simp: ready_maker_def make_service_ref_def make_service_fn_def)

definition duplex_server_ops ::
  "(nat \<Rightarrow> usize \<Rightarrow> 'io \<times> 'io) \<Rightarrow> ('io duplex_stream \<Rightarrow> 'svc) \<Rightarrow> ('p \<Rightarrow> 'io duplex_stream \<Rightarrow> 'svc \<Rightarrow> 'conn)
     \<Rightarrow> (duplex_incoming \<times> 'io duplex_net, 'p, unit, 'io duplex_stream, (io_kind + 'svc) option, 'svc, 'conn, io_kind) server_ops" where
  "duplex_server_ops mk f serve = \<lparr>so_accept = duplex_accept mk, so_make = ready_maker f, so_serve = serve\<rparr>"

interpretation duplex_server: serving_env "duplex_server_ops mk f serve" "\<lambda>a. queue_alive (snd a)" "duplex_waiting mk" "\<lambda>_. True" f
  for mk :: "nat \<Rightarrow> usize \<Rightarrow> 'io \<times> 'io" and f :: "'io duplex_stream \<Rightarrow> 'svc" and serve :: "'p \<Rightarrow> 'io duplex_stream \<Rightarrow> 'svc \<Rightarrow> 'conn"
  unfolding serving_env_def duplex_server_ops_def
  using duplex.listener_axioms ready.service_maker_axioms by auto


section \<open>Graceful shutdown\<close>

definition running :: "'conn close_net \<Rightarrow> nat" where
  "running net = length (filter (\<lambda>tk. \<not> tk_done tk) (cn_tasks net))"

definition untold :: "'conn close_net \<Rightarrow> bool" where
  "untold net = list_all (\<lambda>tk. \<not> tk_told tk) (cn_tasks net)"

definition main_inv :: "('a, 'p, 'm, 's, 'f, 'g) graceful \<Rightarrow> 'conn close_net \<Rightarrow> bool" where
  "main_inv g net \<longleftrightarrow> gs_shutdown g \<and> gs_connection g \<and> cn_shutdown net = 1 \<and> cn_finished net = Suc (running net) \<and> untold net"

lemma main_inv_spawn: "main_inv g net \<Longrightarrow> main_inv g (graceful_spawn (gs_connection g) conn net)"
  by (auto simp: main_inv_def graceful_spawn_def close_clone_def running_def untold_def)

text \<open>How a poll that returns leaves the channels: by the signal, or as they were.\<close>

definition poll_leaves ::
  "('e server_error + unit) poll \<Rightarrow> ('a, 'p, 'm, 's, 'f, 'g) graceful \<Rightarrow> 'conn close_net \<Rightarrow> bool" where
  "poll_leaves r g net \<longleftrightarrow>
     (if r = Ready (Inr ())
      then \<not> gs_shutdown g \<and> gs_connection g \<and> cn_shutdown net = 0 \<and> cn_finished net = Suc (running net) \<and> untold net
      else main_inv g net)"

lemma graceful_once_leaves:
  assumes "main_inv g net"
  shows "case graceful_once ops signal_poll g net of
      Inl (r, g', net') \<Rightarrow> poll_leaves r g' net'
    | Inr (g', net') \<Rightarrow> main_inv g' net'"
proof -
  from assms have c: "gs_connection g" by (simp add: main_inv_def)
  have sp: "main_inv g (graceful_spawn True conn net)" for conn
    using main_inv_spawn [OF assms, of conn] c by simp
  then have "cn_finished (graceful_spawn True conn net) \<noteq> 0" for conn
    by (simp add: main_inv_def)
  with assms sp c show ?thesis
    by (auto simp: graceful_once_def poll_leaves_def main_inv_def close_send_def close_poll_def Let_def running_def untold_def
        split: prod.splits poll.splits sum.splits option.splits)
qed

lemmas graceful_poll_induct [consumes 1, case_names step] = graceful_poll.raw_induct [rotated]

lemma graceful_poll_leaves:
  assumes "graceful_poll ops signal_poll g net = Some y" and "main_inv g net"
  shows "poll_leaves (fst y) (fst (snd y)) (snd (snd y))"
  using assms
proof (induction rule: graceful_poll_induct)
  case (step poll ops signal_poll g net y)
  note once = graceful_once_leaves [OF step.prems, of ops signal_poll]
  show ?case
  proof (cases "graceful_once ops signal_poll g net")
    case (Inl res)
    with step.hyps once show ?thesis by (auto split: prod.splits)
  next
    case (Inr again)
    with step.hyps once step.IH show ?thesis by (cases again) auto
  qed
qed

text \<open>
  The graceful server, while it is there, and its tasks. The acceptor, the maker, the state
  of \<open>Serving\<close> and the signal may change in any way between polls.
\<close>

inductive graceful_step ::
  "('a, 'p, 'm, 's, 'f, 'svc, 'conn, 'e) server_ops \<Rightarrow> ('g \<Rightarrow> unit poll \<times> 'g) \<Rightarrow> ('conn \<Rightarrow> ('ce + unit) poll \<times> 'conn) \<Rightarrow> ('conn \<Rightarrow> 'conn)
     \<Rightarrow> ('a, 'p, 'm, 's, 'f, 'g) graceful option \<times> 'conn close_net \<Rightarrow> ('a, 'p, 'm, 's, 'f, 'g) graceful option \<times> 'conn close_net \<Rightarrow> bool"
  for ops signal_poll poll_conn shut where
  main_pending: "graceful_poll ops signal_poll g net = Some (Pending, g', net') \<Longrightarrow>
    graceful_step ops signal_poll poll_conn shut (Some g, net) (Some g', net')"
| main_over: "graceful_poll ops signal_poll g net = Some (r, g', net') \<Longrightarrow> r \<noteq> Pending \<Longrightarrow>
    graceful_step ops signal_poll poll_conn shut (Some g, net) (None, graceful_drop g' net')"
| main_dropped: "graceful_step ops signal_poll poll_conn shut (Some g, net) (None, graceful_drop g net)"
| environment: "graceful_step ops signal_poll poll_conn shut (Some g, net) (Some (g\<lparr>gs_server := srv, gs_signal := sg\<rparr>), net)"
| task: "i < length (cn_tasks net) \<Longrightarrow> \<not> tk_done (cn_tasks net ! i) \<Longrightarrow>
    graceful_step ops signal_poll poll_conn shut (m, net) (m, task_poll poll_conn shut first i net)"

inductive graceful_reachable ::
  "('a, 'p, 'm, 's, 'f, 'svc, 'conn, 'e) server_ops \<Rightarrow> ('g \<Rightarrow> unit poll \<times> 'g) \<Rightarrow> ('conn \<Rightarrow> ('ce + unit) poll \<times> 'conn) \<Rightarrow> ('conn \<Rightarrow> 'conn)
     \<Rightarrow> ('a, 'p, 'm, 's, 'f, 'g) graceful option \<times> 'conn close_net \<Rightarrow> bool"
  for ops signal_poll poll_conn shut where
  started: "graceful_new server signal = (g, net) \<Longrightarrow> graceful_reachable ops signal_poll poll_conn shut (Some g, net)"
| stepped: "graceful_reachable ops signal_poll poll_conn shut w \<Longrightarrow> graceful_step ops signal_poll poll_conn shut w w' \<Longrightarrow>
    graceful_reachable ops signal_poll poll_conn shut w'"

definition graceful_inv :: "('a, 'p, 'm, 's, 'f, 'g) graceful option \<times> 'conn close_net \<Rightarrow> bool" where
  "graceful_inv w \<longleftrightarrow>
     (case w of (Some g, net) \<Rightarrow> main_inv g net
      | (None, net) \<Rightarrow> cn_shutdown net = 0 \<and> cn_finished net = running net)"

lemma drop_after_poll: "poll_leaves r g net \<Longrightarrow> cn_shutdown (graceful_drop g net) = 0 \<and> cn_finished (graceful_drop g net) = running (graceful_drop g net)"
  by (auto simp: poll_leaves_def main_inv_def graceful_drop_def close_send_def running_def split: if_splits)

lemma select_loop_open: "tk_told (select_loop poll_conn shut False first tk) = tk_told tk"
  by (simp add: select_loop.simps [of poll_conn shut False] split: prod.splits poll.splits)

lemma select_loop_closed: "tk_told (select_loop poll_conn shut True first tk) \<or> tk_done (select_loop poll_conn shut True first tk)"
proof -
  have told: "tk_told (select_loop poll_conn shut True first tk)" if "tk_told tk" for tk
    using that by (simp add: select_loop.simps [of poll_conn shut True first tk] split: prod.splits poll.splits)
  show ?thesis
    by (subst (1 2) select_loop.simps) (auto simp: told split: prod.splits poll.splits)
qed

lemma length_filter_update:
  "i < length xs \<Longrightarrow> P (xs ! i) \<Longrightarrow> length (filter P (xs[i := x])) + (if P x then 0 else 1) = length (filter P xs)"
  by (induction xs arbitrary: i) (auto simp: nth_Cons split: nat.splits)

lemma task_poll_running:
  assumes "i < length (cn_tasks net)" and "\<not> tk_done (cn_tasks net ! i)" and "cn_finished net = k + running net"
  shows "cn_finished (task_poll poll_conn shut first i net) = k + running (task_poll poll_conn shut first i net)"
proof -
  define tk where "tk = select_loop poll_conn shut (close_poll (cn_shutdown net) = Ready ()) first (cn_tasks net ! i)"
  from length_filter_update [where P = "\<lambda>tk. \<not> tk_done tk", OF assms(1), of tk] assms(2,3)
  show ?thesis by (auto simp: task_poll_def running_def close_send_def Let_def tk_def [symmetric] split: if_splits)
qed

lemma task_poll_shutdown: "cn_shutdown (task_poll poll_conn shut first i net) = cn_shutdown net"
  by (simp add: task_poll_def Let_def split: prod.splits)

lemma task_poll_untold:
  assumes "untold net" and "i < length (cn_tasks net)" and "cn_shutdown net \<noteq> 0"
  shows "untold (task_poll poll_conn shut first i net)"
  using assms by (auto simp: task_poll_def close_poll_def Let_def untold_def list_all_length nth_list_update select_loop_open
      split: prod.splits)

lemma graceful_inv_step:
  "graceful_step ops signal_poll poll_conn shut w w' \<Longrightarrow> graceful_inv w \<Longrightarrow> graceful_inv w'"
proof (induction rule: graceful_step.induct)
  case (main_pending g net g' net')
  with graceful_poll_leaves [OF main_pending(1)] show ?case by (simp add: graceful_inv_def poll_leaves_def)
next
  case (main_over g net r g' net')
  with graceful_poll_leaves [OF main_over(1)] drop_after_poll show ?case by (fastforce simp: graceful_inv_def)
next
  case (main_dropped g net)
  then show ?case using drop_after_poll [of Pending g net] by (simp add: graceful_inv_def poll_leaves_def)
next
  case (environment g net srv sg)
  then show ?case by (simp add: graceful_inv_def main_inv_def)
next
  case (task i net m first)
  then show ?case
    using task_poll_running [OF task(1,2), of "if m = None then 0 else 1"] task_poll_untold [OF _ task(1)]
    by (cases m) (auto simp: graceful_inv_def main_inv_def task_poll_shutdown)
qed

lemma graceful_inv_reachable:
  "graceful_reachable ops signal_poll poll_conn shut w \<Longrightarrow> graceful_inv w"
proof (induction rule: graceful_reachable.induct)
  case (started server signal g net)
  then show ?case
    by (auto simp: graceful_new_def close_def graceful_inv_def main_inv_def running_def untold_def)
qed (rule graceful_inv_step)

section \<open>Properties\<close>



text \<open>An error of the acceptor or of the maker ends the server: the poll answers it and
  spawns nothing more. In particular an in-memory connect that was abandoned before it was
  accepted ends the server, with the requests behind it still in the queue.\<close>

theorem server_stops_on_error:
  "(sv_state me = Accepting \<and> so_accept ops (sr_acceptor (sv_server me)) = (Ready (Inl e), a) \<longrightarrow>
      (\<exists>me'. serving_poll ops me spawned = Some (Ready (Inl (Accept_Error e)), me', spawned))) \<and>
   (sv_state me = Making fut s \<and> s_fpoll (so_make ops) fut = (Ready (Inl e), fut') \<longrightarrow>
      (\<exists>me'. serving_poll ops me spawned = Some (Ready (Inl (MakeService_Error e)), me', spawned))) \<and>
   (sv_state dme = Accepting \<and> sr_acceptor (sv_server dme) = (inc, net) \<and> dn_queue net = r # rs \<and>
      dn_cells net (dr_ack r) = RxDropped \<longrightarrow>
      (\<exists>dme'. serving_poll (duplex_server_ops mk f serve) dme dspawned =
          Some (Ready (Inl (Accept_Error ConnectionReset)), dme', dspawned) \<and>
        dn_queue (snd (sr_acceptor (sv_server dme'))) = rs))"
proof (intro conjI impI)
  assume "sv_state me = Accepting \<and> so_accept ops (sr_acceptor (sv_server me)) = (Ready (Inl e), a)"
  then have "poll_once ops me = (Ready (Inl (Accept_Error e)), me\<lparr>sv_server := (sv_server me)\<lparr>sr_acceptor := a\<rparr>\<rparr>)"
    by (simp add: poll_once_def server_error_accept_def Let_def)
  from serving_poll_steps(4) [OF this] show "\<exists>me'. serving_poll ops me spawned = Some (Ready (Inl (Accept_Error e)), me', spawned)"
    by blast
next
  assume "sv_state me = Making fut s \<and> s_fpoll (so_make ops) fut = (Ready (Inl e), fut')"
  then have "poll_once ops me = (Ready (Inl (MakeService_Error e)), me\<lparr>sv_state := Making fut' s\<rparr>)"
    by (simp add: poll_once_def server_error_make_def)
  from serving_poll_steps(4) [OF this] show "\<exists>me'. serving_poll ops me spawned = Some (Ready (Inl (MakeService_Error e)), me', spawned)"
    by blast
next
  assume h: "sv_state dme = Accepting \<and> sr_acceptor (sv_server dme) = (inc, net) \<and> dn_queue net = r # rs \<and>
    dn_cells net (dr_ack r) = RxDropped"
  then obtain net' where acc: "so_accept (duplex_server_ops mk f serve) (sr_acceptor (sv_server dme)) =
      (Ready (Inl ConnectionReset), (inc, net'))" and q: "dn_queue net' = rs"
    by (auto simp: duplex_server_ops_def duplex_accept_def duplex_poll_accept_def poll_recv_def request_ack_def Let_def case_prod_beta)
  from h acc have "poll_once (duplex_server_ops mk f serve) dme =
      (Ready (Inl (Accept_Error ConnectionReset)), dme\<lparr>sv_server := (sv_server dme)\<lparr>sr_acceptor := (inc, net')\<rparr>\<rparr>)"
    by (simp add: poll_once_def server_error_accept_def Let_def)
  from serving_poll_steps(4) [OF this] q
  show "\<exists>dme'. serving_poll (duplex_server_ops mk f serve) dme dspawned =
      Some (Ready (Inl (Accept_Error ConnectionReset)), dme', dspawned) \<and> dn_queue (snd (sr_acceptor (sv_server dme'))) = rs"
    by auto
qed


theorem server_stops_on_error_witness:
  "\<exists>me'. serving_poll (duplex_server_ops (\<lambda>k n. (2 * k, 2 * k + 1)) ds_inner (\<lambda>p s svc. (p :: unit, svc)))
      \<lparr>sv_server = server_new (incoming_new, (fst duplex_pair :: nat duplex_net)\<lparr>dn_cells := (\<lambda>_. Empty)(0 := RxDropped),
          dn_queue := [request_new 0 5, request_new 1 7]\<rparr>) () (), sv_state = Accepting\<rparr> [] =
      Some (Ready (Inl (Accept_Error ConnectionReset)), me', []) \<and>
    dn_queue (snd (sr_acceptor (sv_server me'))) = [request_new 1 7]"
proof -
  let ?net = "(fst duplex_pair :: nat duplex_net)\<lparr>dn_cells := (\<lambda>_. Empty)(0 := RxDropped),
      dn_queue := [request_new 0 5, request_new 1 7]\<rparr>"
  have "dn_cells ?net (dr_ack (request_new 0 5)) = RxDropped" by (simp add: request_new_def)
  then show ?thesis
    using conjunct2 [OF conjunct2 [OF server_stops_on_error [where dme =
        "\<lparr>sv_server = server_new (incoming_new, ?net) () (), sv_state = Accepting\<rparr>" and inc = incoming_new and net = ?net
        and r = "request_new 0 5" and rs = "[request_new 1 7]" and dspawned = "[]" and mk = "\<lambda>k n. (2 * k, 2 * k + 1)"
        and f = ds_inner and serve = "\<lambda>p s svc. (p :: unit, svc)"]]]
    by (simp add: server_new_def)
qed

text \<open>C27: while a graceful server runs, no connection has been told to shut down and the
  finished channel has one receiver more than connections that run: the server's own. So its
  future answers \<open>Ok\<close> only by the signal, the \<open>all connections closed\<close> branch being
  unreachable; and when the signal has fired it answers at once, without waiting for any
  connection.\<close>

theorem graceful_running:
  assumes "graceful_reachable ops signal_poll poll_conn shut (Some g, net)"
  shows "list_all (\<lambda>tk. \<not> tk_told tk) (cn_tasks net) \<and> cn_finished net = Suc (running net) \<and> cn_shutdown net = 1 \<and>
    (\<forall>g' net'. graceful_poll ops signal_poll g net = Some (Ready (Inr ()), g', net') \<longrightarrow>
       cn_shutdown net' = 0 \<and> cn_finished net' = Suc (running net')) \<and>
    (\<forall>u sg. signal_poll (gs_signal g) = (Ready u, sg) \<longrightarrow>
       graceful_poll ops signal_poll g net =
         Some (Ready (Inr ()), g\<lparr>gs_signal := sg, gs_shutdown := False\<rparr>, net\<lparr>cn_shutdown := 0\<rparr>))"
proof -
  from graceful_inv_reachable [OF assms] have inv: "main_inv g net" by (simp add: graceful_inv_def)
  have over: "cn_shutdown net' = 0 \<and> cn_finished net' = Suc (running net')"
    if "graceful_poll ops signal_poll g net = Some (Ready (Inr ()), g', net')" for g' net'
    using graceful_poll_leaves [OF that inv] by (simp add: poll_leaves_def)
  have fired: "graceful_poll ops signal_poll g net =
      Some (Ready (Inr ()), g\<lparr>gs_signal := sg, gs_shutdown := False\<rparr>, net\<lparr>cn_shutdown := 0\<rparr>)"
    if "signal_poll (gs_signal g) = (Ready u, sg)" for u sg
    using that inv by (simp add: graceful_poll.simps [of ops signal_poll g net] graceful_once_def close_send_def main_inv_def)
  from inv over fired show ?thesis unfolding main_inv_def untold_def by blast
qed

theorem graceful_running_witness:
  "let w = graceful_new (server_new (incoming_new, fst duplex_pair :: nat duplex_net) () ()) ();
       ops = duplex_server_ops (\<lambda>k n. (2 * k, 2 * k + 1)) ds_inner (\<lambda>p s svc. (p :: unit, svc))
   in graceful_poll ops (\<lambda>s. (Ready (), s)) (fst w) (snd w) =
        Some (Ready (Inr ()), (fst w)\<lparr>gs_signal := (), gs_shutdown := False\<rparr>, (snd w)\<lparr>cn_shutdown := 0\<rparr>)"
proof -
  let ?ops = "duplex_server_ops (\<lambda>k n. (2 * k, 2 * k + 1)) ds_inner (\<lambda>p s svc. (p :: unit, svc))"
  have "let w = graceful_new (server_new (incoming_new, fst duplex_pair :: nat duplex_net) () ()) ()
    in graceful_reachable ?ops (\<lambda>s. (Ready (), s)) (\<lambda>c. (Ready (Inr ()) :: (unit + unit) poll, c)) id (Some (fst w), snd w)"
    unfolding Let_def by (rule started [OF prod.collapse [symmetric]])
  from graceful_running [OF this [unfolded Let_def]] show ?thesis by (simp add: Let_def)
qed




end
