(* ===== verification/Wakeups.thy ===== *)
theory Wakeups
  imports Client_System Server
begin

text \<open>
  No wake-up is lost. A task that answers \<open>Pending\<close> is polled again only when something it
  has asked in that poll, and that was not ready, becomes ready. The theorems of this theory say
  what that is for a request (\<open>ResponseFuture::poll\<close>, down to \<open>Checkout::poll\<close>) and for the
  server (\<open>Serving::poll\<close>, \<open>GracefulShutdown::poll\<close>), and that a request which waits for a
  connection of another request has its sender in the pool's queue for its key, where
  \<open>PoolInner::push\<close> looks for it, in every state the client can reach.
\<close>

section \<open>Waiting senders stay queued\<close>

definition queued_for :: "('k, 'c) pool_heap \<Rightarrow> sender \<Rightarrow> 'k \<Rightarrow> bool" where
  "queued_for heap n k = (\<exists>i ws. heap 0 = Some i \<and> waiting i k = Some ws \<and> n \<in> set ws)"

text \<open>
  How the pool and the channels may change: a channel that is still unused afterwards was
  unused before, and its sender is in the same queue.
\<close>

definition keeps_queued ::
  "('k, 'c) pool_heap \<times> ('k, 'c) cells \<Rightarrow> ('k, 'c) pool_heap \<times> ('k, 'c) cells \<Rightarrow> bool" where
  "keeps_queued hc hc' \<longleftrightarrow> length (snd hc) \<le> length (snd hc') \<and>
     (\<forall>n < length (snd hc). snd hc' ! n = Empty \<longrightarrow>
        snd hc ! n = Empty \<and> (\<forall>k. queued_for (fst hc) n k \<longrightarrow> queued_for (fst hc') n k))"

lemma keeps_refl [simp]: "keeps_queued hc hc"
  by (simp add: keeps_queued_def)

lemma keeps_trans: "keeps_queued a b \<Longrightarrow> keeps_queued b c \<Longrightarrow> keeps_queued a c"
  by (auto simp: keeps_queued_def)

lemma keeps_heap:
  "(\<And>n k. queued_for heap n k \<Longrightarrow> queued_for heap' n k) \<Longrightarrow> keeps_queued (heap, cells) (heap', cells)"
  by (simp add: keeps_queued_def)

lemma keeps_cell: "c \<noteq> Empty \<or> cells ! n = Empty \<Longrightarrow> keeps_queued (heap, cells) (heap, cells[n := c])"
proof -
  assume c: "c \<noteq> Empty \<or> cells ! n = Empty"
  have "cells ! m = Empty" if "m < length cells" "cells[n := c] ! m = Empty" for m
    using that c by (cases "m = n") auto
  then show ?thesis by (simp add: keeps_queued_def)
qed

lemma with_pool_queued:
  assumes "\<And>i. waiting (f i) = waiting i"
  shows "queued_for (with_pool heap r f) n k = queued_for heap n k"
  by (auto simp: queued_for_def with_pool_upd assms split: weak_opt.splits option.splits)

lemma walk_keeps:
  "push_walk ops closed key ref ws c = (sends, rest, left) \<Longrightarrow> n \<in> set ws \<Longrightarrow> \<not> closed n \<Longrightarrow>
     n \<notin> fst ` set sends \<Longrightarrow> n \<in> set rest"
  by (induction ws arbitrary: sends rest left) (auto split: if_splits option.splits prod.splits)

lemma deliver_at: "n \<in> fst ` set sends \<Longrightarrow> n < length cells \<Longrightarrow> deliver sends cells ! n \<noteq> Empty"
proof (induction sends cells rule: deliver.induct)
  case (2 m p sends cells)
  show ?case
  proof (cases "n \<in> fst ` set sends")
    case False
    with 2 deliver_other [OF False, of "cells[m := Full p]"] show ?thesis by auto
  qed (use 2 in auto)
qed simp

lemma push_keeps:
  assumes "push ops (rx_closed cells) now key c ref i = (i', sends)" and "heap 0 = Some i"
  shows "keeps_queued (heap, cells) (heap(0 \<mapsto> i'), deliver sends cells)"
proof -
  have "cells ! n = Empty \<and> (\<forall>k. queued_for heap n k \<longrightarrow> queued_for (heap(0 \<mapsto> i')) n k)"
    if n: "n < length cells" "deliver sends cells ! n = Empty" for n
  proof -
    from n deliver_at [of n sends cells] have out: "n \<notin> fst ` set sends" by blast
    with n deliver_other [OF out, of cells] have em: "cells ! n = Empty" by simp
    have "queued_for (heap(0 \<mapsto> i')) n k" if "queued_for heap n k" for k
    proof -
      from that assms(2) obtain ws where ws: "waiting i k = Some ws" "n \<in> set ws" by (auto simp: queued_for_def)
      from push_waiting [OF assms(1)] show ?thesis
      proof (elim disjE exE conjE)
        fix vs rest left
        assume "waiting i key = Some vs" "push_walk ops (rx_closed cells) key ref vs c = (sends, rest, left)"
          "waiting i' = (waiting i)(key \<mapsto> rest)"
        with ws walk_keeps [of ops "rx_closed cells" key ref vs c sends rest left n] out em
        show ?thesis by (auto simp: queued_for_def rx_closed_def)
      qed (use ws in \<open>auto simp: queued_for_def\<close>)
    qed
    with em show ?thesis by blast
  qed
  then show ?thesis by (simp add: keeps_queued_def)
qed

lemma release_keeps:
  assumes "refers 0 (p_pool p)" and "release ops now p heap cells = hc"
  shows "keeps_queued (heap, cells) hc"
proof -
  obtain heap' sends where drop: "drop_pooled ops (rx_closed cells) now heap p = (heap', sends)" by fastforce
  with assms(2) have hc: "hc = (heap', deliver sends cells)" by (auto simp: release_def)
  from drop assms(1) show ?thesis
  proof (cases rule: drop_pooled_cases)
    case 1
    then show ?thesis by (simp add: hc)
  next
    case (2 c i i')
    from push_keeps [OF 2(5), of heap] 2 show ?thesis by (simp add: hc)
  qed
qed

lemma drop_rx_keeps:
  assumes "linv heap cells" and "\<And>n. rx_channel w = Some n \<Longrightarrow> n < length cells"
    and "drop_rx ops now w heap cells = hc"
  shows "keeps_queued (heap, cells) hc"
proof (cases "rx_channel w")
  case None
  with assms(3) show ?thesis by (auto simp: drop_rx_def)
next
  case (Some n)
  with assms(2) have n: "n < length cells" by simp
  show ?thesis
  proof (cases "cells ! n")
    case (Full p)
    then have "Full p \<in> set cells" using n by (metis nth_mem)
    with assms(1) have ref: "refers 0 (p_pool p)" by (auto simp: linv_def)
    from Full Some assms(3) have "release ops now p heap (cells[n := Taken]) = hc" by (simp add: drop_rx_def)
    from keeps_trans [OF keeps_cell release_keeps [OF ref this]] show ?thesis by simp
  qed (use Some assms(3) in \<open>auto simp: drop_rx_def intro: keeps_cell\<close>)
qed

lemma end_checkout_keeps:
  assumes "linv heap cells" and "\<And>n. rx_channel (ck_waiter co) = Some n \<Longrightarrow> n < length cells"
    and "end_checkout ops now co heap cells = hc"
  shows "keeps_queued (heap, cells) hc"
proof -
  have l: "linv (checkout_drop heap co) cells" using assms(1) by (simp add: checkout_drop_linv)
  have "keeps_queued (heap, cells) (checkout_drop heap co, cells)"
    by (rule keeps_heap) (simp add: checkout_drop_def with_pool_queued cancel_connection_def)
  from keeps_trans [OF this drop_rx_keeps [OF l assms(2)]] assms(3) show ?thesis
    by (simp add: end_checkout_def)
qed

lemma connected_keeps:
  assumes "connected ops (rx_closed cells) now heap co c = (heap', sends, p)" and "refers 0 (ck_pool co)"
  shows "keeps_queued (heap, cells) (heap', deliver sends cells)"
  using assms
proof (cases rule: connected_cases)
  case plain
  then show ?thesis by simp
next
  case (shared c' i i')
  from push_keeps [OF shared(3), of heap] shared show ?thesis by simp
qed

definition output_keeps :: "('k, 'c) pool_heap \<Rightarrow> ('k, 'c) cells \<Rightarrow> ('k, 'c, 'f, 't, 'e) poll_output \<Rightarrow> bool" where
  "output_keeps heap cells out = (case out of (heap', sends, co', res) \<Rightarrow>
     keeps_queued (heap, cells) (heap', deliver sends cells))"

lemma handshaking_keeps:
  assumes "refers 0 (ck_pool co)"
  shows "output_keeps heap cells (poll_handshaking ops (rx_closed cells) now inp heap co t)"
  using connected_keeps [OF _ assms]
  by (auto simp: output_keeps_def poll_handshaking_def split: poll.splits sum.splits prod.splits)

lemma connect_keeps:
  assumes "refers 0 (ck_pool co)"
  shows "output_keeps heap cells (poll_connect ops tshare (rx_closed cells) now inp heap co)"
proof (cases "ck_inner co")
  case Inner_Connected
  have "refers 0 (ck_pool (co\<lparr>ck_connection := None\<rparr>))" using assms by simp
  from connected_keeps [OF _ this] Inner_Connected show ?thesis
    by (auto simp: output_keeps_def poll_connect_def Let_def split: option.splits prod.splits)
next
  case (Inner_Connecting f)
  have "output_keeps heap cells (poll_handshaking ops (rx_closed cells) now inp
      (if b then with_pool heap (ck_pool co) (connected_in_handshake (ck_key co)) else heap) (co\<lparr>ck_inner := i\<rparr>) t)" for b i t
  proof -
    let ?heap = "if b then with_pool heap (ck_pool co) (connected_in_handshake (ck_key co)) else heap"
    have 1: "keeps_queued (heap, cells) (?heap, cells)"
      by (rule keeps_heap) (simp add: with_pool_queued connected_in_handshake_def)
    have "output_keeps ?heap cells (poll_handshaking ops (rx_closed cells) now inp ?heap (co\<lparr>ck_inner := i\<rparr>) t)"
      by (rule handshaking_keeps) (use assms in simp)
    with keeps_trans [OF 1] show ?thesis by (auto simp: output_keeps_def split: prod.splits)
  qed
  with Inner_Connecting show ?thesis
    by (auto simp: poll_connect_def output_keeps_def [of _ _ "(_, [], _)"] Let_def split: poll.splits sum.splits)
next
  case (Inner_Handshaking t)
  with handshaking_keeps [OF assms] show ?thesis by (simp add: poll_connect_def)
qed (simp add: poll_connect_def output_keeps_def)

lemma checkout_poll_keeps:
  assumes "refers 0 (ck_pool co)"
  shows "output_keeps heap cells (checkout_poll ops tshare (rx_closed cells) now inp heap co)"
  using connect_keeps [OF assms]
  by (auto simp: checkout_poll_def output_keeps_def [of _ _ "(_, [], _)"] split: poll.splits waiting_poll.splits)

lemma receive_keeps:
  assumes "(case rx_channel (ck_waiter co) of None \<Rightarrow> (Panicked, cells0)
      | Some n \<Rightarrow> (let (r, c) = rx_poll (cells0 ! n) in (r, cells0[n := c]))) = (rx, cells)"
  shows "keeps_queued (heap, cells0) (heap, cells)"
proof (cases "rx_channel (ck_waiter co)")
  case (Some n)
  with assms obtain c where c: "rx_poll (cells0 ! n) = (rx, c)" "cells = cells0[n := c]"
    by (auto split: prod.splits)
  have "c \<noteq> Empty \<or> cells0 ! n = Empty" using c(1) by (cases "cells0 ! n") auto
  from keeps_cell [OF this] c(2) show ?thesis by simp
qed (use assms in simp)

text \<open>The checkouts keep their keys and their channels.\<close>

lemma poll_checkout_frame:
  "checkout_poll ops tshare closed now inp heap co = (heap', sends, co', res) \<Longrightarrow>
     ck_key co' = ck_key co \<and> ck_waiter co' = ck_waiter co \<and> ck_pool co' = ck_pool co"
  by (auto simp: checkout_poll_def poll_connect_def poll_handshaking_def Let_def
      split: poll.splits waiting_poll.splits inner_checkout.splits option.splits sum.splits prod.splits)

lemma do_poll_keeps:
  assumes "do_poll ops tshare now tr hs j w = (w', res)" and "linv (w_heap w) (w_cells w)"
    and "co_ok (length (w_cells w)) (w_checkouts w ! j)"
    and "poolable_connection ops" and "j < length (w_checkouts w)"
  shows "keeps_queued (w_heap w, w_cells w) (w_heap w', w_cells w')"
    and "\<And>co. co \<in> set (w_checkouts w') \<Longrightarrow>
      \<exists>co0 \<in> set (w_checkouts w). ck_key co = ck_key co0 \<and> ck_waiter co = ck_waiter co0"
proof -
  let ?co = "w_checkouts w ! j"
  obtain rx cells where rx: "(case rx_channel (ck_waiter ?co) of None \<Rightarrow> (Panicked, w_cells w)
      | Some n \<Rightarrow> (let (r, c) = rx_poll (w_cells w ! n) in (r, (w_cells w)[n := c]))) = (rx, cells)"
    by fastforce
  let ?inp = "\<lparr>in_rx = rx, in_transport = tr, in_handshake = hs\<rparr>"
  obtain heap1 sends co1 r where cp: "checkout_poll ops tshare (rx_closed cells) now ?inp (w_heap w) ?co = (heap1, sends, co1, r)"
    using prod_cases4 by blast
  from assms(3) have ref: "refers 0 (ck_pool ?co)" by (simp add: co_ok_def)
  note rcv = receive_ok [OF assms(2,3) rx]
  from checkout_poll_keeps [OF ref, of "w_heap w" cells ops tshare now ?inp] cp
  have "keeps_queued (w_heap w, cells) (heap1, deliver sends cells)" by (simp add: output_keeps_def)
  from keeps_trans [OF receive_keeps [OF rx] this]
  have k1: "keeps_queued (w_heap w, w_cells w) (heap1, deliver sends cells)" .
  note fr = poll_checkout_frame [OF cp]
  from checkout_poll_good [OF assms(4) rcv(1) ref, of ?inp hs _ tshare now] rcv cp
  have l1: "linv heap1 (deliver sends cells)" by (simp add: poll_good_def)
  obtain heap2 cells2 where ec: "end_checkout ops now co1 heap1 (deliver sends cells) = (heap2, cells2)" by fastforce
  have ch: "rx_channel (ck_waiter co1) = Some n \<Longrightarrow> n < length (deliver sends cells)" for n
    using assms(3) fr rcv(3) by (simp add: co_ok_def)
  note k2 = keeps_trans [OF k1 end_checkout_keeps [OF l1 ch ec]]
  have w': "w' = (if r = Pending
      then w\<lparr>w_heap := heap1, w_cells := deliver sends cells, w_checkouts := (w_checkouts w)[j := co1]\<rparr>
      else w\<lparr>w_heap := heap2, w_cells := cells2, w_checkouts := remove_at j (w_checkouts w),
             w_held := w_held w @ (case res of Ready (Inr p) \<Rightarrow> [p] | _ \<Rightarrow> [])\<rparr>)"
    using assms(1) [unfolded do_poll_def view_simps nth_Cons_0] rx cp ec by (auto simp: Let_def split: poll.splits)
  show "keeps_queued (w_heap w, w_cells w) (w_heap w', w_cells w')" using k1 k2 by (simp add: w')
  show "\<exists>co0 \<in> set (w_checkouts w). ck_key co = ck_key co0 \<and> ck_waiter co = ck_waiter co0"
    if "co \<in> set (w_checkouts w')" for co
    using that fr set_remove_at [of j "w_checkouts w"] set_update_subset_insert [of "w_checkouts w" j co1] nth_mem [OF assms(5)]
    by (auto simp: w' split: if_splits)
qed

section \<open>Requests\<close>

definition net_keeps :: "'c client_net \<Rightarrow> 'c client_net \<Rightarrow> bool" where
  "net_keeps net net' = keeps_queued (nt_heap net, nt_cells net) (nt_heap net', nt_cells net')"

lemma net_keeps_trans: "net_keeps a b \<Longrightarrow> net_keeps b c \<Longrightarrow> net_keeps a c"
  unfolding net_keeps_def by (rule keeps_trans)

lemma net_keeps_simps [simp]: "net_keeps net net" "net_keeps net (net'\<lparr>nt_tasks := ts\<rparr>) = net_keeps net net'"
  "net_keeps (net\<lparr>nt_tasks := ts\<rparr>) net' = net_keeps net net'"
  by (simp_all add: net_keeps_def)

lemma net_release_keeps:
  assumes "refers 0 (p_pool p)"
  shows "net_keeps net (net_release ops now p net)"
  using release_keeps [OF assms, of ops now "nt_heap net" "nt_cells net"]
  by (auto simp: net_keeps_def net_release_def split: prod.splits)

lemma exec_poll_keeps:
  assumes "exec_poll checked ops via into now e net = (r, e', net')" and "\<forall>p \<in> set (exec_held e). refers 0 (p_pool p)"
  shows "net_keeps net net'"
  using assms(1)
proof (cases e)
  case (Exec_Start request conn)
  with net_release_keeps [of conn] assms show ?thesis
    by (auto simp: exec_sending_poll_def split: option.splits run.splits sum.splits poll.splits prod.splits)
next
  case (Exec_Sending fut conn)
  with net_release_keeps [of conn] assms show ?thesis
    by (auto simp: exec_sending_poll_def split: option.splits sum.splits poll.splits prod.splits)
qed auto

lemma request_poll_keeps:
  assumes "response_request_poll checked ops via into now e net = (r, f', net')"
    and "\<forall>p \<in> set (exec_held e). refers 0 (p_pool p)"
  shows "net_keeps net net'" and "future_checkouts f' = []"
  using exec_poll_keeps [of checked ops via into now e net _ _ net'] assms
  by (auto simp: response_request_poll_def split: prod.splits poll.splits)

definition same_wait :: "(key, 'c, 'f, 'st) checkout \<Rightarrow> (key, 'c, 'f, 'st) checkout \<Rightarrow> bool" where
  "same_wait co co0 = (ck_key co = ck_key co0 \<and> ck_waiter co = ck_waiter co0)"

text \<open>A poll of a request, on any state its invariant allows.\<close>

lemma response_poll_keeps:
  fixes r :: "(('x, 'h) client_error + 'b body response) poll" and f :: "('c, 'f, 'st, 'b, 'sf, 'x) response_future"
  assumes "good share (view net (future_checkouts f @ cos) (future_held f @ held))"
    and "poolable_connection ops" and "can_share ops = share"
    and "\<And>t c. hs t = Ready (Inr c) \<Longrightarrow>
      share c \<or> c \<notin># world_conns (view net (future_checkouts f @ cos) (future_held f @ held))"
    and "response_poll checked ops via into tshare now tr hs f net = (r, g, net')"
  shows "net_keeps net net'"
    and "\<And>co. co \<in> set (future_checkouts g) \<Longrightarrow> \<exists>co0 \<in> set (future_checkouts f). same_wait co co0"
proof -
  have "net_keeps net net' \<and> (\<forall>co \<in> set (future_checkouts g). \<exists>co0 \<in> set (future_checkouts f). same_wait co co0)"
  proof (cases f)
    case (RF_Request e)
    with assms(1) have "\<forall>p \<in> set (exec_held e). refers 0 (p_pool p)" by (auto simp: good_def winv_def)
    with request_poll_keeps [of checked ops via into now e net r g net'] assms(5) RF_Request show ?thesis by simp
  next
    case (RF_Checkout co req)
    let ?w = "view net [co] [] :: (key, 'c, 'f, 'st) world"
    obtain w' res where dp: "do_poll ops tshare now tr hs 0 ?w = (w', res)" by fastforce
    let ?net = "net\<lparr>nt_heap := w_heap w', nt_cells := w_cells w'\<rparr>"
    from assms(1) RF_Checkout have l: "linv (nt_heap net) (nt_cells net)" and ok: "co_ok (length (nt_cells net)) co"
      by (auto simp: good_def winv_def)
    from do_poll_keeps [OF dp] l ok assms(2)
    have k: "net_keeps net ?net" and fr: "\<And>c. c \<in> set (w_checkouts w') \<Longrightarrow> same_wait c co"
      by (auto simp: net_keeps_def same_wait_def)
    have "winv ?w" using l ok by (simp add: winv_def)
    moreover have "\<And>t c. hs t = Ready (Inr c) \<Longrightarrow> share c \<or> c \<notin># world_conns ?w"
    proof -
      fix t c
      assume "hs t = Ready (Inr c)"
      from assms(4) [OF this] show "share c \<or> c \<notin># world_conns ?w"
        by (auto simp: RF_Checkout world_conns_def)
    qed
    ultimately have "winv w'" using do_poll_ok(1) [of ?w ops share 0 hs tshare now tr] assms(2,3) dp by simp
    then have held: "p \<in> set (w_held w') \<Longrightarrow> refers 0 (p_pool p)" for p by (simp add: winv_def)
    have wh: "res = Ready (Inr p) \<Longrightarrow> p \<in> set (w_held w')" for p
      using dp by (auto simp: do_poll_def Let_def split: prod.splits poll.splits)
    have wc: "res = Pending \<Longrightarrow> w_checkouts w' \<noteq> []"
      using dp by (auto simp: do_poll_def Let_def split: prod.splits poll.splits)
    show ?thesis
    proof (cases "\<exists>p. res = Ready (Inr p)")
      case True
      then obtain p where p: "res = Ready (Inr p)" ..
      have "\<forall>q \<in> set (exec_held (Exec_Start req p)). refers 0 (p_pool q)" using held wh p by simp
      with request_poll_keeps [of checked ops via into now "Exec_Start req p" ?net r g net'] assms(5)
        RF_Checkout dp p net_keeps_trans [OF k, of net']
      show ?thesis by (simp add: view_def)
    next
      case False
      with assms(5) RF_Checkout dp k fr wc show ?thesis
        by (auto simp: view_def Let_def split: poll.splits sum.splits)
    qed
  qed (use assms(5) in auto)
  then show "net_keeps net net'"
    and "\<And>co. co \<in> set (future_checkouts g) \<Longrightarrow> \<exists>co0 \<in> set (future_checkouts f). same_wait co co0" by auto
qed

lemma response_drop_keeps:
  assumes "good share (view net (future_checkouts f @ cos) (future_held f @ held))"
  shows "net_keeps net (response_drop ops now f net)"
proof (cases f)
  case (RF_Checkout co req)
  from assms RF_Checkout have "linv (nt_heap net) (nt_cells net)" "co_ok (length (nt_cells net)) co"
    by (auto simp: good_def winv_def)
  with end_checkout_keeps [of "nt_heap net" "nt_cells net" co ops now] show ?thesis
    by (auto simp: RF_Checkout net_keeps_def co_ok_def split: prod.splits)
next
  case (RF_Request e)
  with assms net_release_keeps [of _ net ops now] show ?thesis
    by (cases e) (auto simp: good_def winv_def)
qed auto

lemma ready_task_keeps:
  assumes "refers 0 (p_pool (nt_tasks net ! j))"
  shows "net_keeps net (ready_task_poll ops via now j net)"
  using net_release_keeps [OF assms, of "net\<lparr>nt_tasks := remove_at j (nt_tasks net)\<rparr>" ops now]
  by (auto simp: ready_task_poll_def Let_def split: option.splits poll.splits)

section \<open>Every reachable state keeps the queues\<close>

definition awaits :: "'c client_net \<Rightarrow> (key, 'c, 'f, 'st) checkout \<Rightarrow> bool" where
  "awaits net co = (\<forall>n. rx_channel (ck_waiter co) = Some n \<longrightarrow> nt_cells net ! n = Empty \<longrightarrow>
     queued_for (nt_heap net) n (ck_key co))"

definition queues_kept :: "('c, 'f, 'st, 'b, 'sf, 'x) client_world \<Rightarrow> bool" where
  "queues_kept w = (\<forall>f \<in> set (snd w). \<forall>co \<in> set (future_checkouts f). awaits (fst w) co)"

lemma awaits_keeps:
  assumes "net_keeps net net'" and "awaits net co" and "co_ok (length (nt_cells net)) co"
  shows "awaits net' co"
  using assms by (auto simp: awaits_def net_keeps_def keeps_queued_def co_ok_def)

lemma awaits_same: "same_wait co co0 \<Longrightarrow> awaits net co = awaits net co0"
  by (simp add: same_wait_def awaits_def)

lemma client_ok_co:
  "client_ok share (net, fs) \<Longrightarrow> f \<in> set fs \<Longrightarrow> co \<in> set (future_checkouts f) \<Longrightarrow> co_ok (length (nt_cells net)) co"
  by (auto simp: client_ok_def good_def winv_def)

text \<open>A step whose futures keep their checkouts, and whose pool keeps the queues.\<close>

lemma queues_kept_step:
  assumes "queues_kept (net, fs)" and "client_ok share (net, fs)" and "net_keeps net net'"
    and "\<And>f co. f \<in> set fs' \<Longrightarrow> co \<in> set (future_checkouts f) \<Longrightarrow>
      \<exists>f0 \<in> set fs. \<exists>co0 \<in> set (future_checkouts f0). same_wait co co0"
  shows "queues_kept (net', fs')"
  unfolding queues_kept_def
proof (intro ballI)
  fix f co
  assume "f \<in> set (snd (net', fs'))" "co \<in> set (future_checkouts f)"
  with assms(4) [of f co] obtain f0 co0 where f0: "f0 \<in> set fs" "co0 \<in> set (future_checkouts f0)" "same_wait co co0" by auto
  with assms(1) have "awaits net co0" by (auto simp: queues_kept_def)
  from awaits_keeps [OF assms(3) this client_ok_co [OF assms(2) f0(1,2)]] awaits_same [OF f0(3), of net']
  show "awaits (fst (net', fs')) co" by simp
qed

lemma push_waiter_queued:
  "waiting (push_waiter key n i) k = (if k = key
     then Some ((case waiting i key of None \<Rightarrow> [] | Some ws \<Rightarrow> ws) @ [n]) else waiting i k)"
  by (simp add: push_waiter_def)

lemma pool_checkout_queues:
  assumes "pool_checkout ops now 0 ch key multiplex f i = (i', co, kept)" and "heap 0 = Some i"
  shows "queued_for heap n k \<Longrightarrow> queued_for (heap(0 \<mapsto> i')) n k"
    and "kept \<Longrightarrow> queued_for (heap(0 \<mapsto> i')) ch key"
    and "rx_channel (ck_waiter co) = Some ch" and "ck_key co = key"
proof -
  obtain i1 popped where pop: "pop ops now key i = (i1, popped)" by fastforce
  from pop_frame [OF pop] have w: "waiting i1 = waiting i" by simp
  have "(queued_for heap n k \<longrightarrow> queued_for (heap(0 \<mapsto> i')) n k) \<and> (kept \<longrightarrow> queued_for (heap(0 \<mapsto> i')) ch key) \<and>
    rx_channel (ck_waiter co) = Some ch \<and> ck_key co = key"
    using assms pop w
    by (auto simp: pool_checkout_def queued_for_def push_waiter_queued checkout_new_def Let_def
        split: option.splits if_splits)
  then show "queued_for heap n k \<Longrightarrow> queued_for (heap(0 \<mapsto> i')) n k" "kept \<Longrightarrow> queued_for (heap(0 \<mapsto> i')) ch key"
    "rx_channel (ck_waiter co) = Some ch" "ck_key co = key" by auto
qed

lemma client_call_queues:
  fixes f :: "('c, ('t, 'p, 'cf) connector, 'st, 'b, 'sf, 'x) response_future"
  assumes "client_call ops now into svc request net = Return (f, net')" and "cs_pool svc \<in> {None, Some 0}"
  shows "net_keeps net net'" and "\<And>co. co \<in> set (future_checkouts f) \<Longrightarrow> awaits net' co"
proof -
  let ?pool = "Option.bind (cs_pool svc) (\<lambda>a. map_option (Pair a) (nt_heap net a))"
  from assms(1) obtain proto where proto: "proto_from_version (rq_version request) = Return proto"
    by (cases "proto_from_version (rq_version request)") (simp_all add: client_call_def)
  note call = assms(1) [unfolded client_call_def proto run_bind.simps Let_def, simplified]
  have "net_keeps net net' \<and> (\<forall>co \<in> set (future_checkouts f). awaits net' co)"
  proof (cases "key_try_from (rq_uri request)")
    case (Inl e)
    with call show ?thesis by (auto simp: client_connect_to_def)
  next
    case (Inr key)
    show ?thesis
    proof (cases ?pool)
      case None
      with call Inr show ?thesis
        by (auto simp: client_connect_to_def awaits_def checkout_detached_def split: option.splits)
    next
      case (Some ai)
      with assms(2) obtain i where i: "cs_pool svc = Some 0" "nt_heap net 0 = Some i" "ai = (0, i)"
        by (auto simp: bind_eq_Some_conv)
      let ?connector = "client_connector svc (rq_uri request) proto :: ('t, 'p, 'cf) connector"
      obtain i' co kept where pc: "pool_checkout ops now 0 (length (nt_cells net)) key (proto_multiplex proto) ?connector i
          = (i', co :: ('c, 't, 'p, 'cf, 'st) client_checkout, kept)" using prod_cases3 by blast
      from call Inr Some i pc have f: "f = RF_Checkout co (request_map into request)"
          "net' = net\<lparr>nt_heap := (nt_heap net)(0 \<mapsto> i'), nt_cells := nt_cells net @ [if kept then Empty else TxDropped]\<rparr>"
        by (auto simp: client_connect_to_def)
      note q = pool_checkout_queues [where heap = "nt_heap net", OF pc i(2)]
      from q(1) have "net_keeps net net'" by (simp add: net_keeps_def keeps_queued_def f nth_append)
      moreover from q(2-4) have "awaits net' co" by (auto simp: awaits_def f)
      ultimately show ?thesis by (simp add: f)
    qed
  qed
  then show "net_keeps net net'" and "\<And>co. co \<in> set (future_checkouts f) \<Longrightarrow> awaits net' co" by auto
qed

lemma queues_kept_call:
  assumes "queues_kept (net, fs)" and "client_ok share (net, fs)"
    and "client_call ops now into svc request net = Return (f, net')" and "cs_pool svc \<in> {None, Some 0}"
  shows "queues_kept (net', fs @ [f])"
proof -
  note c = client_call_queues [OF assms(3,4)]
  have "queues_kept (net', fs)"
    by (rule queues_kept_step [OF assms(1,2) c(1)]) (auto simp: same_wait_def)
  with c(2) show ?thesis by (auto simp: queues_kept_def)
qed

lemma client_step_queues:
  assumes "client_step share vias into w w'" and "client_ok share w" and "queues_kept w"
  shows "queues_kept w'"
  using assms
proof (cases rule: client_step.cases)
  case (call ops svc now request net f net' fs)
  with queues_kept_call [of net fs share ops now id svc request f net'] assms(2,3) show ?thesis by simp
next
  case (poll ops via j fs hs net checked tshare now tr r f net')
  let ?cos = "concat (map future_checkouts (remove_at j fs))"
    and ?held = "concat (map future_held (remove_at j fs)) @ nt_tasks net"
  from client_ok_at [OF assms(2) [unfolded poll(1)] poll(6)]
  have g: "good share (view net (future_checkouts (fs ! j) @ ?cos) (future_held (fs ! j) @ ?held))" by simp
  have fresh: "share c \<or> c \<notin># world_conns (view net (future_checkouts (fs ! j) @ ?cos) (future_held (fs ! j) @ ?held))"
    if "hs t = Ready (Inr c)" for t c
    using poll(7) [OF that] world_perm [OF mset_concat_at [OF poll(6), of future_checkouts],
        of "concat (map future_held fs) @ nt_tasks net" "future_held (fs ! j) @ ?held"]
      mset_concat_at [OF poll(6), of future_held] by (simp add: client_conns_world)
  have k1: "net_keeps net net'"
    by (rule response_poll_keeps(1) [OF g poll(3,4) _ poll(8)]) (rule fresh)
  have k2: "co \<in> set (future_checkouts f) \<Longrightarrow> \<exists>co0 \<in> set (future_checkouts (fs ! j)). same_wait co co0" for co
    by (rule response_poll_keeps(2) [OF g poll(3,4) _ poll(8)]) (rule fresh)
  have "\<exists>f0 \<in> set fs. \<exists>co0 \<in> set (future_checkouts f0). same_wait co co0"
    if "h \<in> set (fs[j := f])" "co \<in> set (future_checkouts h)" for h co
  proof (cases "h = f")
    case True
    with that(2) obtain co0 where "co0 \<in> set (future_checkouts (fs ! j))" "same_wait co co0" using k2 by blast
    with poll(6) show ?thesis using nth_mem [of j fs] by blast
  next
    case False
    with that(1) set_update_subset_insert [of fs j f] have "h \<in> set fs" by blast
    moreover have "same_wait co co" by (simp add: same_wait_def)
    ultimately show ?thesis using that(2) by blast
  qed
  then show ?thesis
    unfolding poll(2)
    by (rule queues_kept_step [OF assms(3) [unfolded poll(1)] assms(2) [unfolded poll(1)] k1])
next
  case (cancel ops j fs net now)
  note at = client_ok_at [OF assms(2) [unfolded cancel(1)] cancel(5)]
  show ?thesis
    unfolding cancel(2)
  proof (rule queues_kept_step [OF assms(3) [unfolded cancel(1)] assms(2) [unfolded cancel(1)] response_drop_keeps [OF at]])
    fix f co
    assume "f \<in> set (remove_at j fs)" "co \<in> set (future_checkouts f)"
    then show "\<exists>f0 \<in> set fs. \<exists>co0 \<in> set (future_checkouts f0). same_wait co co0"
      using set_remove_at [of j fs] by (auto simp: same_wait_def)
  qed
next
  case (task ops via j net fs now)
  from assms(2) task(1,6) have "refers 0 (p_pool (nt_tasks net ! j))"
    by (auto simp: client_ok_def good_def winv_def)
  note k = ready_task_keeps [OF this, of ops via now]
  show ?thesis
    unfolding task(2)
    by (rule queues_kept_step [OF assms(3) [unfolded task(1)] assms(2) [unfolded task(1)] k]) (auto simp: same_wait_def)
next
  case (drop_pool net fs)
  have "tx_drop c \<noteq> Empty" for c :: "(key, 'a) pooled cell" by (cases c) auto
  then have "net_keeps net (net\<lparr>nt_heap := (nt_heap net)(0 := None), nt_cells := map tx_drop (nt_cells net)\<rparr>)"
    by (simp add: net_keeps_def keeps_queued_def)
  from queues_kept_step [OF assms(3) [unfolded drop_pool(1)] assms(2) [unfolded drop_pool(1)] this, of fs]
  show ?thesis unfolding drop_pool(2) by (auto simp: same_wait_def)
qed

lemma reachable_queues:
  "(client_step share vias into)\<^sup>*\<^sup>* (client_init conf) w \<Longrightarrow> queues_kept w"
proof (induction rule: rtranclp_induct)
  case base
  show ?case by (simp add: queues_kept_def client_init_def)
next
  case (step w w')
  from client_step_queues [OF step(2) client_reachable_ok [OF step(1)] step(3)] show ?case .
qed

section \<open>What a pending poll has asked\<close>

definition connector_pending ::
  "('e + 'st) poll \<Rightarrow> ('st \<Rightarrow> ('e + 'c) poll) \<Rightarrow> ('k, 'c, 'f, 'st) checkout \<Rightarrow> bool" where
  "connector_pending tr hs co =
     (case ck_inner co of
        Inner_Connecting _ \<Rightarrow> tr = Pending
      | Inner_Handshaking t \<Rightarrow> hs t = Pending
      | _ \<Rightarrow> False)"

text \<open>
  A request is registered when its send is pending, or its checkout's channel or connector is;
  an unused channel has its sender in the queue of its key.
\<close>

definition request_registered ::
  "('c, 'b, 'sf, 'r, 'h) connection_ops \<Rightarrow> ('x conn_error + 'st) poll \<Rightarrow> ('st \<Rightarrow> ('x conn_error + 'c) poll) \<Rightarrow> 'c client_net
     \<Rightarrow> ('c, 'f, 'st, 'b, 'sf, 'x) response_future \<Rightarrow> bool" where
  "request_registered via tr hs net f =
     (case f of
        RF_Checkout co _ \<Rightarrow> awaits net co \<and>
          ((\<exists>n. ck_waiter co = Waiting_Connecting n \<and> nt_cells net ! n = Empty) \<or> connector_pending tr hs co)
      | RF_Request (Exec_Sending fut _) \<Rightarrow> (\<exists>fut0. c_fpoll via fut0 = (Pending, fut))
      | _ \<Rightarrow> False)"

lemma poll_connect_pending:
  assumes "poll_connect ops tshare closed now inp heap co = (heap', sends, co', Pending)"
  shows "connector_pending (in_transport inp) (in_handshake inp) co'"
proof (cases "ck_inner co")
  case (Inner_Connecting f)
  with assms show ?thesis
    by (auto simp: poll_connect_def poll_handshaking_def connector_pending_def Let_def
        split: poll.splits sum.splits prod.splits)
next
  case (Inner_Handshaking t)
  with assms show ?thesis
    by (auto simp: poll_connect_def poll_handshaking_def connector_pending_def split: poll.splits sum.splits prod.splits)
qed (use assms in \<open>auto simp: poll_connect_def Let_def split: option.splits prod.splits\<close>)

lemma do_poll_pending:
  assumes "do_poll ops tshare now tr hs 0 (view net [co] []) = (w', Pending)"
    and "co_ok (length (nt_cells net)) co"
  obtains co' where "w_checkouts w' = [co']" and "ck_key co' = ck_key co"
    and "(\<exists>n. ck_waiter co' = Waiting_Connecting n \<and> w_cells w' ! n = Empty) \<or> connector_pending tr hs co'"
proof -
  obtain rx cells where rx: "(case rx_channel (ck_waiter co) of None \<Rightarrow> (Panicked, nt_cells net)
      | Some n \<Rightarrow> (let (r, c) = rx_poll (nt_cells net ! n) in (r, (nt_cells net)[n := c]))) = (rx, cells)"
    by fastforce
  let ?inp = "\<lparr>in_rx = rx, in_transport = tr, in_handshake = hs\<rparr>"
  obtain heap1 sends co1 r where cp: "checkout_poll ops tshare (rx_closed cells) now ?inp (nt_heap net) co = (heap1, sends, co1, r)"
    using prod_cases4 by blast
  obtain heap2 cells2 where ec: "end_checkout ops now co1 heap1 (deliver sends cells) = (heap2, cells2)" by fastforce
  have r: "r = Pending" and w': "w_checkouts w' = [co1]" "w_cells w' = deliver sends cells"
    using assms(1) [unfolded do_poll_def view_simps nth_Cons_0] rx cp ec by (auto simp: Let_def split: poll.splits)
  note fr = poll_checkout_frame [OF cp]
  have "(\<exists>n. ck_waiter co1 = Waiting_Connecting n \<and> w_cells w' ! n = Empty) \<or> connector_pending tr hs co1"
  proof (cases "poll_waiter rx (ck_waiter co)")
    case Pending
    then obtain n where n: "ck_waiter co = Waiting_Connecting n" "rx = Pending"
      by (cases "ck_waiter co") (auto split: poll.splits sum.splits)
    with rx have "cells ! n = Empty \<and> n < length cells"
      using assms(2) by (cases "nt_cells net ! n") (auto simp: co_ok_def split: prod.splits)
    moreover have "sends = [] \<and> co1 = co" using cp Pending by (simp add: checkout_poll_def)
    ultimately show ?thesis using n(1) w'(2) by simp
  next
    case (Ready a)
    with cp r poll_connect_pending [of ops tshare "rx_closed cells" now ?inp "nt_heap net" co heap1 sends co1]
    show ?thesis by (cases a) (auto simp: checkout_poll_def)
  next
    case Panicked
    with cp r show ?thesis by (simp add: checkout_poll_def)
  qed
  with that w' fr show thesis by blast
qed

lemma exec_pending:
  assumes "exec_poll checked ops via into now e net = (Pending, e', net')"
  shows "\<exists>fut fut0 conn. e' = Exec_Sending fut conn \<and> c_fpoll via fut0 = (Pending, fut)"
  using assms
  by (cases e) (auto simp: exec_sending_poll_def split: option.splits run.splits sum.splits poll.splits prod.splits)

lemma request_pending:
  assumes "response_request_poll checked ops via into now e net =
    ((Pending :: (('x, 'h) client_error + 'b body response) poll), g, net')"
  shows "request_registered via tr hs net' g"
proof -
  from assms obtain e' where e: "exec_poll checked ops via into now e net =
      ((Pending :: (('x, 'h) client_error + 'b body response) poll), e', net')" and g: "g = RF_Request e'"
    by (auto simp: response_request_poll_def split: prod.splits poll.splits)
  from exec_pending [OF e] g show ?thesis by (auto simp: request_registered_def)
qed

lemma response_pending:
  assumes "response_poll checked ops via into tshare now tr hs f net = (Pending, g, net')"
    and "\<And>co. co \<in> set (future_checkouts f) \<Longrightarrow> co_ok (length (nt_cells net)) co"
    and "\<And>co. co \<in> set (future_checkouts g) \<Longrightarrow> awaits net' co"
  shows "request_registered via tr hs net' g"
proof (cases f)
  case (RF_Request e)
  with assms(1) request_pending show ?thesis by fastforce
next
  case (RF_Checkout co req)
  obtain w' res where dp: "do_poll ops tshare now tr hs 0 (view net [co] []) = (w', res)" by fastforce
  let ?net = "net\<lparr>nt_heap := w_heap w', nt_cells := w_cells w'\<rparr>"
  show ?thesis
  proof (cases res)
    case Pending
    from dp Pending have dp': "do_poll ops tshare now tr hs 0 (view net [co] []) = (w', Pending)" by simp
    obtain co' where "w_checkouts w' = [co']"
      and "(\<exists>n. ck_waiter co' = Waiting_Connecting n \<and> w_cells w' ! n = Empty) \<or> connector_pending tr hs co'"
      by (rule do_poll_pending [OF dp']) (use assms(2) RF_Checkout in auto)
    with assms(1,3) RF_Checkout dp Pending show ?thesis
      by (auto simp: view_def request_registered_def Let_def)
  next
    case (Ready a)
    with assms(1) RF_Checkout dp request_pending show ?thesis
      by (cases a) (fastforce simp: view_def Let_def)+
  next
    case Panicked
    with assms(1) RF_Checkout dp show ?thesis by (simp add: view_def Let_def)
  qed
qed (use assms(1) in auto)

section \<open>The server\<close>

text \<open>A server is registered with the source its state waits for: that source was pending.\<close>

definition server_registered ::
  "('a, 'p, 'm, 's, 'f, 'svc, 'conn, 'e) server_ops \<Rightarrow> ('a, 'p, 'm, 's, 'f) serving \<Rightarrow> bool" where
  "server_registered ops me =
     (case sv_state me of
        Preparing \<Rightarrow> \<exists>m. s_ready (so_make ops) m = (Pending, sr_make_service (sv_server me))
      | Accepting \<Rightarrow> \<exists>a. so_accept ops a = (Pending, sr_acceptor (sv_server me))
      | Making future _ \<Rightarrow> \<exists>f. s_fpoll (so_make ops) f = (Pending, future))"

lemma poll_once_pending: "poll_once ops me = (Pending, me') \<Longrightarrow> server_registered ops me'"
  by (cases "sv_state me")
    (auto simp: poll_once_def server_registered_def Let_def split: prod.splits poll.splits sum.splits)

lemmas serving_poll_induct [consumes 1, case_names step] = serving_poll.raw_induct [rotated]

section \<open>Properties\<close>

text \<open>C7: a request that is pending is registered. In every state the client reaches, when
  \<open>ResponseFuture::poll\<close> answers \<open>Pending\<close>, the send of the request is pending, or its own
  connector is, or it waits for another request's connection; and while its checkout's channel
  is unused, the sender of that channel is in the pool's queue of the request's key, where the
  next \<open>PoolInner::push\<close> finds it.\<close>

theorem request_pending_registered:
  assumes "(client_step share vias into)\<^sup>*\<^sup>* (client_init conf) (net, fs)"
    and "poolable_connection ops" and "can_share ops = share" and "via \<in> vias" and "j < length fs"
    and "\<And>t c. hs t = Ready (Inr c) \<Longrightarrow> share c \<or> c \<notin># client_conns (net, fs)"
    and "response_poll checked ops via into tshare now tr hs (fs ! j) net = (Pending, f', net')"
  shows "request_registered via tr hs net' f'"
proof (rule response_pending [OF assms(7)])
  show "co_ok (length (nt_cells net)) co" if "co \<in> set (future_checkouts (fs ! j))" for co
    using client_ok_co [OF client_reachable_ok [OF assms(1)]] that assms(5) nth_mem by blast
  have "client_step share vias into (net, fs) (net', fs[j := f'])"
    by (rule client_step.poll [OF assms(2-5) assms(6,7)])
  with assms(1) have "queues_kept (net', fs[j := f'])"
    by (intro reachable_queues [of share vias into conf]) (rule rtranclp.rtrancl_into_rtrancl)
  moreover have "f' \<in> set (fs[j := f'])" using assms(5) by (simp add: set_update_memI)
  ultimately show "awaits net' co" if "co \<in> set (future_checkouts f')" for co
    using that by (auto simp: queues_kept_def)
qed

theorem request_pending_registered_witness:
  "case response_poll True exclusive_ops example_via id (\<lambda>_. False) 2 Pending (\<lambda>_. Pending)
      (hd (snd example_called)) (fst example_called) of
    (r, f, net) \<Rightarrow> (r :: ((unit, unit) client_error + unit body response) poll) = Pending \<and>
      request_registered example_via Pending (\<lambda>_. Pending) net f"
proof -
  obtain f net where called: "example_called = (net, [f])"
    and a: "client_step (\<lambda>_. False) {example_via} id (client_init config_default) (net, [f])"
    by (rule example_step)
  obtain r g net' where p: "response_poll True exclusive_ops example_via id (\<lambda>_. False) 2
       Pending (\<lambda>_. Pending) f net = (r :: ((unit, unit) client_error + unit body response) poll, g, net')"
    using prod_cases3 by blast
  from a have a': "(client_step (\<lambda>_. False) {example_via} id)\<^sup>*\<^sup>* (client_init config_default) (net, [f])"
    by (rule r_into_rtranclp)
  have "f = hd (snd example_called)" "net = fst example_called" by (simp_all add: called)
  with p have r: "r = Pending"
    by (simp add: example_called_def client_call_def example_request_def example_service_def example_net_def
      client_connect_to_def key_try_from_def world_simps config_default_def client_connector_def)
  have "request_registered example_via (Pending :: (unit conn_error + unit) poll) (\<lambda>_. Pending) net' g"
    by (rule request_pending_registered [OF a' exclusive_ops_lawful,
        where via = example_via and j = 0 and checked = True and tshare = "\<lambda>_. False" and now = 2])
      (use p r in simp_all)
  with p r show ?thesis by (simp add: called)
qed

text \<open>The same for the server without graceful shutdown.\<close>

lemma serving_pending_registered:
  assumes "serving_poll ops me spawned = Some (Pending, me', spawned')"
  shows "server_registered ops me'"
proof -
  have "fst y = Pending \<longrightarrow> server_registered ops (fst (snd y))" if "serving_poll ops me spawned = Some y" for y
    using that
  proof (induction rule: serving_poll_induct)
    case (step poll ops me spawned y)
    obtain r me1 where once: "poll_once ops me = (r, me1)" by fastforce
    with step.hyps step.IH poll_once_pending [of ops me me1] show ?case
      by (cases r) (auto split: sum.splits option.splits)
  qed
  from this [OF assms] show ?thesis by simp
qed

lemma graceful_once_pending:
  "graceful_once ops signal_poll g net = Inl (Pending, g', net') \<Longrightarrow>
     server_registered ops (gs_server g') \<and> (\<exists>sg. signal_poll sg = (Pending, gs_signal g'))"
  using poll_once_pending [of ops "gs_server g"]
  by (auto simp: graceful_once_def Let_def split: prod.splits poll.splits sum.splits option.splits)

text \<open>C29: a server that is pending is registered: the graceful server answers \<open>Pending\<close> only
  when, in this very poll, its shutdown signal has answered \<open>Pending\<close> and so has what its state
  waits for, the maker, the acceptor or the future of a service; it keeps what that poll left
  of them.\<close>

theorem server_pending_registered:
  assumes "graceful_poll ops signal_poll g net = Some (Pending, g', net')"
  shows "server_registered ops (gs_server g') \<and> (\<exists>sg. signal_poll sg = (Pending, gs_signal g'))"
proof -
  have "fst y = Pending \<longrightarrow> server_registered ops (gs_server (fst (snd y))) \<and>
      (\<exists>sg. signal_poll sg = (Pending, gs_signal (fst (snd y))))"
    if "graceful_poll ops signal_poll g net = Some y" for y
    using that
  proof (induction rule: graceful_poll_induct)
    case (step poll ops signal_poll g net y)
    show ?case
    proof (cases "graceful_once ops signal_poll g net")
      case (Inl res)
      with step.hyps graceful_once_pending [of ops signal_poll g net] show ?thesis by (cases res) auto
    next
      case (Inr again)
      with step.hyps step.IH show ?thesis by (cases again) auto
    qed
  qed
  from this [OF assms] show ?thesis by simp
qed

definition idle_server_ops :: "(nat, unit, unit, nat, (unit + nat) option, nat, nat, unit) server_ops" where
  "idle_server_ops = \<lparr>so_accept = (\<lambda>a. (Pending, Suc a)), so_make = ready_maker id, so_serve = (\<lambda>_ s _. s)\<rparr>"

definition idle_server :: "(nat, unit, unit, nat, (unit + nat) option, nat) graceful \<times> nat close_net" where
  "idle_server = graceful_new (server_new 0 () ()) 0"

theorem server_pending_registered_witness:
  "case graceful_poll idle_server_ops (\<lambda>n. (Pending, Suc n)) (fst idle_server) (snd idle_server) of
    Some (r, g', net') \<Rightarrow> r = Pending \<and> server_registered idle_server_ops (gs_server g') \<and> gs_signal g' = 2
  | None \<Rightarrow> False"
proof -
  obtain g' net' where
    p: "graceful_poll idle_server_ops (\<lambda>n. (Pending, Suc n)) (fst idle_server) (snd idle_server) = Some (Pending, g', net')"
    and g': "gs_signal g' = 2"
    by (simp add: graceful_poll.simps graceful_once_def poll_once_def graceful_new_def server_new_def close_def
        server_into_future_def idle_server_ops_def ready_maker_def make_service_ref_def make_service_fn_def
        close_poll_def Let_def idle_server_def)
  from server_pending_registered [OF p] p g' show ?thesis by simp
qed

end
