(* ===== verification/Pidfile.thy ===== *)
theory Pidfile
  imports Prelude
begin

text \<open>
  PID lock files (pidfile.rs): a file that holds the PID of the process that owns a resource.
  The file system is a map from paths to contents; what the operating system refuses, the
  process table and \<open>getpid\<close> are the record \<open>host\<close>. A check and the creation that follows it are
  separate operations, so that two processes can be interleaved.
\<close>

section \<open>The host\<close>

type_synonym files = "string \<rightharpoonup> string"

text \<open>\<open>os_kill p\<close> is the answer of \<open>kill(p, 0)\<close>, \<open>os_kind\<close> is \<open>Error::from_raw_os_error\<close>.\<close>

record host =
  os_pid :: int
  os_kill :: "int \<Rightarrow> int"
  os_kind :: "int \<Rightarrow> io_kind"
  os_read_refused :: "string \<Rightarrow> io_kind option"
  os_write_refused :: "string \<Rightarrow> io_kind option"
  os_remove_refused :: "string \<Rightarrow> io_kind option"

definition read_to_string :: "host \<Rightarrow> files \<Rightarrow> string \<Rightarrow> io_kind + string" where
  "read_to_string os fs path =
     (case os_read_refused os path of
        Some e \<Rightarrow> Inl e
      | None \<Rightarrow> ok_or NotFound (fs path))"

definition write_file :: "host \<Rightarrow> files \<Rightarrow> string \<Rightarrow> string \<Rightarrow> (io_kind + unit) \<times> files" where
  "write_file os fs path text =
     (case os_write_refused os path of
        Some e \<Rightarrow> (Inl e, fs)
      | None \<Rightarrow> (Inr (), fs(path \<mapsto> text)))"

definition remove_file :: "host \<Rightarrow> files \<Rightarrow> string \<Rightarrow> (io_kind + unit) \<times> files" where
  "remove_file os fs path =
     (case os_remove_refused os path of
        Some e \<Rightarrow> (Inl e, fs)
      | None \<Rightarrow> (case fs path of None \<Rightarrow> (Inl NotFound, fs) | Some _ \<Rightarrow> (Inr (), fs(path := None))))"

section \<open>PIDs as text\<close>

text \<open>
  \<open>str::trim\<close> on ASCII text, \<open>str::parse::<i32>\<close> and the decimal form of an \<open>i32\<close>.
\<close>

definition is_whitespace :: "char \<Rightarrow> bool" where
  "is_whitespace c = (let n = of_char c :: nat in (9 \<le> n \<and> n \<le> 13) \<or> n = 32)"

definition trim :: "string \<Rightarrow> string" where
  "trim s = rev (dropWhile is_whitespace (rev (dropWhile is_whitespace s)))"

definition i32_of :: "int \<Rightarrow> int option" where
  "i32_of n = (if - (2 ^ 31) \<le> n \<and> n < 2 ^ 31 then Some n else None)"

fun parse_i32 :: "string \<Rightarrow> int option" where
  "parse_i32 [] = None"
| "parse_i32 (c # cs) =
     (if c = CHR ''-'' then Option.bind (read_nat cs) (\<lambda>n. i32_of (- int n))
      else if c = CHR ''+'' then Option.bind (read_nat cs) (\<lambda>n. i32_of (int n))
      else Option.bind (read_nat (c # cs)) (\<lambda>n. i32_of (int n)))"

definition int_text :: "int \<Rightarrow> string" where
  "int_text n = (if n < 0 then CHR ''-'' # decimal (nat (- n)) else decimal (nat n))"

lemma digit_not_space: "digit_value c \<noteq> None \<Longrightarrow> \<not> is_whitespace c \<and> c \<noteq> CHR ''-'' \<and> c \<noteq> CHR ''+''"
  by (auto simp: digit_value_def is_whitespace_def Let_def split: if_splits)

lemma dropWhile_none: "\<forall>c \<in> set s. \<not> P c \<Longrightarrow> dropWhile P s = s"
  by (cases s) auto

lemma trim_digits: "\<forall>c \<in> set s. \<not> is_whitespace c \<Longrightarrow> trim s = s"
  by (simp add: trim_def dropWhile_none)

lemma parse_digits: "s \<noteq> [] \<Longrightarrow> \<forall>c \<in> set s. digit_value c \<noteq> None \<Longrightarrow> parse_i32 s = Option.bind (read_nat s) (\<lambda>n. i32_of (int n))"
  using digit_not_space by (cases s) auto

lemma parse_int_text:
  assumes "- (2 ^ 31) \<le> n" and "n < 2 ^ 31"
  shows "parse_i32 (trim (int_text n)) = Some n"
proof -
  have space: "\<forall>c \<in> set (int_text n). \<not> is_whitespace c"
    using decimal_digits digit_not_space by (auto simp: int_text_def is_whitespace_def)
  have "\<forall>c \<in> set (decimal k). digit_value c \<noteq> None" for k using decimal_digits by blast
  then have pos: "parse_i32 (decimal k) = i32_of (int k)" for k by (simp add: parse_digits)
  show ?thesis unfolding trim_digits [OF space] using assms
    by (auto simp: int_text_def pos i32_of_def)
qed

section \<open>PID files\<close>

record pid_file =
  pf_path :: string

definition pid_file_in_use :: "host \<Rightarrow> files \<Rightarrow> string \<Rightarrow> io_kind + bool" where
  "pid_file_in_use os fs path =
     (case read_to_string os fs path of
        Inr info \<Rightarrow>
          result_bind (ok_or InvalidData (parse_i32 (trim info))) (\<lambda>pid.
            let errno = os_kill os pid in
            if errno = 0 then Inr True
            else if errno = - 1 then Inr False
            else case os_kind os errno of
                NotFound \<Rightarrow> Inr False
              | k \<Rightarrow> Inl k)
      | Inl error \<Rightarrow>
          (case error of
             NotFound \<Rightarrow> Inr False
           | k \<Rightarrow> Inl k))"

text \<open>\<open>PidFile::new\<close> up to the creation, and the creation; \<open>Path::exists\<close> follows the map.\<close>

definition pid_file_check :: "host \<Rightarrow> files \<Rightarrow> string \<Rightarrow> (io_kind + unit) \<times> files" where
  "pid_file_check os fs path =
     (if fs path \<noteq> None
      then (case pid_file_in_use os fs path of
              Inr True \<Rightarrow> (Inl AddrInUse, fs)
            | Inr False \<Rightarrow> (Inr (), snd (remove_file os fs path))
            | Inl InvalidData \<Rightarrow> (Inr (), snd (remove_file os fs path))
            | Inl error \<Rightarrow> (Inl error, fs))
      else (Inr (), fs))"

definition pid_file_create :: "host \<Rightarrow> files \<Rightarrow> string \<Rightarrow> (io_kind + pid_file) \<times> files" where
  "pid_file_create os fs path =
     (let pid = os_pid os in
      if pid \<le> 0 then (Inl OtherKind, fs)
      else (case write_file os fs path (int_text pid) of
              (Inl e, fs') \<Rightarrow> (Inl e, fs')
            | (Inr _, fs') \<Rightarrow> (Inr \<lparr>pf_path = path\<rparr>, fs')))"

definition pid_file_new :: "host \<Rightarrow> files \<Rightarrow> string \<Rightarrow> (io_kind + pid_file) \<times> files" where
  "pid_file_new os fs path =
     (case pid_file_check os fs path of
        (Inl e, fs') \<Rightarrow> (Inl e, fs')
      | (Inr _, fs') \<Rightarrow> pid_file_create os fs' path)"

definition pid_file_is_locked :: "host \<Rightarrow> files \<Rightarrow> string \<Rightarrow> io_kind + bool" where
  "pid_file_is_locked os fs path =
     (case pid_file_in_use os fs path of
        Inr True \<Rightarrow> Inr True
      | Inr False \<Rightarrow> Inr False
      | Inl InvalidData \<Rightarrow> Inr False
      | Inl error \<Rightarrow> Inl error)"

definition pid_file_drop :: "host \<Rightarrow> files \<Rightarrow> pid_file \<Rightarrow> files" where
  "pid_file_drop os fs f = snd (remove_file os fs (pf_path f))"

section \<open>Locking\<close>

text \<open>A process that is alive, readable and named by the file.\<close>

definition names_live :: "host \<Rightarrow> files \<Rightarrow> string \<Rightarrow> int \<Rightarrow> bool" where
  "names_live os fs path pid \<longleftrightarrow> fs path = Some (int_text pid) \<and> - (2 ^ 31) \<le> pid \<and> pid < 2 ^ 31 \<and>
     os_kill os pid = 0 \<and> os_read_refused os path = None"

lemma names_live_in_use: "names_live os fs path pid \<Longrightarrow> pid_file_in_use os fs path = Inr True"
  by (simp add: names_live_def pid_file_in_use_def read_to_string_def parse_int_text)

lemma pid_file_new_created:
  assumes "pid_file_new os fs path = (Inr f, fs')"
  shows "f = \<lparr>pf_path = path\<rparr>" and "fs' path = Some (int_text (os_pid os))" and "0 < os_pid os"
    and "q \<noteq> path \<Longrightarrow> fs' q = fs q"
proof -
  have "(f = \<lparr>pf_path = path\<rparr> \<and> fs' path = Some (int_text (os_pid os)) \<and> 0 < os_pid os) \<and> (q \<noteq> path \<longrightarrow> fs' q = fs q)"
    using assms by (auto simp: pid_file_new_def pid_file_check_def pid_file_create_def write_file_def remove_file_def Let_def
      split: prod.splits sum.splits if_splits option.splits bool.splits io_kind.splits)
  then show "f = \<lparr>pf_path = path\<rparr>" and "fs' path = Some (int_text (os_pid os))" and "0 < os_pid os"
    and "q \<noteq> path \<Longrightarrow> fs' q = fs q" by auto
qed


definition example_host :: "int \<Rightarrow> host" where
  "example_host pid = \<lparr>os_pid = pid, os_kill = (\<lambda>p. if p = 7 \<or> p = 8 then 0 else - 1), os_kind = (\<lambda>_. OtherKind),
     os_read_refused = (\<lambda>_. None), os_write_refused = (\<lambda>_. None), os_remove_refused = (\<lambda>_. None)\<rparr>"

lemma example_new: "pid_file_new (example_host 7) [''a'' \<mapsto> ''x''] ''a'' = (Inr \<lparr>pf_path = ''a''\<rparr>, [''a'' \<mapsto> int_text 7])"
  by (simp add: pid_file_new_def pid_file_check_def pid_file_create_def example_host_def pid_file_in_use_def
    read_to_string_def trim_def is_whitespace_def read_nat_def digit_value_def remove_file_def write_file_def)


text \<open>The check and the creation are not one operation: two live processes that both check
  a free or stale path before either creates the file both obtain the lock, and the first to
  drop it removes the file of the other.\<close>

theorem pid_lock_race:
  assumes "pid_file_check p fs path = (Inr (), fs1)" and "pid_file_check q fs1 path = (Inr (), fs2)"
    and "0 < os_pid p" and "0 < os_pid q" and "os_write_refused p path = None" and "os_write_refused q path = None"
    and "os_remove_refused p path = None" and "os_read_refused q path = None"
  shows "\<exists>fs3 fs4. pid_file_create p fs2 path = (Inr \<lparr>pf_path = path\<rparr>, fs3) \<and>
    pid_file_create q fs3 path = (Inr \<lparr>pf_path = path\<rparr>, fs4) \<and>
    pid_file_is_locked q (pid_file_drop p fs4 \<lparr>pf_path = path\<rparr>) path = Inr False"
  using assms by (simp add: pid_file_create_def write_file_def pid_file_drop_def remove_file_def pid_file_is_locked_def
    pid_file_in_use_def read_to_string_def)

theorem pid_lock_race_witness:
  "\<exists>fs3 fs4. pid_file_create (example_host 7) Map.empty ''a'' = (Inr \<lparr>pf_path = ''a''\<rparr>, fs3) \<and>
    pid_file_create (example_host 8) fs3 ''a'' = (Inr \<lparr>pf_path = ''a''\<rparr>, fs4) \<and>
    pid_file_is_locked (example_host 8) (pid_file_drop (example_host 7) fs4 \<lparr>pf_path = ''a''\<rparr>) ''a'' = Inr False"
  using pid_lock_race [of "example_host 7" Map.empty "''a''" Map.empty "example_host 8" Map.empty]
  by (simp add: example_host_def pid_file_check_def)

end
