(* ===== verification/Discovery.thy ===== *)
theory Discovery
  imports Duplex Pidfile
begin

text \<open>
  Service discovery (discovery/mod.rs): a registry that maps the names of services to handles,
  in memory or on Unix sockets guarded by PID files; binding, and connecting with and without
  a timeout. The registry's \<open>DashMap\<close> locks the shard of a name, which the model keeps: a
  connection that is being made holds a read guard, and an operation that needs the shard
  for writing blocks while there is one.
\<close>

section \<open>Errors\<close>

datatype registry_error =
  InvalidName string
| ConnectionTimeout string
| Invalid_Service_Uri uri
| Handshake_With io_kind string
| Duplex_Error io_kind string
| Unix_Error io_kind string string

datatype internal_bind_error = AlreadyBound | SocketResetError string io_kind | PidLockError string io_kind

record bind_error =
  be_service :: string
  be_inner :: internal_bind_error

definition bind_error_new :: "string \<Rightarrow> internal_bind_error \<Rightarrow> bind_error" where
  "bind_error_new service inner = \<lparr>be_service = service, be_inner = inner\<rparr>"

definition bind_error_display :: "(io_kind \<Rightarrow> string) \<Rightarrow> bind_error \<Rightarrow> string" where
  "bind_error_display show_error e =
     (case be_inner e of
        AlreadyBound \<Rightarrow> ''Service '' @ be_service e @ '' is already bound''
      | SocketResetError path error \<Rightarrow>
          ''Service '' @ be_service e @ '': Unable to reset socket at '' @ path @ '': '' @ show_error error
      | PidLockError path error \<Rightarrow>
          ''Service '' @ be_service e @ '': Unable to lock PID file at '' @ path @ '': '' @ show_error error)"

definition bind_error_source :: "bind_error \<Rightarrow> io_kind option" where
  "bind_error_source e =
     (case be_inner e of
        AlreadyBound \<Rightarrow> None
      | SocketResetError _ error \<Rightarrow> Some error
      | PidLockError _ error \<Rightarrow> Some error)"

section \<open>Configuration\<close>

datatype service_discovery = InProcess | Unix_Directory string

record registry_config =
  rc_discovery :: service_discovery
  rc_connect_timeout :: "duration option"
  rc_buffer_size :: usize
  rc_proxy_timeout :: duration
  rc_proxy_limit :: usize

definition registry_config_default :: registry_config where
  "registry_config_default =
     \<lparr>rc_discovery = InProcess, rc_connect_timeout = None, rc_buffer_size = 1024 * 1024,
      rc_proxy_timeout = 30 * 10 ^ 9, rc_proxy_limit = 32\<rparr>"

section \<open>Handles\<close>

text \<open>\<open>Utf8Path::join\<close>: an absolute second path replaces the first.\<close>

definition path_join :: "string \<Rightarrow> string \<Rightarrow> string" where
  "path_join base p =
     (if p \<noteq> [] \<and> hd p = CHR ''/'' then p
      else if base = [] \<or> last base = CHR ''/'' then base @ p
      else base @ ''/'' @ p)"

datatype pid_lock = Lock_Path string | Lock_Held pid_file

text \<open>A Duplex handle's acceptor, if not taken yet, and its client, both of the pair number \<open>k\<close>.\<close>

datatype 'acc service_handle = SH_Duplex "'acc option" nat | SH_Unix string pid_lock

text \<open>
  The state: handles by name, the in-memory networks of the Duplex handles, and the names whose
  shard a connection holds a read guard of.
\<close>

type_synonym ('cfg, 't, 'u) registry_acceptor = "('cfg, ('t, nat \<times> duplex_incoming, 'u) braid) acceptor_inner"

record ('cfg, 't, 'u, 'io) registry =
  rg_services :: "string \<rightharpoonup> ('cfg, 't, 'u) registry_acceptor service_handle"
  rg_nets :: "'io duplex_net list"
  rg_guards :: "string list"

definition registry_new :: "('cfg, 't, 'u, 'io) registry" where
  "registry_new = \<lparr>rg_services = Map.empty, rg_nets = [], rg_guards = []\<rparr>"

definition pid_lock_available :: "host \<Rightarrow> files \<Rightarrow> pid_lock \<Rightarrow> bool" where
  "pid_lock_available os fs lock =
     (case lock of
        Lock_Path path \<Rightarrow> (case pid_file_is_locked os fs path of Inr b \<Rightarrow> b | Inl _ \<Rightarrow> False)
      | Lock_Held _ \<Rightarrow> True)"

definition handle_duplex :: "nat \<Rightarrow> ('cfg, 't, 'u) registry_acceptor service_handle \<times> 'io duplex_net" where
  "handle_duplex k =
     (let (net, incoming) = duplex_pair in (SH_Duplex (Some (acceptor_new (Braid_Duplex (k, incoming)))) k, net))"

definition handle_unix :: "string \<Rightarrow> string \<Rightarrow> 'acc service_handle" where
  "handle_unix path service =
     SH_Unix (path_join path (service @ ''.svc'')) (Lock_Path (path_join path (service @ ''.pid'')))"

definition handle_available :: "host \<Rightarrow> files \<Rightarrow> 'acc service_handle \<Rightarrow> bool" where
  "handle_available os fs h =
     (case h of
        SH_Duplex acceptor _ \<Rightarrow> acceptor = None
      | SH_Unix _ pidfile \<Rightarrow> pid_lock_available os fs pidfile)"

text \<open>\<open>ServiceHandle::acceptor\<close>; \<open>listen\<close> is \<open>UnixListener::bind\<close>.\<close>

definition handle_acceptor ::
  "host \<Rightarrow> (files \<Rightarrow> string \<Rightarrow> (io_kind + 'u) \<times> files) \<Rightarrow> files \<Rightarrow> ('cfg, 't, 'u) registry_acceptor service_handle
     \<Rightarrow> (internal_bind_error + ('cfg, 't, 'u) registry_acceptor) \<times> ('cfg, 't, 'u) registry_acceptor service_handle \<times> files" where
  "handle_acceptor os listen fs h =
     (case h of
        SH_Duplex acceptor k \<Rightarrow> (ok_or AlreadyBound acceptor, SH_Duplex None k, fs)
      | SH_Unix path (Lock_Held f) \<Rightarrow> (Inl AlreadyBound, h, fs)
      | SH_Unix path (Lock_Path pid_path) \<Rightarrow>
          (case pid_file_new os fs pid_path of
             (Inl err, fs1) \<Rightarrow> (Inl (PidLockError pid_path err), h, fs1)
           | (Inr f, fs1) \<Rightarrow>
               (let h' = SH_Unix path (Lock_Held f); (removed, fs2) = remove_file os fs1 path in
                if (\<exists>k. removed = Inl k \<and> k \<noteq> NotFound)
                then (Inl (SocketResetError path (case removed of Inl k \<Rightarrow> k | Inr _ \<Rightarrow> OtherKind)), h', fs2)
                else (case listen fs2 path of
                        (Inr listener, fs3) \<Rightarrow> (Inr (acceptor_new (Braid_Unix listener)), h', fs3)
                      | (Inl AddrInUse, fs3) \<Rightarrow> (Inl AlreadyBound, h', fs3)
                      | (Inl error, fs3) \<Rightarrow> (Inl (SocketResetError path error), h', fs3)))))"

section \<open>The registry\<close>

text \<open>
  \<open>shard\<close> assigns names to the shards of the map. An operation that writes to a shard with a
  read guard on it blocks its thread: it has no result (\<open>None\<close>).
\<close>

definition write_blocked :: "(string \<Rightarrow> nat) \<Rightarrow> ('cfg, 't, 'u, 'io) registry \<Rightarrow> string \<Rightarrow> bool" where
  "write_blocked shard reg service = list_ex (\<lambda>g. shard g = shard service) (rg_guards reg)"

definition registry_get_mut ::
  "(string \<Rightarrow> nat) \<Rightarrow> registry_config \<Rightarrow> string \<Rightarrow> ('cfg, 't, 'u, 'io) registry
     \<Rightarrow> (('cfg, 't, 'u) registry_acceptor service_handle \<times> ('cfg, 't, 'u, 'io) registry) option" where
  "registry_get_mut shard conf service reg =
     (if write_blocked shard reg service then None
      else case rg_services reg service of
        Some h \<Rightarrow> Some (h, reg)
      | None \<Rightarrow>
          (case rc_discovery conf of
             InProcess \<Rightarrow>
               (let (h, net) = handle_duplex (length (rg_nets reg))
                in Some (h, reg\<lparr>rg_services := (rg_services reg)(service \<mapsto> h), rg_nets := rg_nets reg @ [net]\<rparr>))
           | Unix_Directory path \<Rightarrow>
               (let h = handle_unix path service
                in Some (h, reg\<lparr>rg_services := (rg_services reg)(service \<mapsto> h)\<rparr>))))"

definition registry_get ::
  "(string \<Rightarrow> nat) \<Rightarrow> registry_config \<Rightarrow> string \<Rightarrow> ('cfg, 't, 'u, 'io) registry
     \<Rightarrow> (('cfg, 't, 'u) registry_acceptor service_handle \<times> ('cfg, 't, 'u, 'io) registry) option" where
  "registry_get shard conf service reg =
     (case rg_services reg service of
        Some h \<Rightarrow> Some (h, reg)
      | None \<Rightarrow> registry_get_mut shard conf service reg)"

definition registry_is_available ::
  "(string \<Rightarrow> nat) \<Rightarrow> host \<Rightarrow> files \<Rightarrow> registry_config \<Rightarrow> string \<Rightarrow> ('cfg, 't, 'u, 'io) registry
     \<Rightarrow> (bool \<times> ('cfg, 't, 'u, 'io) registry) option" where
  "registry_is_available shard os fs conf service reg =
     map_option (\<lambda>(h, reg'). (handle_available os fs h, reg')) (registry_get shard conf service reg)"

definition registry_bind_inner ::
  "(string \<Rightarrow> nat) \<Rightarrow> host \<Rightarrow> (files \<Rightarrow> string \<Rightarrow> (io_kind + 'u) \<times> files) \<Rightarrow> files \<Rightarrow> registry_config \<Rightarrow> string
     \<Rightarrow> ('cfg, 't, 'u, 'io) registry
     \<Rightarrow> ((internal_bind_error + ('cfg, 't, 'u) registry_acceptor) \<times> ('cfg, 't, 'u, 'io) registry \<times> files) option" where
  "registry_bind_inner shard os listen fs conf service reg =
     (case registry_get_mut shard conf service reg of
        None \<Rightarrow> None
      | Some (h, reg') \<Rightarrow>
          (let (r, h', fs') = handle_acceptor os listen fs h
           in Some (r, reg'\<lparr>rg_services := (rg_services reg')(service \<mapsto> h')\<rparr>, fs')))"

definition registry_bind ::
  "(string \<Rightarrow> nat) \<Rightarrow> host \<Rightarrow> (files \<Rightarrow> string \<Rightarrow> (io_kind + 'u) \<times> files) \<Rightarrow> files \<Rightarrow> registry_config \<Rightarrow> string
     \<Rightarrow> ('cfg, 't, 'u, 'io) registry
     \<Rightarrow> ((bind_error + ('cfg, 't, 'u) registry_acceptor) \<times> ('cfg, 't, 'u, 'io) registry \<times> files) option" where
  "registry_bind shard os listen fs conf name reg =
     map_option (\<lambda>(r, rest). (map_err (bind_error_new name) r, rest)) (registry_bind_inner shard os listen fs conf name reg)"

section \<open>Connecting\<close>

text \<open>\<open>ServiceHandle::connect\<close>; \<open>'uf\<close> is the future of \<open>UnixStream::connect\<close>, polled by \<open>upoll\<close>.\<close>

datatype 'uf handle_connect = HC_Duplex nat connecting | HC_Unix string 'uf

definition handle_connect_start ::
  "(string \<Rightarrow> 'uf) \<Rightarrow> registry_config \<Rightarrow> 'acc service_handle \<Rightarrow> 'uf handle_connect" where
  "handle_connect_start uconnect conf h =
     (case h of
        SH_Duplex _ k \<Rightarrow> HC_Duplex k (Start (rc_buffer_size conf))
      | SH_Unix path _ \<Rightarrow> HC_Unix path (uconnect path))"

type_synonym ('t, 'io, 'us) registry_stream = "('t, 'io duplex_stream, 'us) braid"

fun handle_connect_poll ::
  "('uf \<Rightarrow> (io_kind + 'us) poll \<times> 'uf) \<Rightarrow> string \<Rightarrow> 'uf handle_connect \<Rightarrow> 'io duplex_net list
     \<Rightarrow> (registry_error + ('h, 's, 'a, ('t, 'io, 'us) registry_stream) client_stream) poll \<times> 'uf handle_connect \<times> 'io duplex_net list" where
  "handle_connect_poll upoll name (HC_Duplex k c) nets =
     (let (r, c', net') = connect_poll c (nets ! k)
      in (map_ready (map_sum (\<lambda>error. Duplex_Error error name) client_stream_from_duplex) r, HC_Duplex k c', nets[k := net']))"
| "handle_connect_poll upoll name (HC_Unix path f) nets =
     (let (r, f') = upoll f
      in (map_ready (map_sum (\<lambda>error. Unix_Error error path name) client_stream_from_unix) r, HC_Unix path f', nets))"

fun handle_connect_drop :: "'uf handle_connect \<Rightarrow> 'io duplex_net list \<Rightarrow> 'io duplex_net list" where
  "handle_connect_drop (HC_Duplex k c) nets = nets[k := connect_drop c (nets ! k)]"
| "handle_connect_drop (HC_Unix path f) nets = nets"

text \<open>
  \<open>connect_to_handle\<close>, by how it waits: with the configured timeout, with the default one that
  only warns, or plainly after that. A timeout polls its future before its clock; deadlines are
  set by the first poll.
\<close>

datatype 'uf waiting_connect =
  WC_Timeout instant "'uf handle_connect" | WC_Warn instant "'uf handle_connect" | WC_Plain "'uf handle_connect"

definition default_warn_timeout :: duration where
  "default_warn_timeout = 30 * 10 ^ 9"

definition waiting_connect_start :: "registry_config \<Rightarrow> instant \<Rightarrow> 'uf handle_connect \<Rightarrow> 'uf waiting_connect" where
  "waiting_connect_start conf now request =
     (case rc_connect_timeout conf of
        Some timeout \<Rightarrow> WC_Timeout (now + int timeout) request
      | None \<Rightarrow> WC_Warn (now + int default_warn_timeout) request)"

fun waiting_connect_poll ::
  "('uf \<Rightarrow> (io_kind + 'us) poll \<times> 'uf) \<Rightarrow> instant \<Rightarrow> string \<Rightarrow> 'uf waiting_connect \<Rightarrow> 'io duplex_net list
     \<Rightarrow> (registry_error + ('h, 's, 'a, ('t, 'io, 'us) registry_stream) client_stream) poll \<times> 'uf waiting_connect \<times> 'io duplex_net list" where
  "waiting_connect_poll upoll now name (WC_Timeout deadline request) nets =
     (let (r, request', nets') = handle_connect_poll upoll name request nets
      in if r = Pending \<and> deadline \<le> now
         then (Ready (Inl (ConnectionTimeout name)), WC_Timeout deadline request', handle_connect_drop request' nets')
         else (r, WC_Timeout deadline request', nets'))"
| "waiting_connect_poll upoll now name (WC_Warn deadline request) nets =
     (let (r, request', nets') = handle_connect_poll upoll name request nets
      in if r = Pending \<and> deadline \<le> now
         then (let (r', request'', nets'') = handle_connect_poll upoll name request' nets'
               in (r', WC_Plain request'', nets''))
         else (r, WC_Warn deadline request', nets'))"
| "waiting_connect_poll upoll now name (WC_Plain request) nets =
     (let (r, request', nets') = handle_connect_poll upoll name request nets in (r, WC_Plain request', nets'))"

text \<open>
  \<open>InnerRegistry::connect\<close>: the guard on the handle is taken by the first poll and held across
  the \<open>await\<close>, until the future completes or is dropped.
\<close>

datatype 'uf registry_connect = RC_Start string | RC_Waiting string "'uf waiting_connect" | RC_Done

definition registry_connect_waiting ::
  "('uf \<Rightarrow> (io_kind + 'us) poll \<times> 'uf) \<Rightarrow> instant \<Rightarrow> string \<Rightarrow> 'uf waiting_connect \<Rightarrow> ('cfg, 't, 'u, 'io) registry
     \<Rightarrow> (registry_error + ('h, 's, 'a, ('t, 'io, 'us) registry_stream) client_stream) poll
        \<times> 'uf registry_connect \<times> ('cfg, 't, 'u, 'io) registry" where
  "registry_connect_waiting upoll now name w reg =
     (let (r, w', nets) = waiting_connect_poll upoll now name w (rg_nets reg);
          reg' = reg\<lparr>rg_nets := nets\<rparr>
      in if r = Pending then (Pending, RC_Waiting name w', reg')
         else (r, RC_Done, reg'\<lparr>rg_guards := remove1 name (rg_guards reg')\<rparr>))"

fun registry_connect_poll ::
  "(string \<Rightarrow> nat) \<Rightarrow> (string \<Rightarrow> 'uf) \<Rightarrow> ('uf \<Rightarrow> (io_kind + 'us) poll \<times> 'uf) \<Rightarrow> registry_config \<Rightarrow> instant
     \<Rightarrow> 'uf registry_connect \<Rightarrow> ('cfg, 't, 'u, 'io) registry
     \<Rightarrow> ((registry_error + ('h, 's, 'a, ('t, 'io, 'us) registry_stream) client_stream) poll
        \<times> 'uf registry_connect \<times> ('cfg, 't, 'u, 'io) registry) option" where
  "registry_connect_poll shard uconnect upoll conf now (RC_Start name) reg =
     (case registry_get shard conf name reg of
        None \<Rightarrow> None
      | Some (h, reg') \<Rightarrow>
          Some (registry_connect_waiting upoll now name
            (waiting_connect_start conf now (handle_connect_start uconnect conf h))
            (reg'\<lparr>rg_guards := name # rg_guards reg'\<rparr>)))"
| "registry_connect_poll shard uconnect upoll conf now (RC_Waiting name w) reg =
     Some (registry_connect_waiting upoll now name w reg)"
| "registry_connect_poll shard uconnect upoll conf now RC_Done reg = Some (Panicked, RC_Done, reg)"

text \<open>Dropping the future drops its request, with the timer around it, and gives the guard back.\<close>

fun waiting_request :: "'uf waiting_connect \<Rightarrow> 'uf handle_connect" where
  "waiting_request (WC_Timeout deadline request) = request"
| "waiting_request (WC_Warn deadline request) = request"
| "waiting_request (WC_Plain request) = request"

fun registry_connect_drop :: "'uf registry_connect \<Rightarrow> ('cfg, 't, 'u, 'io) registry \<Rightarrow> ('cfg, 't, 'u, 'io) registry" where
  "registry_connect_drop (RC_Start name) reg = reg"
| "registry_connect_drop (RC_Waiting name w) reg =
     reg\<lparr>rg_nets := handle_connect_drop (waiting_request w) (rg_nets reg), rg_guards := remove1 name (rg_guards reg)\<rparr>"
| "registry_connect_drop RC_Done reg = reg"

section \<open>Configured registries\<close>

text \<open>\<open>ServiceRegistry\<close>: clones share the services; each setter makes its own copy of the configuration.\<close>

record service_registry =
  sr_config :: registry_config

definition service_registry_new :: "service_registry \<times> ('cfg, 't, 'u, 'io) registry" where
  "service_registry_new = (\<lparr>sr_config = registry_config_default\<rparr>, registry_new)"

definition service_registry_with_config :: "registry_config \<Rightarrow> service_registry \<times> ('cfg, 't, 'u, 'io) registry" where
  "service_registry_with_config conf = (\<lparr>sr_config = conf\<rparr>, registry_new)"

definition set_discovery :: "service_discovery \<Rightarrow> service_registry \<Rightarrow> service_registry" where
  "set_discovery d r = r\<lparr>sr_config := (sr_config r)\<lparr>rc_discovery := d\<rparr>\<rparr>"

definition set_connect_timeout :: "duration \<Rightarrow> service_registry \<Rightarrow> service_registry" where
  "set_connect_timeout timeout r = r\<lparr>sr_config := (sr_config r)\<lparr>rc_connect_timeout := Some timeout\<rparr>\<rparr>"

definition set_buffer_size :: "usize \<Rightarrow> service_registry \<Rightarrow> service_registry" where
  "set_buffer_size n r = r\<lparr>sr_config := (sr_config r)\<lparr>rc_buffer_size := n\<rparr>\<rparr>"

section \<open>A name is bound once\<close>

definition handle_bound :: "'acc service_handle \<Rightarrow> bool" where
  "handle_bound h = (case h of SH_Duplex acceptor _ \<Rightarrow> acceptor = None | SH_Unix _ lock \<Rightarrow> (\<exists>f. lock = Lock_Held f))"

definition name_bound :: "('cfg, 't, 'u, 'io) registry \<Rightarrow> string \<Rightarrow> bool" where
  "name_bound reg name = (\<exists>h. rg_services reg name = Some h \<and> handle_bound h)"

text \<open>What other users of the registry do: bind, look, poll connections, drop them.\<close>

inductive registry_step ::
  "(string \<Rightarrow> nat) \<Rightarrow> host \<Rightarrow> (files \<Rightarrow> string \<Rightarrow> (io_kind + 'u) \<times> files) \<Rightarrow> (string \<Rightarrow> 'uf) \<Rightarrow> ('uf \<Rightarrow> (io_kind + 'us) poll \<times> 'uf)
     \<Rightarrow> ('cfg, 't, 'u, 'io) registry \<times> files \<Rightarrow> ('cfg, 't, 'u, 'io) registry \<times> files \<Rightarrow> bool"
  for shard os listen uconnect upoll where
  rs_bind: "registry_bind shard os listen fs conf name reg = Some (r, reg', fs') \<Longrightarrow>
     registry_step shard os listen uconnect upoll (reg, fs) (reg', fs')"
| rs_look: "registry_is_available shard os fs conf name reg = Some (b, reg') \<Longrightarrow>
     registry_step shard os listen uconnect upoll (reg, fs) (reg', fs)"
| rs_connect: "registry_connect_poll shard uconnect upoll conf now f reg = Some (r, f', reg') \<Longrightarrow>
     (r :: (registry_error + (unit, unit, unit, ('t, 'io, 'us) registry_stream) client_stream) poll) = r \<Longrightarrow>
     registry_step shard os listen uconnect upoll (reg, fs) (reg', fs)"
| rs_drop: "registry_step shard os listen uconnect upoll (reg, fs)
     (reg\<lparr>rg_guards := remove1 name (rg_guards reg), rg_nets := nets\<rparr>, fs)"
| rs_files: "registry_step shard os listen uconnect upoll (reg, fs) (reg, fs')"

lemma get_mut_services:
  assumes "registry_get_mut shard conf name reg = Some (h, reg')"
  shows "rg_services reg' name = Some h" and "rg_services reg q = Some h' \<Longrightarrow> rg_services reg' q = Some h'"
    and "rg_guards reg' = rg_guards reg"
proof -
  have "rg_services reg' name = Some h \<and> (\<forall>h'. rg_services reg q = Some h' \<longrightarrow> rg_services reg' q = Some h') \<and>
    rg_guards reg' = rg_guards reg"
    using assms by (auto simp: registry_get_mut_def Let_def split: if_splits option.splits service_discovery.splits prod.splits)
  then show "rg_services reg' name = Some h" and "rg_services reg q = Some h' \<Longrightarrow> rg_services reg' q = Some h'"
    and "rg_guards reg' = rg_guards reg" by auto
qed

lemma get_services:
  assumes "registry_get shard conf name reg = Some (h, reg')"
  shows "rg_services reg' name = Some h" and "rg_services reg q = Some h' \<Longrightarrow> rg_services reg' q = Some h'"
  using assms get_mut_services [of shard conf name reg h reg'] by (auto simp: registry_get_def split: option.splits)

lemma acceptor_bound:
  "handle_acceptor os listen fs h = (r, h', fs') \<Longrightarrow> handle_bound h \<Longrightarrow> handle_bound h' \<and> r = Inl AlreadyBound"
  by (auto simp: handle_acceptor_def handle_bound_def split: service_handle.splits pid_lock.splits)

lemma acceptor_binds:
  "handle_acceptor os listen fs h = (Inr a, h', fs') \<Longrightarrow> handle_bound h'"
  by (auto simp: handle_acceptor_def handle_bound_def Let_def
      split: service_handle.splits pid_lock.splits prod.splits sum.splits if_splits io_kind.splits)

lemma bind_keeps_bound:
  assumes "registry_bind_inner shard os listen fs conf name reg = Some (r, reg', fs')" and "name_bound reg q"
  shows "name_bound reg' q" and "q = name \<Longrightarrow> r = Inl AlreadyBound"
proof -
  obtain h reg1 where g: "registry_get_mut shard conf name reg = Some (h, reg1)"
    using assms(1) by (auto simp: registry_bind_inner_def split: option.splits)
  obtain r1 h' fs1 where a: "handle_acceptor os listen fs h = (r1, h', fs1)" using prod_cases3 by blast
  from assms(1) g a have e: "r = r1" "reg' = reg1\<lparr>rg_services := (rg_services reg1)(name \<mapsto> h')\<rparr>"
    by (auto simp: registry_bind_inner_def)
  from assms(2) obtain hq where q: "rg_services reg q = Some hq" "handle_bound hq" by (auto simp: name_bound_def)
  from get_mut_services(1) [OF g] get_mut_services(2) [OF g, of q hq] q(1) have q1: "rg_services reg1 q = Some hq" "rg_services reg1 name = Some h" by auto
  with q(2) acceptor_bound [OF a] e show "name_bound reg' q" and "q = name \<Longrightarrow> r = Inl AlreadyBound"
    by (auto simp: name_bound_def)
qed

lemma waiting_services:
  "registry_connect_waiting upoll now name w reg = (r, f, reg') \<Longrightarrow> rg_services reg' = rg_services reg"
  by (auto simp: registry_connect_waiting_def Let_def split: prod.splits if_splits)

lemma step_keeps_bound:
  assumes "registry_step shard os listen uconnect upoll w w'" and "name_bound (fst w) q"
  shows "name_bound (fst w') q"
  using assms
proof (cases rule: registry_step.cases)
  case (rs_bind fs conf name reg r reg' fs')
  then obtain r0 where "registry_bind_inner shard os listen fs conf name reg = Some (r0, reg', fs')"
    by (auto simp: registry_bind_def)
  from bind_keeps_bound(1) [OF this] rs_bind assms(2) show ?thesis by simp
next
  case (rs_look fs conf name reg b reg')
  then show ?thesis using assms(2) get_services(2)
    by (fastforce simp: registry_is_available_def name_bound_def)
next
  case (rs_connect conf now f reg r f' reg' fs)
  show ?thesis
  proof (cases f)
    case (RC_Start name)
    then obtain h reg1 where g: "registry_get shard conf name reg = Some (h, reg1)"
      and w: "registry_connect_waiting upoll now name (waiting_connect_start conf now (handle_connect_start uconnect conf h))
        (reg1\<lparr>rg_guards := name # rg_guards reg1\<rparr>) = (r, f', reg')"
      using rs_connect(3) by (auto split: option.splits)
    from waiting_services [OF w] get_services(2) [OF g, of q] assms(2) rs_connect(1,2) show ?thesis
      by (auto simp: name_bound_def)
  next
    case (RC_Waiting name w)
    with rs_connect waiting_services [of upoll now name w reg r f' reg'] assms(2) show ?thesis by (auto simp: name_bound_def)
  next
    case RC_Done
    with rs_connect assms(2) show ?thesis by auto
  qed
qed (use assms(2) in \<open>auto simp: name_bound_def\<close>)

section \<open>A connection that waits for a service\<close>

text \<open>A connection to a service nobody accepts for: its request is queued, its guard is kept.\<close>

definition stuck :: "string \<Rightarrow> nat \<Rightarrow> 'uf registry_connect \<Rightarrow> ('cfg, 't, 'u, 'io) registry \<Rightarrow> bool" where
  "stuck name k f reg \<longleftrightarrow> k < length (rg_nets reg) \<and> dn_cells (rg_nets reg ! k) 0 = Empty \<and> name \<in> set (rg_guards reg) \<and>
     (\<exists>d. f = RC_Waiting name (WC_Warn d (HC_Duplex k (Awaiting 0))) \<or> f = RC_Waiting name (WC_Plain (HC_Duplex k (Awaiting 0))))"

lemma await_empty: "dn_cells net 0 = Empty \<Longrightarrow> connect_await 0 net = (Pending, Awaiting 0, net)"
  by (simp add: connect_await_def Let_def fun_upd_idem)

lemma stuck_blocks: "stuck name k f reg \<Longrightarrow> registry_bind shard os listen fs conf name reg = None"
  by (auto simp: stuck_def registry_bind_def registry_bind_inner_def registry_get_mut_def write_blocked_def list_ex_iff)

lemma stuck_poll:
  assumes "stuck name k f reg"
  shows "\<exists>f' reg'. registry_connect_poll shard uconnect upoll conf now f reg = Some (Pending, f', reg') \<and> stuck name k f' reg'"
proof -
  from assms have k: "k < length (rg_nets reg)" and a: "connect_await 0 (rg_nets reg ! k) = (Pending, Awaiting 0, rg_nets reg ! k)"
    by (auto simp: stuck_def await_empty)
  have same: "(rg_nets reg)[k := rg_nets reg ! k] = rg_nets reg" by simp
  from assms a k same show ?thesis
    by (auto simp: stuck_def registry_connect_waiting_def Let_def)
qed

lemma stuck_first:
  assumes "rc_discovery conf = InProcess" and "rc_connect_timeout conf = None" and "rg_services reg name = None"
    and "\<not> write_blocked shard reg name"
  shows "\<exists>f reg'. registry_connect_poll shard uconnect upoll conf now (RC_Start name) reg = Some (Pending, f, reg') \<and>
    stuck name (length (rg_nets reg)) f reg'"
  using assms
  by (auto simp: stuck_def registry_get_def registry_get_mut_def handle_duplex_def duplex_pair_def registry_connect_waiting_def
      waiting_connect_start_def handle_connect_start_def connect_send_def connect_await_def channel_capacity_def request_new_def
      default_warn_timeout_def Let_def nth_append)

text \<open>The polls of a connection at the given times, while it is pending.\<close>

fun registry_polls ::
  "(string \<Rightarrow> nat) \<Rightarrow> (string \<Rightarrow> 'uf) \<Rightarrow> ('uf \<Rightarrow> (io_kind + 'us) poll \<times> 'uf) \<Rightarrow> registry_config \<Rightarrow> instant list
     \<Rightarrow> 'uf registry_connect \<Rightarrow> ('cfg, 't, 'u, 'io) registry \<Rightarrow> ('uf registry_connect \<times> ('cfg, 't, 'u, 'io) registry) option" where
  "registry_polls shard uconnect upoll conf [] f reg = Some (f, reg)"
| "registry_polls shard uconnect upoll conf (now # ts) f reg =
     (case registry_connect_poll shard uconnect upoll conf now f reg of
        Some ((Pending :: (registry_error + (unit, unit, unit, ('t, 'io, 'us) registry_stream) client_stream) poll), f', reg') \<Rightarrow>
          registry_polls shard uconnect upoll conf ts f' reg'
      | _ \<Rightarrow> None)"

lemma stuck_polls:
  fixes reg :: "('cfg, 't, 'u, 'io) registry" and upoll :: "'uf \<Rightarrow> (io_kind + 'us) poll \<times> 'uf"
  shows "stuck name k f reg \<Longrightarrow> \<exists>f' reg'. registry_polls shard uconnect upoll conf ts f reg = Some (f', reg') \<and> stuck name k f' reg'"
proof (induction ts arbitrary: f reg)
  case (Cons now ts)
  from stuck_poll [OF Cons.prems, of shard uconnect upoll conf now] obtain f' reg' where
    p: "registry_connect_poll shard uconnect upoll conf now f reg = Some ((Pending ::
      (registry_error + (unit, unit, unit, ('t, 'io, 'us) registry_stream) client_stream) poll), f', reg')" "stuck name k f' reg'" by blast
  from Cons.IH [OF p(2)] p(1) show ?case by simp
qed simp

lemma bind_inner_ok:
  assumes "registry_bind shard os listen fs conf name reg = Some (Inr acc, reg', fs')"
  shows "registry_bind_inner shard os listen fs conf name reg = Some (Inr acc, reg', fs')"
proof -
  from assms obtain r where "registry_bind_inner shard os listen fs conf name reg = Some (r, reg', fs')"
    and "map_err (bind_error_new name) r = Inr acc" by (auto simp: registry_bind_def)
  then show ?thesis by (cases r) simp_all
qed

section \<open>Properties\<close>

text \<open>C34: a name is bound at most once: after a bind succeeded, whatever else is done with the
  registry, the name is available and every later bind of it is refused as already bound or
  blocks, with any configuration and on any host.\<close>

theorem bind_once:
  assumes "registry_bind shard os listen fs conf name reg = Some (Inr acc, reg1, fs1)"
    and "(registry_step shard os listen uconnect upoll)\<^sup>*\<^sup>* (reg1, fs1) (reg2, fs2)"
  shows "registry_is_available shard os2 fs2 conf2 name reg2 = Some (True, reg2) \<and>
    (registry_bind shard os2 listen2 fs2 conf2 name reg2 = None \<or>
     (\<exists>rest. registry_bind shard os2 listen2 fs2 conf2 name reg2 = Some (Inl \<lparr>be_service = name, be_inner = AlreadyBound\<rparr>, rest)))"
proof -
  from assms(1) obtain h reg0 h' where g: "registry_get_mut shard conf name reg = Some (h, reg0)"
    and a: "handle_acceptor os listen fs h = (Inr acc, h', fs1)" and r: "reg1 = reg0\<lparr>rg_services := (rg_services reg0)(name \<mapsto> h')\<rparr>"
    by (auto dest!: bind_inner_ok simp: registry_bind_inner_def split: option.splits prod.splits)
  from acceptor_binds [OF a] r have "name_bound (fst (reg1, fs1)) name" by (simp add: name_bound_def)
  with assms(2) have b: "name_bound (fst (reg2, fs2)) name"
    by (induction rule: rtranclp_induct) (auto intro: step_keeps_bound)
  then obtain h2 where h2: "rg_services reg2 name = Some h2" "handle_bound h2" by (auto simp: name_bound_def)
  then have "handle_available os2 fs2 h2"
    by (auto simp: handle_bound_def handle_available_def pid_lock_available_def split: service_handle.splits)
  with h2 have look: "registry_is_available shard os2 fs2 conf2 name reg2 = Some (True, reg2)"
    by (simp add: registry_is_available_def registry_get_def)
  have "(\<exists>rest. registry_bind shard os2 listen2 fs2 conf2 name reg2 = Some (Inl \<lparr>be_service = name, be_inner = AlreadyBound\<rparr>, rest))"
    if "registry_bind shard os2 listen2 fs2 conf2 name reg2 \<noteq> None"
  proof -
    from that obtain r reg3 fs3 where i: "registry_bind_inner shard os2 listen2 fs2 conf2 name reg2 = Some (r, reg3, fs3)"
      by (auto simp: registry_bind_def)
    from bind_keeps_bound(2) [OF i, of name] b have "r = Inl AlreadyBound" by simp
    with i show ?thesis by (auto simp: registry_bind_def bind_error_new_def)
  qed
  with look show ?thesis by blast
qed

definition example_listen :: "files \<Rightarrow> string \<Rightarrow> (io_kind + unit) \<times> files" where
  "example_listen fs path = (Inr (), fs(path \<mapsto> []))"

definition example_bound :: "(unit, unit, unit, nat) registry" where
  "example_bound = (case registry_bind (\<lambda>_. 0) (example_host 7) example_listen Map.empty registry_config_default ''s'' registry_new of
     Some (r, reg, fs) \<Rightarrow> reg | None \<Rightarrow> registry_new)"

lemma example_bind:
  "\<exists>acc. registry_bind (\<lambda>_. 0) (example_host 7) example_listen Map.empty registry_config_default ''s'' registry_new =
     Some (Inr acc, example_bound, Map.empty)"
  by (simp add: example_bound_def registry_bind_def registry_bind_inner_def registry_get_mut_def write_blocked_def registry_new_def
      registry_config_default_def handle_duplex_def duplex_pair_def handle_acceptor_def)

theorem bind_once_witness:
  "registry_is_available (\<lambda>_. 0) (example_host 8) Map.empty (registry_config_default\<lparr>rc_discovery := Unix_Directory ''/run''\<rparr>)
     ''s'' example_bound = Some (True, example_bound)"
proof -
  from example_bind obtain acc where b: "registry_bind (\<lambda>_. 0) (example_host 7) example_listen Map.empty registry_config_default ''s''
      registry_new = Some (Inr acc, example_bound, Map.empty)" ..
  have "(registry_step (\<lambda>_. 0) (example_host 7) example_listen (\<lambda>_. ()) (\<lambda>f. (Pending :: (io_kind + unit) poll, f)))\<^sup>*\<^sup>*
      (example_bound, Map.empty) (example_bound, Map.empty)" by simp
  from bind_once [OF b this] show ?thesis by blast
qed



text \<open>A wait that is not over at \<open>now\<close>, and answers what its request answers at any time.\<close>

definition timed :: "instant \<Rightarrow> ('uf handle_connect \<Rightarrow> 'uf waiting_connect) \<Rightarrow> bool" where
  "timed now wrap \<longleftrightarrow> (\<exists>d. now < d \<and> (wrap = WC_Timeout d \<or> wrap = WC_Warn d))"

lemma waiting_timed:
  "\<forall>d. rc_connect_timeout conf = Some d \<longrightarrow> 0 < d \<Longrightarrow> \<exists>wrap. (\<forall>h. waiting_connect_start conf now h = wrap h) \<and> timed now wrap"
proof (cases "rc_connect_timeout conf")
  case None
  then have "(\<forall>h. waiting_connect_start conf now h = WC_Warn (now + 30000000000) h) \<and> timed now (WC_Warn (now + 30000000000))"
    unfolding timed_def
    by (simp add: waiting_connect_start_def default_warn_timeout_def) (rule exI [of _ "now + 30000000000"], simp)
  then show ?thesis by blast
next
  case (Some d)
  assume "\<forall>d. rc_connect_timeout conf = Some d \<longrightarrow> 0 < d"
  with Some have "(\<forall>h. waiting_connect_start conf now h = WC_Timeout (now + int d) h) \<and> timed now (WC_Timeout (now + int d))"
    unfolding timed_def
    by (simp add: waiting_connect_start_def) (rule exI [of _ "now + int d"], simp)
  then show ?thesis by blast
qed

lemma timed_poll:
  assumes "timed now wrap" and "handle_connect_poll upoll name h nets = (r, h', nets')" and "time = now \<or> r \<noteq> Pending"
  shows "waiting_connect_poll upoll time name (wrap h) nets = (r, wrap h', nets')"
  using assms by (auto simp: timed_def)

text \<open>A new pair after one request for a pipe, and after the acceptor has answered it.\<close>

definition asked :: "usize \<Rightarrow> 'io duplex_net" where
  "asked n = snd (snd (connect_poll (Start n) (fst duplex_pair)))"

definition answered :: "(nat \<Rightarrow> usize \<Rightarrow> 'io \<times> 'io) \<Rightarrow> usize \<Rightarrow> 'io duplex_net" where
  "answered mk n = snd (duplex_poll_accept mk incoming_new (asked n))"

lemma fresh_pair_accepts:
  fixes mk :: "nat \<Rightarrow> usize \<Rightarrow> 'io \<times> 'io"
  shows "connect_poll (Start n) (fst duplex_pair) = (Pending, Awaiting 0, asked n)"
    and "duplex_poll_accept mk incoming_new (asked n) = (Ready (Inr (snd (duplex_stream_new mk 0 n))), answered mk n)"
    and "\<exists>net. connect_poll (Awaiting 0) (answered mk n) = (Ready (Inr (fst (duplex_stream_new mk 0 n))), Finished, net)"
    and "duplex_poll_accept mk incoming_new (answered mk n) = (Pending, answered mk n)"
  by (simp_all add: asked_def answered_def duplex_pair_def connect_send_def connect_await_def channel_capacity_def
      request_new_def duplex_poll_accept_def poll_recv_def request_ack_def incoming_new_def Let_def split: prod.splits)

lemma bind_connect_parts:
  fixes reg :: "('cfg, 't, 'u, 'io) registry" and upoll :: "'uf \<Rightarrow> (io_kind + 'us) poll \<times> 'uf"
  assumes "rc_discovery conf = InProcess" and "rg_services reg name = None" and "rg_guards reg = []"
    and "\<forall>d. rc_connect_timeout conf = Some d \<longrightarrow> 0 < d"
  defines "reg1 \<equiv> reg\<lparr>rg_services := (rg_services reg)(name \<mapsto> SH_Duplex None (length (rg_nets reg))),
      rg_nets := rg_nets reg @ [fst duplex_pair]\<rparr>"
  obtains f where
    "registry_bind shard os listen fs conf name reg =
      Some (Inr (Acc_NoTls (Braid_Duplex (length (rg_nets reg), incoming_new))), reg1, fs)"
    and "registry_connect_poll shard uconnect upoll conf now (RC_Start name) reg1 =
      Some (Pending :: (registry_error + ('h, 's, 'a, ('t, 'io, 'us) registry_stream) client_stream) poll, f,
        reg1\<lparr>rg_guards := [name], rg_nets := rg_nets reg @ [asked (rc_buffer_size conf)]\<rparr>)"
    and "\<exists>reg3. registry_connect_poll shard uconnect upoll conf now2 f
        (reg1\<lparr>rg_guards := [name], rg_nets := rg_nets reg @ [answered mk (rc_buffer_size conf)]\<rparr>) =
      Some (Ready (Inr (client_stream_from_duplex (fst (duplex_stream_new mk 0 (rc_buffer_size conf))))
          :: registry_error + ('h, 's, 'a, ('t, 'io, 'us) registry_stream) client_stream), RC_Done, reg3) \<and>
      rg_guards reg3 = []"
proof -
  let ?k = "length (rg_nets reg)" and ?n = "rc_buffer_size conf"
  obtain wrap :: "'uf handle_connect \<Rightarrow> 'uf waiting_connect" where start: "waiting_connect_start conf now (HC_Duplex ?k (Start ?n)) = wrap (HC_Duplex ?k (Start ?n))"
    and wrap: "timed now wrap" using waiting_timed [OF assms(4)] by blast
  have c1: "connect_poll (Start ?n) (fst duplex_pair) = (Pending, Awaiting 0, asked ?n :: 'io duplex_net)"
    by (rule fresh_pair_accepts)
  then have "handle_connect_poll upoll name (HC_Duplex ?k (Start ?n)) (rg_nets reg1) =
      (Pending :: (registry_error + ('h, 's, 'a, ('t, 'io, 'us) registry_stream) client_stream) poll,
        HC_Duplex ?k (Awaiting 0), rg_nets reg @ [asked ?n])"
    by (simp add: reg1_def nth_append del: connect_poll.simps)
  from timed_poll [OF wrap this] start assms(3)
  have first: "registry_connect_poll shard uconnect upoll conf now (RC_Start name) reg1 =
      Some (Pending :: (registry_error + ('h, 's, 'a, ('t, 'io, 'us) registry_stream) client_stream) poll,
        RC_Waiting name (wrap (HC_Duplex ?k (Awaiting 0))), reg1\<lparr>rg_guards := [name], rg_nets := rg_nets reg @ [asked ?n]\<rparr>)"
    by (simp add: registry_get_def reg1_def handle_connect_start_def registry_connect_waiting_def)
  obtain net3 where c2: "connect_poll (Awaiting 0) (answered mk ?n) = (Ready (Inr (fst (duplex_stream_new mk 0 ?n))), Finished, net3)"
    using fresh_pair_accepts(3) by blast
  have "handle_connect_poll upoll name (HC_Duplex ?k (Awaiting 0)) (rg_nets reg @ [answered mk ?n]) =
      (Ready (Inr (client_stream_from_duplex (fst (duplex_stream_new mk 0 ?n)))
        :: registry_error + ('h, 's, 'a, ('t, 'io, 'us) registry_stream) client_stream),
        HC_Duplex ?k Finished, rg_nets reg @ [net3])"
    using c2 by (simp del: connect_poll.simps)
  from timed_poll [OF wrap this] have second: "\<exists>reg3. registry_connect_poll shard uconnect upoll conf now2
      (RC_Waiting name (wrap (HC_Duplex ?k (Awaiting 0))))
      (reg1\<lparr>rg_guards := [name], rg_nets := rg_nets reg @ [answered mk ?n]\<rparr>) =
      Some (Ready (Inr (client_stream_from_duplex (fst (duplex_stream_new mk 0 ?n)))
        :: registry_error + ('h, 's, 'a, ('t, 'io, 'us) registry_stream) client_stream), RC_Done, reg3) \<and>
      rg_guards reg3 = []"
    by (simp add: registry_connect_waiting_def)
  have "registry_bind shard os listen fs conf name reg = Some (Inr (Acc_NoTls (Braid_Duplex (?k, incoming_new))), reg1, fs)"
    using assms(1-3) by (simp add: registry_bind_def registry_bind_inner_def registry_get_mut_def write_blocked_def handle_duplex_def
      duplex_pair_def handle_acceptor_def acceptor_new_def reg1_def Let_def)
  from that [OF this first second] show thesis .
qed

text \<open>In process, a service that was bound can be reached: a connection asks and waits, the
  acceptor that \<open>bind\<close> answered accepts one end of a new pipe, and the next poll of the
  connection answers the other end and gives the guard back.\<close>

theorem bind_then_connect:
  fixes reg :: "('cfg, 't, 'u, 'io) registry" and upoll :: "'uf \<Rightarrow> (io_kind + 'us) poll \<times> 'uf"
  assumes "rc_discovery conf = InProcess" and "rg_services reg name = None" and "rg_guards reg = []"
    and "\<forall>d. rc_connect_timeout conf = Some d \<longrightarrow> 0 < d"
  shows "\<exists>k inc reg1 fs1 f reg2. registry_bind shard os listen fs conf name reg = Some (Inr (Acc_NoTls (Braid_Duplex (k, inc))), reg1, fs1) \<and>
    registry_connect_poll shard uconnect upoll conf now (RC_Start name) reg1 =
      Some (Pending :: (registry_error + ('h, 's, 'a, ('t, 'io, 'us) registry_stream) client_stream) poll, f, reg2) \<and>
    (let ends = duplex_stream_new mk 0 (rc_buffer_size conf); (r, net) = duplex_poll_accept mk inc (rg_nets reg2 ! k)
     in r = Ready (Inr (snd ends)) \<and>
       (\<exists>reg3. registry_connect_poll shard uconnect upoll conf now2 f (reg2\<lparr>rg_nets := (rg_nets reg2)[k := net]\<rparr>) =
          Some (Ready (Inr (client_stream_from_duplex (fst ends)) :: registry_error + ('h, 's, 'a, ('t, 'io, 'us) registry_stream) client_stream),
            RC_Done, reg3) \<and> rg_guards reg3 = []))"
proof -
  let ?k = "length (rg_nets reg)" and ?n = "rc_buffer_size conf"
  let ?reg1 = "reg\<lparr>rg_services := (rg_services reg)(name \<mapsto> SH_Duplex None ?k), rg_nets := rg_nets reg @ [fst duplex_pair]\<rparr>"
  let ?reg2 = "?reg1\<lparr>rg_guards := [name], rg_nets := rg_nets reg @ [asked ?n]\<rparr>"
  obtain f where bind: "registry_bind shard os listen fs conf name reg =
      Some (Inr (Acc_NoTls (Braid_Duplex (?k, incoming_new))), ?reg1, fs)"
    and first: "registry_connect_poll shard uconnect upoll conf now (RC_Start name) ?reg1 =
      Some (Pending :: (registry_error + ('h, 's, 'a, ('t, 'io, 'us) registry_stream) client_stream) poll, f, ?reg2)"
    and second: "\<exists>reg3. registry_connect_poll shard uconnect upoll conf now2 f
        (?reg1\<lparr>rg_guards := [name], rg_nets := rg_nets reg @ [answered mk ?n]\<rparr>) =
      Some (Ready (Inr (client_stream_from_duplex (fst (duplex_stream_new mk 0 ?n)))
          :: registry_error + ('h, 's, 'a, ('t, 'io, 'us) registry_stream) client_stream), RC_Done, reg3) \<and>
      rg_guards reg3 = []"
    by (rule bind_connect_parts [OF assms])
  have "duplex_poll_accept mk incoming_new (rg_nets ?reg2 ! ?k) = (Ready (Inr (snd (duplex_stream_new mk 0 ?n))), answered mk ?n)"
    by (simp add: fresh_pair_accepts(2))
  with bind first second show ?thesis
    by - (rule exI [of _ ?k], rule exI [of _ incoming_new], rule exI [of _ ?reg1], rule exI [of _ fs],
      rule exI [of _ f], rule exI [of _ ?reg2], simp add: Let_def del: registry_connect_poll.simps)
qed

theorem bind_then_connect_witness:
  "\<exists>k inc reg1 fs1 f reg2. registry_bind (\<lambda>_. 0) (example_host 7) example_listen Map.empty registry_config_default ''s''
      (registry_new :: (unit, unit, unit, nat) registry) = Some (Inr (Acc_NoTls (Braid_Duplex (k, inc))), reg1, fs1) \<and>
    registry_connect_poll (\<lambda>_. 0) (\<lambda>_. ()) (\<lambda>f. (Pending :: (io_kind + unit) poll, f)) registry_config_default 0 (RC_Start ''s'') reg1 =
      Some (Pending :: (registry_error + (unit, unit, unit, (unit, nat, unit) registry_stream) client_stream) poll, f, reg2) \<and>
    fst (duplex_poll_accept (\<lambda>k n. (2 * k, 2 * k + 1)) inc (rg_nets reg2 ! k)) =
      Ready (Inr (snd (duplex_stream_new (\<lambda>k n. (2 * k, 2 * k + 1)) 0 (1024 * 1024))))"
proof -
  have h: "rc_discovery registry_config_default = InProcess" "rg_services (registry_new :: (unit, unit, unit, nat) registry) ''s'' = None"
    "rg_guards (registry_new :: (unit, unit, unit, nat) registry) = []"
    "\<forall>d. rc_connect_timeout registry_config_default = Some d \<longrightarrow> 0 < d" and n: "rc_buffer_size registry_config_default = 1024 * 1024"
    by (simp_all add: registry_config_default_def registry_new_def)
  from bind_then_connect [OF h, of "\<lambda>_. 0" "example_host 7" example_listen Map.empty "\<lambda>_. ()"
      "\<lambda>f. (Pending :: (io_kind + unit) poll, f)" 0 "\<lambda>k n. (2 * k, 2 * k + 1)" 0, where 'h = unit and 's = unit and 'a = unit,
      unfolded Let_def case_prod_beta n]
  show ?thesis by blast
qed

text \<open>On Unix sockets a bind that fails after it took the PID file keeps the lock: the
  service is reported as available, and every later bind in this process is refused as already
  bound, though nothing listens.\<close>

theorem unix_bind_failure_locks:
  assumes "pid_file_new os fs pid_path = (Inr f, fs1)" and "os_remove_refused os path = Some k" and "k \<noteq> NotFound"
  shows "\<exists>h. handle_acceptor os listen fs (SH_Unix path (Lock_Path pid_path)) = (Inl (SocketResetError path k), h, fs1) \<and>
    handle_available os2 fs2 h \<and> handle_acceptor os2 listen2 fs2 h = (Inl AlreadyBound, h, fs2)"
  using assms by (simp add: handle_acceptor_def remove_file_def handle_available_def pid_lock_available_def)

theorem unix_bind_failure_locks_witness:
  "\<exists>h. handle_acceptor ((example_host 7)\<lparr>os_remove_refused := (\<lambda>_. Some PermissionDenied)\<rparr>) example_listen Map.empty
      (SH_Unix ''s.svc'' (Lock_Path ''s.pid'')) = (Inl (SocketResetError ''s.svc'' PermissionDenied), h, [''s.pid'' \<mapsto> int_text 7]) \<and>
    handle_acceptor (example_host 7) example_listen Map.empty h = (Inl AlreadyBound, h, Map.empty)"
proof -
  let ?os = "(example_host 7)\<lparr>os_remove_refused := (\<lambda>_. Some PermissionDenied)\<rparr>"
  have new: "pid_file_new ?os Map.empty ''s.pid'' = (Inr \<lparr>pf_path = ''s.pid''\<rparr>, [''s.pid'' \<mapsto> int_text 7])"
    by (simp add: pid_file_new_def pid_file_check_def pid_file_create_def example_host_def write_file_def)
  have refused: "os_remove_refused ?os ''s.svc'' = Some PermissionDenied" by simp
  have kind: "PermissionDenied \<noteq> NotFound" by simp
  from unix_bind_failure_locks [OF new refused kind, of example_listen "example_host 7" Map.empty example_listen]
  show ?thesis by blast
qed

end
