(* ===== verification/Registry_System.thy ===== *)
theory Registry_System
  imports Discovery
begin

text \<open>
  Many users of one registry (discovery/mod.rs): the steps of binding, looking, connecting and
  dropping connections over a shared registry, and the invariant of its state: the guards of
  its map are exactly those of the connections in flight, and every in-process service has a
  network of its own.
\<close>

section \<open>Steps\<close>

type_synonym ('cfg, 't, 'u, 'io, 'uf) registry_world = "('cfg, 't, 'u, 'io) registry \<times> files \<times> 'uf registry_connect list"

text \<open>
  Each step may use a configuration of its own, as clones of a registry do. Servers accept on
  the networks of the registry, and other programs change the files, at any time.
\<close>

inductive registry_run ::
  "(string \<Rightarrow> nat) \<Rightarrow> host \<Rightarrow> (files \<Rightarrow> string \<Rightarrow> (io_kind + 'u) \<times> files) \<Rightarrow> (string \<Rightarrow> 'uf) \<Rightarrow> ('uf \<Rightarrow> (io_kind + 'us) poll \<times> 'uf)
     \<Rightarrow> ('cfg, 't, 'u, 'io, 'uf) registry_world \<Rightarrow> ('cfg, 't, 'u, 'io, 'uf) registry_world \<Rightarrow> bool"
  for shard os listen uconnect upoll where
  rr_bind: "registry_bind shard os listen fs conf name reg = Some (r, reg', fs') \<Longrightarrow>
     registry_run shard os listen uconnect upoll (reg, fs, futs) (reg', fs', futs)"
| rr_look: "registry_is_available shard os fs conf name reg = Some (b, reg') \<Longrightarrow>
     registry_run shard os listen uconnect upoll (reg, fs, futs) (reg', fs, futs)"
| rr_connect: "registry_run shard os listen uconnect upoll (reg, fs, futs) (reg, fs, futs @ [RC_Start name])"
| rr_poll: "j < length futs \<Longrightarrow>
     registry_connect_poll shard uconnect upoll conf now (futs ! j) reg =
       Some (r :: (registry_error + (unit, unit, unit, ('t, 'io, 'us) registry_stream) client_stream) poll, f', reg') \<Longrightarrow>
     registry_run shard os listen uconnect upoll (reg, fs, futs) (reg', fs, futs[j := f'])"
| rr_drop: "j < length futs \<Longrightarrow>
     registry_run shard os listen uconnect upoll (reg, fs, futs) (registry_connect_drop (futs ! j) reg, fs, remove_at j futs)"
| rr_serve: "length nets = length (rg_nets reg) \<Longrightarrow>
     registry_run shard os listen uconnect upoll (reg, fs, futs) (reg\<lparr>rg_nets := nets\<rparr>, fs, futs)"
| rr_files: "registry_run shard os listen uconnect upoll (reg, fs, futs) (reg, fs', futs)"

inductive_cases registry_runE: "registry_run shard os listen uconnect upoll (reg, fs, futs) w"

section \<open>The invariant\<close>

text \<open>The names whose guard a future holds.\<close>

fun guard_names :: "'uf registry_connect \<Rightarrow> string multiset" where
  "guard_names (RC_Waiting name w) = {#name#}"
| "guard_names _ = {#}"

text \<open>A handle is on a network of the registry, and so is its acceptor if it is still there.\<close>

definition handle_ok :: "nat \<Rightarrow> ('cfg, 't, 'u) registry_acceptor service_handle \<Rightarrow> bool" where
  "handle_ok n h = (case h of
     SH_Duplex acceptor k \<Rightarrow> k < n \<and> (\<forall>a. acceptor = Some a \<longrightarrow> (\<exists>inc. a = Acc_NoTls (Braid_Duplex (k, inc))))
   | SH_Unix path lock \<Rightarrow> True)"

text \<open>The network of a name, if it is an in-process service.\<close>

definition network :: "('cfg, 't, 'u, 'io) registry \<Rightarrow> string \<Rightarrow> nat option" where
  "network reg name = (case rg_services reg name of Some (SH_Duplex _ k) \<Rightarrow> Some k | _ \<Rightarrow> None)"

fun request_ok :: "('cfg, 't, 'u, 'io) registry \<Rightarrow> string \<Rightarrow> 'uf handle_connect \<Rightarrow> bool" where
  "request_ok reg name (HC_Duplex k c) = (network reg name = Some k)"
| "request_ok reg name (HC_Unix path f) = True"

fun flight_ok :: "('cfg, 't, 'u, 'io) registry \<Rightarrow> 'uf registry_connect \<Rightarrow> bool" where
  "flight_ok reg (RC_Waiting name w) = request_ok reg name (waiting_request w)"
| "flight_ok reg _ = True"

definition services_ok :: "('cfg, 't, 'u, 'io) registry \<Rightarrow> bool" where
  "services_ok reg \<longleftrightarrow> (\<forall>name h. rg_services reg name = Some h \<longrightarrow> handle_ok (length (rg_nets reg)) h) \<and>
     (\<forall>p q k. network reg p = Some k \<longrightarrow> network reg q = Some k \<longrightarrow> p = q)"

definition guards_ok :: "('cfg, 't, 'u, 'io) registry \<Rightarrow> 'uf registry_connect list \<Rightarrow> bool" where
  "guards_ok reg futs \<longleftrightarrow> mset (rg_guards reg) = list_msum guard_names futs"

definition world_ok :: "('cfg, 't, 'u, 'io, 'uf) registry_world \<Rightarrow> bool" where
  "world_ok w = (case w of (reg, fs, futs) \<Rightarrow>
     services_ok reg \<and> guards_ok reg futs \<and> list_all (flight_ok reg) futs)"

text \<open>What an operation may do to the services: names stay on their networks, new ones get new ones.\<close>

definition extends :: "('cfg, 't, 'u, 'io) registry \<Rightarrow> ('cfg, 't, 'u, 'io) registry \<Rightarrow> bool" where
  "extends reg reg' \<longleftrightarrow> services_ok reg' \<and> (\<forall>name k. network reg name = Some k \<longrightarrow> network reg' name = Some k)"

lemma extends_flight: "extends reg reg' \<Longrightarrow> flight_ok reg f \<Longrightarrow> flight_ok reg' f"
proof (cases f)
  case (RC_Waiting name w)
  assume "extends reg reg'" and "flight_ok reg f"
  with RC_Waiting show ?thesis by (cases "waiting_request w") (auto simp: extends_def)
qed auto

lemma network_lt: "services_ok reg \<Longrightarrow> network reg name = Some k \<Longrightarrow> k < length (rg_nets reg)"
  by (fastforce simp: services_ok_def network_def handle_ok_def split: option.splits service_handle.splits)

lemma network_simps [simp]:
  "network (reg\<lparr>rg_nets := nets\<rparr>) = network reg" "network (reg\<lparr>rg_guards := gs\<rparr>) = network reg"
  by (simp_all add: network_def fun_eq_iff)

lemma request_ok_frame [simp]:
  "request_ok (reg\<lparr>rg_nets := nets\<rparr>) name h = request_ok reg name h" "request_ok (reg\<lparr>rg_guards := gs\<rparr>) name h = request_ok reg name h"
  by (cases h; simp)+

lemma services_ok_frame [simp]:
  "services_ok (reg\<lparr>rg_guards := gs\<rparr>) = services_ok reg"
  "length nets = length (rg_nets reg) \<Longrightarrow> services_ok (reg\<lparr>rg_nets := nets\<rparr>) = services_ok reg"
  by (simp_all add: services_ok_def)

lemma extends_frame:
  "services_ok reg \<Longrightarrow> length nets = length (rg_nets reg) \<Longrightarrow> extends reg (reg\<lparr>rg_nets := nets, rg_guards := gs\<rparr>)"
  by (simp add: extends_def)

lemma extends_refl: "services_ok reg \<Longrightarrow> extends reg reg"
  by (simp add: extends_def)

lemma extends_trans: "extends reg reg1 \<Longrightarrow> extends reg1 reg2 \<Longrightarrow> extends reg reg2"
  by (auto simp: extends_def)

section \<open>Services\<close>

lemma get_mut_extends:
  assumes "registry_get_mut shard conf name reg = Some (h, reg')" and "services_ok reg"
  shows "extends reg reg'"
proof (cases "rg_services reg name")
  case (Some h0)
  with assms show ?thesis by (auto simp: registry_get_mut_def extends_refl split: if_splits)
next
  case None
  then have none: "network reg name = None" by (simp add: network_def)
  show ?thesis
  proof (cases "rc_discovery conf")
    case InProcess
    with assms None obtain net where hd: "handle_duplex (length (rg_nets reg)) = (h, net)"
      and r: "reg' = reg\<lparr>rg_services := (rg_services reg)(name \<mapsto> h), rg_nets := rg_nets reg @ [net]\<rparr>"
      by (auto simp: registry_get_mut_def Let_def split: if_splits prod.splits)
    then have h: "h = SH_Duplex (Some (Acc_NoTls (Braid_Duplex (length (rg_nets reg), incoming_new)))) (length (rg_nets reg))"
      by (simp add: handle_duplex_def acceptor_new_def duplex_pair_def split_beta Let_def)
    then have n: "network reg' q = (if q = name then Some (length (rg_nets reg)) else network reg q)" for q
      by (simp add: r network_def)
    have "services_ok reg'"
      unfolding services_ok_def n
    proof (intro conjI allI impI)
      fix q h' assume "rg_services reg' q = Some h'"
      with assms(2) show "handle_ok (length (rg_nets reg')) h'"
        by (fastforce simp: r h services_ok_def handle_ok_def split: service_handle.splits if_splits)
    next
      fix p q k
      assume "(if p = name then Some (length (rg_nets reg)) else network reg p) = Some k"
        and "(if q = name then Some (length (rg_nets reg)) else network reg q) = Some k"
      with network_lt [OF assms(2), of p k] network_lt [OF assms(2), of q k] assms(2) show "p = q"
        by (auto simp: services_ok_def split: if_splits)
    qed
    with n none show ?thesis by (auto simp: extends_def)
  next
    case (Unix_Directory path)
    with assms None have r: "reg' = reg\<lparr>rg_services := (rg_services reg)(name \<mapsto> handle_unix path name)\<rparr>"
      by (auto simp: registry_get_mut_def Let_def split: if_splits)
    have n: "network reg' q = network reg q" for q
      using none by (simp add: r network_def handle_unix_def)
    with assms(2) show ?thesis
      by (auto simp: r extends_def services_ok_def handle_ok_def handle_unix_def)
  qed
qed

lemma get_extends:
  assumes "registry_get shard conf name reg = Some (h, reg')" and "services_ok reg"
  shows "extends reg reg'" and "rg_guards reg' = rg_guards reg"
  using assms get_mut_extends [of shard conf name reg h reg'] get_mut_services(3) [of shard conf name reg h reg']
  by (auto simp: registry_get_def extends_refl split: option.splits)

lemma acceptor_network:
  assumes "handle_acceptor os listen fs h = (r, h', fs')" and "handle_ok n h"
  shows "handle_ok n h'" and "r = Inr (Acc_NoTls (Braid_Duplex (k, inc))) \<Longrightarrow> \<exists>acc. h = SH_Duplex acc k"
    and "(case h' of SH_Duplex _ k \<Rightarrow> Some k | _ \<Rightarrow> None) = (case h of SH_Duplex _ k \<Rightarrow> Some k | _ \<Rightarrow> None)"
  using assms
  by (auto simp: handle_acceptor_def handle_ok_def acceptor_new_def ok_or_def Let_def
      split: service_handle.splits pid_lock.splits prod.splits sum.splits if_splits io_kind.splits option.splits)

lemma bind_extends:
  assumes "registry_bind shard os listen fs conf name reg = Some (r, reg', fs')" and "services_ok reg"
  shows "extends reg reg'" and "rg_guards reg' = rg_guards reg"
    and "r = Inr (Acc_NoTls (Braid_Duplex (k, inc))) \<Longrightarrow> network reg' name = Some k"
proof -
  from assms(1) obtain r0 h reg1 h' where g: "registry_get_mut shard conf name reg = Some (h, reg1)"
    and a: "handle_acceptor os listen fs h = (r0, h', fs')" and r: "reg' = reg1\<lparr>rg_services := (rg_services reg1)(name \<mapsto> h')\<rparr>"
    and e: "r = map_err (bind_error_new name) r0"
    by (auto simp: registry_bind_def registry_bind_inner_def split: option.splits prod.splits)
  note x = get_mut_extends [OF g assms(2)] and s = get_mut_services [OF g]
  from x s(1) have h: "handle_ok (length (rg_nets reg1)) h" by (auto simp: extends_def services_ok_def)
  note net = acceptor_network [OF a h]
  have n: "network reg' q = network reg1 q" for q
    using net(3) s(1) by (simp add: r network_def)
  have "services_ok reg'"
    using x net(1) unfolding services_ok_def n by (auto simp: extends_def services_ok_def r)
  with x n show "extends reg reg'" by (auto simp: extends_def)
  show "rg_guards reg' = rg_guards reg" by (simp add: r s(3))
  show "network reg' name = Some k" if "r = Inr (Acc_NoTls (Braid_Duplex (k, inc)))"
  proof -
    from that e have "r0 = Inr (Acc_NoTls (Braid_Duplex (k, inc)))" by (cases r0) simp_all
    with net(2) s(1) n show ?thesis by (auto simp: network_def)
  qed
qed

section \<open>Connections\<close>

lemma handle_poll_frame:
  "handle_connect_poll upoll name h nets = (r, h', nets') \<Longrightarrow>
     length nets' = length nets \<and> request_ok reg q h' = request_ok reg q h"
  by (cases h) (auto split: prod.splits simp del: connect_poll.simps)

lemma handle_drop_frame: "length (handle_connect_drop h nets) = length nets"
  by (cases h) simp_all

lemma waiting_poll_frame:
  "waiting_connect_poll upoll now name w nets = (r, w', nets') \<Longrightarrow>
     length nets' = length nets \<and> request_ok reg q (waiting_request w') = request_ok reg q (waiting_request w)"
  by (cases w) (auto split: prod.splits if_splits dest!: handle_poll_frame [where reg = reg and q = q] simp: handle_drop_frame simp del: handle_connect_poll.simps)

lemma waiting_start_request: "waiting_request (waiting_connect_start conf now h) = h"
  by (simp add: waiting_connect_start_def split: option.splits)

lemma flight_waiting_ok:
  assumes "registry_connect_waiting upoll now name w reg = (r, f', reg')" and "services_ok reg"
    and "request_ok reg name (waiting_request w)" and "name \<in> set (rg_guards reg)"
  shows "extends reg reg' \<and> flight_ok reg' f' \<and> mset (rg_guards reg') + {#name#} = mset (rg_guards reg) + guard_names f'"
proof -
  from assms(1) obtain r0 w' nets where p: "waiting_connect_poll upoll now name w (rg_nets reg) = (r0, w', nets)"
    and e: "(if r0 = Pending then (Pending, RC_Waiting name w', reg\<lparr>rg_nets := nets\<rparr>)
      else (r0, RC_Done, reg\<lparr>rg_nets := nets, rg_guards := remove1 name (rg_guards (reg\<lparr>rg_nets := nets\<rparr>))\<rparr>)) = (r, f', reg')"
    by (auto simp: registry_connect_waiting_def Let_def split: prod.splits)
  from waiting_poll_frame [OF p, of reg name] e assms(2,3,4) show ?thesis
    by (auto simp: extends_def split: if_splits)
qed

lemma flight_poll_ok:
  assumes "registry_connect_poll shard uconnect upoll conf now f reg = Some (r, f', reg')" and "services_ok reg"
    and "flight_ok reg f" and "guard_names f \<subseteq># mset (rg_guards reg)"
  shows "extends reg reg' \<and> flight_ok reg' f' \<and> mset (rg_guards reg') + guard_names f = mset (rg_guards reg) + guard_names f'"
proof (cases f)
  case (RC_Start name)
  then obtain h reg1 where g: "registry_get shard conf name reg = Some (h, reg1)"
    and w: "registry_connect_waiting upoll now name (waiting_connect_start conf now (handle_connect_start uconnect conf h))
      (reg1\<lparr>rg_guards := name # rg_guards reg1\<rparr>) = (r, f', reg')"
    using assms(1) by (auto split: option.splits)
  note x = get_extends [OF g assms(2)]
  have s: "services_ok (reg1\<lparr>rg_guards := name # rg_guards reg1\<rparr>)" using x(1) by (simp add: extends_def)
  have q: "request_ok (reg1\<lparr>rg_guards := name # rg_guards reg1\<rparr>) name
      (waiting_request (waiting_connect_start conf now (handle_connect_start uconnect conf h)))"
    using get_services(1) [OF g] by (simp add: waiting_start_request handle_connect_start_def network_def split: service_handle.splits)
  from flight_waiting_ok [OF w s q] have e: "extends (reg1\<lparr>rg_guards := name # rg_guards reg1\<rparr>) reg'" "flight_ok reg' f'"
      "mset (rg_guards reg') = mset (rg_guards reg1) + guard_names f'" by auto
  from x(1) e(1) have "extends reg reg'" by (auto simp: extends_def)
  with e x(2) RC_Start show ?thesis by simp
next
  case (RC_Waiting name w)
  with assms flight_waiting_ok [of upoll now name w reg r f' reg'] show ?thesis by simp
next
  case RC_Done
  with assms show ?thesis by (simp add: extends_refl)
qed

lemma flight_drop_ok:
  assumes "services_ok reg" and "guard_names f \<subseteq># mset (rg_guards reg)"
  shows "extends reg (registry_connect_drop f reg) \<and> mset (rg_guards (registry_connect_drop f reg)) + guard_names f = mset (rg_guards reg)"
  using assms by (cases f) (simp_all add: extends_refl extends_frame handle_drop_frame)

section \<open>Reachable registries\<close>

lemma flights_extend: "extends reg reg' \<Longrightarrow> list_all (flight_ok reg) futs \<Longrightarrow> list_all (flight_ok reg') futs"
  by (auto simp: list_all_iff intro: extends_flight)

lemma guards_at:
  "guards_ok reg futs \<Longrightarrow> j < length futs \<Longrightarrow>
     mset (rg_guards reg) = guard_names (futs ! j) + list_msum guard_names (remove_at j futs)"
  by (simp add: guards_ok_def list_msum_split)

lemma run_ok:
  assumes "registry_run shard os listen uconnect upoll (reg, fs, futs) (reg', fs', futs')" and "world_ok (reg, fs, futs)"
  shows "extends reg reg' \<and> world_ok (reg', fs', futs')"
proof -
  from assms(2) have s: "services_ok reg" and g: "guards_ok reg futs" and f: "list_all (flight_ok reg) futs"
    by (simp_all add: world_ok_def)
  have keep: "extends reg reg' \<and> world_ok (reg', fs', futs)" if "extends reg reg'" "rg_guards reg' = rg_guards reg"
    using that g flights_extend [OF that(1) f] by (simp add: world_ok_def extends_def guards_ok_def)
  from assms(1) show ?thesis
  proof (cases rule: registry_run.cases)
    case (rr_bind conf name r)
    with keep bind_extends(1,2) [OF rr_bind(2) s] show ?thesis by simp
  next
    case (rr_look conf name b)
    then obtain h where "registry_get shard conf name reg = Some (h, reg')" by (auto simp: registry_is_available_def)
    from keep get_extends [OF this s] rr_look show ?thesis by simp
  next
    case (rr_connect name)
    with s g f show ?thesis by (simp add: world_ok_def guards_ok_def extends_refl)
  next
    case (rr_poll j conf now r f')
    note at = guards_at [OF g rr_poll(3)]
    have "flight_ok reg (futs ! j)" using f rr_poll(3) by (simp add: list_all_length)
    from flight_poll_ok [OF rr_poll(4) s this] at have e: "extends reg reg'" "flight_ok reg' f'"
      "mset (rg_guards reg') = list_msum guard_names (remove_at j futs) + guard_names f'" by auto
    have "list_all (flight_ok reg') (futs[j := f'])"
      using flights_extend [OF e(1) f] e(2) by (auto simp: list_all_iff dest!: set_update_subset_insert [THEN subsetD])
    moreover have "guards_ok reg' (futs[j := f'])"
      using e(3) list_msum_update [OF rr_poll(3), of guard_names f'] list_msum_split [OF rr_poll(3), of guard_names]
      by (simp add: guards_ok_def)
    ultimately show ?thesis using e(1) rr_poll by (simp add: world_ok_def extends_def)
  next
    case (rr_drop j)
    note at = guards_at [OF g rr_drop(4)]
    then have "guard_names (futs ! j) \<subseteq># mset (rg_guards reg)" by simp
    from flight_drop_ok [OF s this] at rr_drop have e: "extends reg reg'" "guards_ok reg' futs'" by (auto simp: guards_ok_def)
    with flights_extend [OF e(1) f] rr_drop set_remove_at [of j futs] show ?thesis
      by (auto simp: world_ok_def extends_def list_all_iff)
  next
    case (rr_serve nets)
    with keep s show ?thesis by (simp add: extends_def)
  next
    case rr_files
    with keep s show ?thesis by (simp add: extends_refl)
  qed
qed

lemma world_ok_new: "world_ok (registry_new, fs, [])"
  by (simp add: world_ok_def services_ok_def guards_ok_def registry_new_def network_def)

lemma run_reachable:
  assumes "(registry_run shard os listen uconnect upoll)\<^sup>*\<^sup>* w w'" and "world_ok w"
  shows "world_ok w' \<and> extends (fst w) (fst w')"
  using assms
proof (induction rule: rtranclp_induct)
  case base
  then show ?case by (cases w) (simp add: world_ok_def extends_refl)
next
  case (step w1 w2)
  obtain reg fs futs where w1: "w1 = (reg, fs, futs)" using prod_cases3 by blast
  obtain reg' fs' futs' where w2: "w2 = (reg', fs', futs')" using prod_cases3 by blast
  from run_ok [OF step.hyps(2) [unfolded w1 w2]] step.IH [OF step.prems] show ?case
    unfolding w1 w2 by (auto intro: extends_trans)
qed

lemma bind_blocks_iff: "registry_bind shard os listen fs conf name reg = None \<longleftrightarrow> write_blocked shard reg name"
  by (auto simp: registry_bind_def registry_bind_inner_def registry_get_mut_def Let_def
      split: option.splits service_discovery.splits prod.splits)

lemma guard_iff: "guards_ok reg futs \<Longrightarrow> q \<in> set (rg_guards reg) \<longleftrightarrow> (\<exists>w. RC_Waiting q w \<in> set futs)"
proof -
  assume "guards_ok reg futs"
  then have "q \<in> set (rg_guards reg) \<longleftrightarrow> q \<in># list_msum guard_names futs"
    by (metis guards_ok_def set_mset_mset)
  also have "\<dots> \<longleftrightarrow> (\<exists>f \<in> set futs. q \<in># guard_names f)" by (induction futs) auto
  also have "\<dots> \<longleftrightarrow> (\<exists>w. RC_Waiting q w \<in> set futs)"
  proof
    assume "\<exists>f \<in> set futs. q \<in># guard_names f"
    then obtain f where f: "f \<in> set futs" "q \<in># guard_names f" by blast
    from f(2) obtain w where "f = RC_Waiting q w" by (cases f) auto
    with f(1) show "\<exists>w. RC_Waiting q w \<in> set futs" by blast
  next
    assume "\<exists>w. RC_Waiting q w \<in> set futs"
    then show "\<exists>f \<in> set futs. q \<in># guard_names f" by force
  qed
  finally show ?thesis .
qed

section \<open>Properties\<close>

text \<open>C36: however a registry is used, its state is well-formed: every in-process service is on
  a network of its own, the guards of the map are those of the connections in flight, and so
  binding a name blocks exactly while a connection to a name of the same shard is in flight.\<close>

theorem registry_guards:
  assumes "(registry_run shard os listen uconnect upoll)\<^sup>*\<^sup>* (registry_new, fs0, []) (reg, fs, futs)"
  shows "(\<forall>p q k. network reg p = Some k \<longrightarrow> k < length (rg_nets reg) \<and> (network reg q = Some k \<longrightarrow> p = q)) \<and>
    mset (rg_guards reg) = list_msum guard_names futs \<and>
    (registry_bind shard os2 listen2 fs2 conf name reg = None \<longleftrightarrow>
      (\<exists>q w. RC_Waiting q w \<in> set futs \<and> shard q = shard name))"
proof -
  from run_reachable [OF assms world_ok_new] have ok: "services_ok reg" "guards_ok reg futs" by (simp_all add: world_ok_def)
  have "write_blocked shard reg name \<longleftrightarrow> (\<exists>q. q \<in> set (rg_guards reg) \<and> shard q = shard name)"
    by (auto simp: write_blocked_def list_ex_iff)
  with guard_iff [OF ok(2)] have "registry_bind shard os2 listen2 fs2 conf name reg = None \<longleftrightarrow>
      (\<exists>q w. RC_Waiting q w \<in> set futs \<and> shard q = shard name)" by (auto simp: bind_blocks_iff)
  with ok network_lt [OF ok(1)] show ?thesis by (auto simp: services_ok_def guards_ok_def)
qed

text \<open>A connection to \<open>''b''\<close> in flight on a registry, after one poll.\<close>

lemma example_flight:
  fixes reg :: "(unit, unit, unit, nat) registry"
  assumes "rg_services reg ''b'' = None" and "rg_guards reg = []"
  shows "\<exists>w reg'. (registry_run shard os listen (\<lambda>_. ()) (\<lambda>f. (Pending :: (io_kind + unit) poll, f)))\<^sup>*\<^sup>*
      (reg, fs, []) (reg', fs, [RC_Waiting ''b'' w])"
proof -
  let ?run = "registry_run shard os listen (\<lambda>_. ()) (\<lambda>f. (Pending :: (io_kind + unit) poll, f))"
  have free: "\<not> write_blocked shard reg ''b''" by (simp add: assms write_blocked_def)
  have conf: "rc_discovery registry_config_default = InProcess" "rc_connect_timeout registry_config_default = None"
    by (simp_all add: registry_config_default_def)
  from stuck_first [OF conf assms(1) free] obtain f reg' where
    p: "registry_connect_poll shard (\<lambda>_. ()) (\<lambda>f. (Pending :: (io_kind + unit) poll, f)) registry_config_default 0 (RC_Start ''b'') reg =
      Some (Pending :: (registry_error + (unit, unit, unit, (unit, nat, unit) registry_stream) client_stream) poll, f, reg')"
    and f: "stuck ''b'' (length (rg_nets reg)) f reg'" by blast
  from f obtain w where w: "f = RC_Waiting ''b'' w" by (auto simp: stuck_def)
  have "?run (reg, fs, []) (reg, fs, [] @ [RC_Start ''b''])" by (rule rr_connect)
  then have "?run (reg, fs, []) (reg, fs, [RC_Start ''b''])" by simp
  moreover have "?run (reg, fs, [RC_Start ''b'']) (reg', fs, [RC_Start ''b''][0 := f])"
    by (rule rr_poll) (use p in simp_all)
  then have "?run (reg, fs, [RC_Start ''b'']) (reg', fs, [RC_Waiting ''b'' w])" by (simp add: w)
  ultimately have "?run\<^sup>*\<^sup>* (reg, fs, []) (reg', fs, [RC_Waiting ''b'' w])"
    by (meson rtranclp.rtrancl_refl rtranclp.rtrancl_into_rtrancl)
  then show ?thesis by blast
qed

theorem registry_guards_witness:
  "\<exists>reg' :: (unit, unit, unit, nat) registry. rg_guards reg' = [''b''] \<and>
     registry_bind length (example_host 7) example_listen Map.empty registry_config_default ''a'' reg' = None \<and>
     registry_bind length (example_host 7) example_listen Map.empty registry_config_default ''aa'' reg' \<noteq> None"
proof -
  obtain w and reg' :: "(unit, unit, unit, nat) registry" where
    r: "(registry_run length (example_host 7) example_listen (\<lambda>_. ()) (\<lambda>f. (Pending :: (io_kind + unit) poll, f)))\<^sup>*\<^sup>*
      (registry_new, Map.empty, []) (reg', Map.empty, [RC_Waiting ''b'' w])"
    using example_flight [of registry_new length "example_host 7" example_listen Map.empty] by (auto simp: registry_new_def)
  from registry_guards [OF r, of "example_host 7" example_listen Map.empty registry_config_default]
  show ?thesis by (intro exI [of _ reg']) simp
qed

text \<open>C35: services are isolated: after a name has been bound in process, whatever happens, a
  connection that waits on the network of its acceptor is one that was made to that name.\<close>

theorem registry_isolated:
  assumes "(registry_run shard os listen uconnect upoll)\<^sup>*\<^sup>* (registry_new, fs0, []) (reg, fs, futs)"
    and "registry_bind shard os listen fs conf name reg = Some (Inr (Acc_NoTls (Braid_Duplex (k, inc))), reg1, fs1)"
    and "(registry_run shard os listen uconnect upoll)\<^sup>*\<^sup>* (reg1, fs1, futs) (reg2, fs2, futs2)"
    and "RC_Waiting q w \<in> set futs2" and "waiting_request w = HC_Duplex k c"
  shows "q = name"
proof -
  from run_reachable [OF assms(1) world_ok_new] have ok: "world_ok (reg, fs, futs)" by simp
  then have s: "services_ok reg" by (simp add: world_ok_def)
  have "registry_run shard os listen uconnect upoll (reg, fs, futs) (reg1, fs1, futs)" by (rule rr_bind [OF assms(2)])
  from run_ok [OF this ok] have "world_ok (reg1, fs1, futs)" by simp
  from run_reachable [OF assms(3) this] have ok2: "world_ok (reg2, fs2, futs2)" and x: "extends reg1 reg2" by simp_all
  from bind_extends(3) [OF assms(2) s] x have "network reg2 name = Some k" by (auto simp: extends_def)
  moreover have "network reg2 q = Some k" using ok2 assms(4,5) by (auto simp: world_ok_def list_all_iff)
  ultimately show ?thesis using ok2 by (auto simp: world_ok_def services_ok_def)
qed

theorem registry_isolated_witness:
  "\<exists>(reg2 :: (unit, unit, unit, nat) registry) w. rg_guards reg2 = [''b''] \<and>
     (registry_run length (example_host 7) example_listen (\<lambda>_. ()) (\<lambda>f. (Pending :: (io_kind + unit) poll, f)))\<^sup>*\<^sup>*
       (registry_new, Map.empty, []) (reg2, Map.empty, [RC_Waiting ''b'' w]) \<and>
     (\<nexists>c. waiting_request w = HC_Duplex 0 c)"
proof -
  let ?run = "registry_run length (example_host 7) example_listen (\<lambda>_. ()) (\<lambda>f. (Pending :: (io_kind + unit) poll, f))"
  let ?reg = "registry_new\<lparr>rg_services := [''a'' \<mapsto> SH_Duplex None 0], rg_nets := [fst duplex_pair]\<rparr> :: (unit, unit, unit, nat) registry"
  have b: "registry_bind length (example_host 7) example_listen Map.empty registry_config_default ''a'' registry_new =
      Some (Inr (Acc_NoTls (Braid_Duplex (0, incoming_new))), ?reg, Map.empty)"
    by (simp add: registry_bind_def registry_bind_inner_def registry_get_mut_def write_blocked_def registry_new_def
      registry_config_default_def handle_duplex_def duplex_pair_def handle_acceptor_def acceptor_new_def)
  obtain w reg2 where r: "?run\<^sup>*\<^sup>* (?reg, Map.empty, []) (reg2, Map.empty, [RC_Waiting ''b'' w])"
    using example_flight [of ?reg length "example_host 7" example_listen Map.empty] by (auto simp: registry_new_def)
  have "\<nexists>c. waiting_request w = HC_Duplex 0 c"
    using registry_isolated [OF rtranclp.rtrancl_refl b r, of "''b''" w] by auto
  moreover have "?run\<^sup>*\<^sup>* (registry_new, Map.empty, []) (reg2, Map.empty, [RC_Waiting ''b'' w])"
    using r rr_bind [OF b] by (rule converse_rtranclp_into_rtranclp [rotated])
  moreover from run_reachable [OF this world_ok_new] have "rg_guards reg2 = [''b'']"
    by (simp add: world_ok_def guards_ok_def)
  ultimately show ?thesis by blast
qed

end
