(* ===== verification/Registry_Transport.thy ===== *)
theory Registry_Transport
  imports Discovery Server Client_Builder
begin

text \<open>
  The transport of the service registry (discovery/transport.rs): schemes that read the name of
  a service off a URI, the transport that connects to it, and the clients and servers that a
  registry makes (discovery/mod.rs).
\<close>

section \<open>Schemes\<close>

text \<open>The trait \<open>Scheme\<close>: the scheme served, and the name of the service a URI asks for.\<close>

record scheme =
  sc_scheme :: string
  sc_service :: "uri \<Rightarrow> string option"

text \<open>\<open>Uri::path\<close> is the path without the query.\<close>

definition uri_path :: "uri \<Rightarrow> string" where
  "uri_path u =
     (case u_path u of
        None \<Rightarrow> []
      | Some p \<Rightarrow> (let q = takeWhile (\<lambda>c. c \<noteq> CHR ''?'') p in if q = [] then ''/'' else q))"

text \<open>
  \<open>Utf8Path::components\<close>: the root, then the parts between slashes; empty parts are left out,
  and \<open>.\<close> everywhere but at the start of a relative path.
\<close>

fun split_slash :: "string \<Rightarrow> string list" where
  "split_slash [] = [[]]"
| "split_slash (c # cs) =
     (if c = CHR ''/'' then [] # split_slash cs
      else case split_slash cs of p # ps \<Rightarrow> (c # p) # ps | [] \<Rightarrow> [[c]])"

definition path_components :: "string \<Rightarrow> string list" where
  "path_components p =
     (if p \<noteq> [] \<and> hd p = CHR ''/'' then ''/'' # filter (\<lambda>c. c \<noteq> [] \<and> c \<noteq> ''.'') (split_slash p)
      else filter (\<lambda>c. c \<noteq> []) (take 1 (split_slash p)) @ filter (\<lambda>c. c \<noteq> [] \<and> c \<noteq> ''.'') (drop 1 (split_slash p)))"

definition svc_scheme_new :: "string \<Rightarrow> scheme" where
  "svc_scheme_new s = \<lparr>sc_scheme = s, sc_service = uri_host\<rparr>"

definition svc_scheme_default :: scheme where
  "svc_scheme_default = svc_scheme_new ''svc''"

definition grpc_service :: "uri \<Rightarrow> string option" where
  "grpc_service u = (case drop 1 (path_components (uri_path u)) of [] \<Rightarrow> None | c # _ \<Rightarrow> Some c)"

definition grpc_scheme_new :: "string \<Rightarrow> scheme" where
  "grpc_scheme_new s = \<lparr>sc_scheme = s, sc_service = grpc_service\<rparr>"

definition grpc_scheme_default :: scheme where
  "grpc_scheme_default = grpc_scheme_new ''grpc''"

section \<open>The transport\<close>

record registry_transport =
  rt_registry :: service_registry
  rt_schemes :: "string \<rightharpoonup> scheme"

definition transport_builder :: "service_registry \<Rightarrow> registry_transport" where
  "transport_builder r = \<lparr>rt_registry = r, rt_schemes = Map.empty\<rparr>"

definition add_scheme :: "scheme \<Rightarrow> registry_transport \<Rightarrow> registry_transport" where
  "add_scheme s b = b\<lparr>rt_schemes := (rt_schemes b)(sc_scheme s \<mapsto> s)\<rparr>"

definition add_default_schemes :: "registry_transport \<Rightarrow> registry_transport" where
  "add_default_schemes b = add_scheme grpc_scheme_default (add_scheme svc_scheme_default b)"

definition transport_build :: "registry_transport \<Rightarrow> registry_transport" where
  "transport_build b = \<lparr>rt_registry = rt_registry b, rt_schemes = rt_schemes b\<rparr>"

definition with_default_schemes :: "service_registry \<Rightarrow> registry_transport" where
  "with_default_schemes r = transport_build (add_default_schemes (transport_builder r))"

text \<open>The future of a call, and its polls; \<open>None\<close> where the registry blocks the thread.\<close>

datatype ('uf, 'st) registry_call =
  RT_Connecting string "'uf registry_connect" | RT_Handshaking string 'st | RT_Failed registry_error | RT_Done

definition registry_transport_ready :: "registry_transport \<Rightarrow> (registry_error + unit) poll" where
  "registry_transport_ready t = Ready (Inr ())"

definition registry_transport_call :: "registry_transport \<Rightarrow> uri \<Rightarrow> ('uf, 'st) registry_call" where
  "registry_transport_call t req =
     (case Option.bind (u_scheme req) (rt_schemes t) of
        Some scheme \<Rightarrow>
          (case sc_service scheme req of
             Some service \<Rightarrow> RT_Connecting service (RC_Start service)
           | None \<Rightarrow> RT_Failed (Invalid_Service_Uri req))
      | None \<Rightarrow> RT_Failed (Invalid_Service_Uri req))"

type_synonym ('h, 's, 'a, 't, 'io, 'us) registry_client_stream = "('h, 's, 'a, ('t, 'io, 'us) registry_stream) client_stream"

type_synonym ('h, 's, 'a, 't, 'io, 'us) registry_output =
  "(registry_error + (('h, 's, 'a, 't, 'io, 'us) registry_client_stream, 'a) transport_stream) poll"

definition registry_handshake ::
  "('h, 's, ('t, 'io, 'us) registry_stream) rustls \<Rightarrow> (('t, 'io, 'us) registry_stream \<Rightarrow> 'a connection_info) \<Rightarrow> string
     \<Rightarrow> ('h, 's, 'a, 't, 'io, 'us) registry_client_stream
     \<Rightarrow> ('h, 's, 'a, 't, 'io, 'us) registry_output \<times> ('uf, ('h, 's, 'a, 't, 'io, 'us) registry_client_stream) registry_call" where
  "registry_handshake rt info name stream =
     (case transport_new_stream rt info stream of
        (Pending, stream') \<Rightarrow> (Pending, RT_Handshaking name stream')
      | (Panicked, stream') \<Rightarrow> (Panicked, RT_Done)
      | (Ready r, stream') \<Rightarrow> (Ready (map_err (\<lambda>error. Handshake_With error name) r), RT_Done))"

fun registry_call_poll ::
  "('h, 's, ('t, 'io, 'us) registry_stream) rustls \<Rightarrow> (('t, 'io, 'us) registry_stream \<Rightarrow> 'a connection_info) \<Rightarrow> (string \<Rightarrow> nat)
     \<Rightarrow> (string \<Rightarrow> 'uf) \<Rightarrow> ('uf \<Rightarrow> (io_kind + 'us) poll \<times> 'uf) \<Rightarrow> registry_transport \<Rightarrow> instant
     \<Rightarrow> ('uf, ('h, 's, 'a, 't, 'io, 'us) registry_client_stream) registry_call \<Rightarrow> ('cfg, 't, 'u, 'io) registry
     \<Rightarrow> (('h, 's, 'a, 't, 'io, 'us) registry_output \<times> ('uf, ('h, 's, 'a, 't, 'io, 'us) registry_client_stream) registry_call
          \<times> ('cfg, 't, 'u, 'io) registry) option" where
  "registry_call_poll rt info shard uconnect upoll t now (RT_Connecting name f) reg =
     (case registry_connect_poll shard uconnect upoll (sr_config (rt_registry t)) now f reg of
        None \<Rightarrow> None
      | Some (Pending, f', reg') \<Rightarrow> Some (Pending, RT_Connecting name f', reg')
      | Some (Panicked, f', reg') \<Rightarrow> Some (Panicked, RT_Done, reg')
      | Some (Ready (Inl e), f', reg') \<Rightarrow> Some (Ready (Inl e), RT_Done, reg')
      | Some (Ready (Inr stream), f', reg') \<Rightarrow>
          (let (r, g) = registry_handshake rt info name stream in Some (r, g, reg')))"
| "registry_call_poll rt info shard uconnect upoll t now (RT_Handshaking name stream) reg =
     (let (r, g) = registry_handshake rt info name stream in Some (r, g, reg))"
| "registry_call_poll rt info shard uconnect upoll t now (RT_Failed e) reg = Some (Ready (Inl e), RT_Done, reg)"
| "registry_call_poll rt info shard uconnect upoll t now RT_Done reg = Some (Panicked, RT_Done, reg)"

section \<open>Clients and servers of a registry\<close>

definition registry_client_builder ::
  "'b1 \<Rightarrow> 'b2 \<Rightarrow> service_registry \<Rightarrow> (registry_transport, ('b1, 'b2) Client_Proto.http_builder, 'rp, 'cfg) client_builder" where
  "registry_client_builder http1_new http2_new r =
     client_without_tls
       (client_with_pool config_default
         (client_with_protocol (http_builder_default http1_new http2_new)
           (client_with_transport (with_default_schemes r) client_builder_new)))"

definition registry_server ::
  "(string \<Rightarrow> nat) \<Rightarrow> host \<Rightarrow> (files \<Rightarrow> string \<Rightarrow> (io_kind + 'u) \<times> files) \<Rightarrow> files \<Rightarrow> service_registry \<Rightarrow> 'm \<Rightarrow> string
     \<Rightarrow> ('cfg, 't, 'u, 'io) registry
     \<Rightarrow> ((bind_error + (('cfg, 't, 'u) registry_acceptor, Server.http_builder, 'm) server) \<times> ('cfg, 't, 'u, 'io) registry \<times> files) option" where
  "registry_server shard os listen fs r make_service name reg =
     map_option (\<lambda>(acceptor, rest).
         (result_bind acceptor (\<lambda>a. Inr (with_make_service make_service (with_auto_http (with_acceptor a server_builder)))), rest))
       (registry_bind shard os listen fs (sr_config r) name reg)"

definition registry_router :: "('client \<Rightarrow> 'm) \<Rightarrow> 'client \<Rightarrow> 'acc \<Rightarrow> ('acc, Server.http_builder, 'm) server" where
  "registry_router shared client acceptor =
     with_shared_service shared client (with_auto_http (with_acceptor acceptor server_builder))"

section \<open>Names of services\<close>

text \<open>A scheme's function reads the name of the service off the rest of the URI, not off its scheme.\<close>

locale service_names =
  fixes service :: "uri \<Rightarrow> string option"
  assumes scheme_free: "service (u\<lparr>u_scheme := s\<rparr>) = service u"
begin

lemma routes:
  assumes "rt_schemes t s = Some sch" and "sc_service sch = service" and "service u = Some name"
  shows "registry_transport_call t (u\<lparr>u_scheme := Some s\<rparr>) = RT_Connecting name (RC_Start name)"
  using assms by (simp add: registry_transport_call_def scheme_free)

lemma no_name:
  assumes "rt_schemes t s = Some sch" and "sc_service sch = service" and "service u = None"
  shows "registry_transport_call t (u\<lparr>u_scheme := Some s\<rparr>) = RT_Failed (Invalid_Service_Uri (u\<lparr>u_scheme := Some s\<rparr>))"
  using assms by (simp add: registry_transport_call_def scheme_free)

end

interpretation svc: service_names uri_host
  by unfold_locales (simp add: uri_host_def)

interpretation grpc: service_names grpc_service
  by unfold_locales (simp add: grpc_service_def uri_path_def)

lemma default_scheme_map:
  "rt_schemes (with_default_schemes r) =
     [''svc'' \<mapsto> svc_scheme_default, ''grpc'' \<mapsto> grpc_scheme_default]"
  by (simp add: with_default_schemes_def transport_build_def add_default_schemes_def add_scheme_def transport_builder_def
      svc_scheme_default_def svc_scheme_new_def grpc_scheme_default_def grpc_scheme_new_def)

lemma split_slash_part:
  "CHR ''/'' \<notin> set name \<Longrightarrow> split_slash (name @ CHR ''/'' # rest) = name # split_slash rest"
  "CHR ''/'' \<notin> set name \<Longrightarrow> split_slash name = [name]"
  by (induction name) auto

text \<open>A path whose first part is \<open>name\<close>.\<close>

definition first_part :: "string \<Rightarrow> string \<Rightarrow> bool" where
  "first_part name path \<longleftrightarrow> name \<noteq> [] \<and> name \<noteq> ''.'' \<and> CHR ''/'' \<notin> set name \<and> CHR ''?'' \<notin> set name \<and>
     (\<exists>rest. path = ''/'' @ name @ rest \<and> (rest = [] \<or> hd rest = CHR ''/'' \<or> hd rest = CHR ''?''))"

lemma grpc_first_part:
  assumes "u_path u = Some path" and "first_part name path"
  shows "grpc_service u = Some name"
proof -
  from assms(2) obtain rest where path: "path = ''/'' @ name @ rest"
    and rest: "rest = [] \<or> hd rest = CHR ''/'' \<or> hd rest = CHR ''?''"
    and name: "name \<noteq> []" "name \<noteq> ''.''" "CHR ''/'' \<notin> set name" "CHR ''?'' \<notin> set name"
    by (auto simp: first_part_def)
  let ?q = "takeWhile (\<lambda>c. c \<noteq> CHR ''?'') rest"
  have "\<forall>c \<in> set name. c \<noteq> CHR ''?''" using name(4) by auto
  then have "uri_path u = ''/'' @ name @ ?q"
    using assms(1) path by (simp add: uri_path_def takeWhile_append2)
  moreover have "?q = [] \<or> (\<exists>r. ?q = CHR ''/'' # r)" using rest by (cases rest) auto
  ultimately show ?thesis
    using name split_slash_part [OF name(3)] by (auto simp: grpc_service_def path_components_def)
qed

section \<open>Properties\<close>

text \<open>The transport with the default schemes connects \<open>svc\<close> URIs to the service named by
  the host and \<open>grpc\<close> URIs to the one named by the first part of the path, whatever the query;
  URIs of any other scheme, or without a host, are refused as invalid.\<close>

theorem default_routes:
  assumes "u_path u = Some path" and "first_part name path" and "s \<noteq> ''svc''" and "s \<noteq> ''grpc''"
  shows "registry_transport_call (with_default_schemes r) (u\<lparr>u_scheme := Some ''grpc''\<rparr>) =
      (RT_Connecting name (RC_Start name) :: ('uf, 'st) registry_call) \<and>
    registry_transport_call (with_default_schemes r) (u\<lparr>u_scheme := Some ''svc''\<rparr>) =
      ((case u_authority u of Some a \<Rightarrow> RT_Connecting (au_host a) (RC_Start (au_host a))
       | None \<Rightarrow> RT_Failed (Invalid_Service_Uri (u\<lparr>u_scheme := Some ''svc''\<rparr>))) :: ('uf, 'st) registry_call) \<and>
    registry_transport_call (with_default_schemes r) (u\<lparr>u_scheme := Some s\<rparr>) =
      (RT_Failed (Invalid_Service_Uri (u\<lparr>u_scheme := Some s\<rparr>)) :: ('uf, 'st) registry_call)"
proof (intro conjI)
  have g: "rt_schemes (with_default_schemes r) ''grpc'' = Some grpc_scheme_default" "sc_service grpc_scheme_default = grpc_service"
    and v: "rt_schemes (with_default_schemes r) ''svc'' = Some svc_scheme_default" "sc_service svc_scheme_default = uri_host"
    by (simp_all add: default_scheme_map grpc_scheme_default_def grpc_scheme_new_def svc_scheme_default_def svc_scheme_new_def)
  show "registry_transport_call (with_default_schemes r) (u\<lparr>u_scheme := Some ''grpc''\<rparr>) =
      (RT_Connecting name (RC_Start name) :: ('uf, 'st) registry_call)"
    by (rule grpc.routes [OF g grpc_first_part [OF assms(1,2)]])
  show "registry_transport_call (with_default_schemes r) (u\<lparr>u_scheme := Some ''svc''\<rparr>) =
      ((case u_authority u of Some a \<Rightarrow> RT_Connecting (au_host a) (RC_Start (au_host a))
       | None \<Rightarrow> RT_Failed (Invalid_Service_Uri (u\<lparr>u_scheme := Some ''svc''\<rparr>))) :: ('uf, 'st) registry_call)"
    using svc.routes [OF v, of u] svc.no_name [OF v, of u] by (auto simp: uri_host_def split: option.splits)
  show "registry_transport_call (with_default_schemes r) (u\<lparr>u_scheme := Some s\<rparr>) =
      (RT_Failed (Invalid_Service_Uri (u\<lparr>u_scheme := Some s\<rparr>)) :: ('uf, 'st) registry_call)"
    using assms(3,4) by (simp add: registry_transport_call_def default_scheme_map)
qed

theorem default_routes_witness:
  "let u = \<lparr>u_scheme = None, u_authority = Some \<lparr>au_text = ''h'', au_host = ''h'', au_port = None\<rparr>, u_path = Some ''/svc.A/call?x''\<rparr>
   in registry_transport_call (with_default_schemes \<lparr>sr_config = registry_config_default\<rparr>) (u\<lparr>u_scheme := Some ''grpc''\<rparr>) =
      (RT_Connecting ''svc.A'' (RC_Start ''svc.A'') :: (unit, unit) registry_call)"
proof -
  let ?u = "\<lparr>u_scheme = None, u_authority = Some \<lparr>au_text = ''h'', au_host = ''h'', au_port = None\<rparr>, u_path = Some ''/svc.A/call?x''\<rparr>"
  have "first_part ''svc.A'' ''/svc.A/call?x''"
    unfolding first_part_def by (simp add: exI [of _ "''/call?x''"])
  from default_routes [of ?u, OF _ this, of "''http''" "\<lparr>sr_config = registry_config_default\<rparr>", where 'uf = unit and 'st = unit]
  show ?thesis by (simp add: Let_def)
qed

end
