(* ===== verification/Registry_Service.thy ===== *)
theory Registry_Service
  imports Registry_Transport
begin

text \<open>
  The registry from end to end, in process: a server made by \<open>ServiceRegistry::server\<close>
  (discovery/mod.rs), polled as \<open>Serving\<close> (server/mod.rs), and a client that calls the registry's
  transport (discovery/transport.rs) with the URI of the service. Both hold ends of the same
  channel: the model of the acceptor carries the in-memory networks, of which it uses its own.
\<close>

section \<open>The server's acceptor\<close>

definition pair_accept ::
  "(nat \<Rightarrow> usize \<Rightarrow> 'io \<times> 'io) \<Rightarrow> ((nat \<times> duplex_incoming) \<times> 'io duplex_net list, 'io duplex_stream) acceptor" where
  "pair_accept mk a =
     (let ((k, inc), nets) = a; (r, net) = duplex_poll_accept mk inc (nets ! k)
      in (r, ((k, inc), nets[k := net])))"

type_synonym ('cfg, 't, 'u, 'io) attached_acceptor =
  "('cfg, ('t, (nat \<times> duplex_incoming) \<times> 'io duplex_net list, 'u) braid) acceptor_inner"

definition attach :: "'io duplex_net list \<Rightarrow> ('cfg, 't, 'u) registry_acceptor \<Rightarrow> ('cfg, 't, 'u, 'io) attached_acceptor" where
  "attach nets = map_acceptor_inner id (map_braid id (\<lambda>a. (a, nets)) id)"

definition braid_nets :: "('t, 'p \<times> 'io duplex_net list, 'u) braid \<Rightarrow> 'io duplex_net list" where
  "braid_nets b = (case b of Braid_Duplex (_, nets) \<Rightarrow> nets | _ \<Rightarrow> [])"

definition acceptor_nets :: "('cfg, 't, 'u, 'io) attached_acceptor \<Rightarrow> 'io duplex_net list" where
  "acceptor_nets a = (case a of Acc_NoTls b \<Rightarrow> braid_nets b | Acc_Tls _ b \<Rightarrow> braid_nets b)"

text \<open>
  The server of a registry: its acceptor over the three kinds of listeners, a service for each
  connection, and how a connection serves it.
\<close>

definition registry_server_ops ::
  "('h, 's, ('t, 'io duplex_stream, 'us) braid) rustls \<Rightarrow> (('t, 'io duplex_stream, 'us) braid \<Rightarrow> 'a connection_info)
     \<Rightarrow> (nat \<Rightarrow> usize \<Rightarrow> 'io \<times> 'io) \<Rightarrow> ('tl, 't) acceptor \<Rightarrow> ('u, 'us) acceptor
     \<Rightarrow> ('cfg \<Rightarrow> ('t, 'io duplex_stream, 'us) braid \<Rightarrow> 'h)
     \<Rightarrow> (('h, 's, 'a, ('t, 'io duplex_stream, 'us) braid) server_stream \<Rightarrow> 'svc)
     \<Rightarrow> ('p \<Rightarrow> ('h, 's, 'a, ('t, 'io duplex_stream, 'us) braid) server_stream \<Rightarrow> 'svc \<Rightarrow> 'conn)
     \<Rightarrow> (('cfg, 'tl, 'u, 'io) attached_acceptor, 'p, unit, ('h, 's, 'a, ('t, 'io duplex_stream, 'us) braid) server_stream,
          (io_kind + 'svc) option, 'svc, 'conn, io_kind) server_ops" where
  "registry_server_ops rt info mk tcp unix accept f serve =
     \<lparr>so_accept = acceptor_poll_accept rt info (core_poll_accept tcp (pair_accept mk) unix) accept,
      so_make = ready_maker f, so_serve = serve\<rparr>"

section \<open>One connection\<close>

text \<open>A server with a ready maker that accepts one stream and then has to wait.\<close>

lemma serve_single:
  assumes "so_make ops = ready_maker f" and "sv_state me = Preparing"
    and "so_accept ops (sr_acceptor (sv_server me)) = (Ready (Inr s), a1)" and "so_accept ops a1 = (Pending, a2)"
  shows "\<exists>me'. serving_poll ops me sp = Some (Pending, me', sp @ [so_serve ops (sr_protocol (sv_server me)) s (f s)]) \<and>
    sr_acceptor (sv_server me') = a2"
proof -
  note maker = assms(1) ready_maker_def make_service_ref_def make_service_fn_def
  let ?m1 = "me\<lparr>sv_server := (sv_server me)\<lparr>sr_make_service := ()\<rparr>, sv_state := Accepting\<rparr>"
  let ?m2 = "?m1\<lparr>sv_server := (sv_server ?m1)\<lparr>sr_acceptor := a1\<rparr>, sv_state := Making (Some (Inr (f s))) s\<rparr>"
  let ?m3 = "?m2\<lparr>sv_state := Preparing\<rparr>"
  let ?m4 = "?m3\<lparr>sv_state := Accepting\<rparr>"
  have 1: "poll_once ops me = (Ready (Inr None), ?m1)"
    by (simp add: poll_once_def assms(2) maker)
  have 2: "poll_once ops ?m1 = (Ready (Inr None), ?m2)"
    by (simp add: poll_once_def assms(3) maker Let_def)
  have 3: "poll_once ops ?m2 = (Ready (Inr (Some (so_serve ops (sr_protocol (sv_server me)) s (f s)))), ?m3)"
    by (simp add: poll_once_def maker)
  have 4: "poll_once ops ?m3 = (Ready (Inr None), ?m4)"
    by (simp add: poll_once_def maker)
  have 5: "poll_once ops ?m4 = (Pending, ?m4\<lparr>sv_server := (sv_server ?m4)\<lparr>sr_acceptor := a2\<rparr>\<rparr>)"
    by (simp add: poll_once_def assms(4) Let_def)
  show ?thesis
    unfolding serving_poll_steps(1) [OF 1] serving_poll_steps(1) [OF 2] serving_poll_steps(2) [OF 3]
      serving_poll_steps(1) [OF 4] serving_poll_steps(3) [OF 5]
    by simp
qed

lemma attached_accept:
  assumes "nets = xs @ [net]" and "duplex_poll_accept mk inc net = (r, net')"
  shows "acceptor_poll_accept rt info (core_poll_accept tcp (pair_accept mk) unix) accept
      (attach nets (Acc_NoTls (Braid_Duplex (length xs, inc)))) =
    (map_ready (map_sum id (\<lambda>s. server_stream_new info (Braid_Duplex s))) r,
     attach (xs @ [net']) (Acc_NoTls (Braid_Duplex (length xs, inc))))"
proof (cases r)
  case (Ready x)
  with assms show ?thesis by (cases x) (simp_all add: attach_def pair_accept_def)
qed (use assms in \<open>simp_all add: attach_def pair_accept_def\<close>)

lemma attach_nets [simp]: "acceptor_nets (attach nets (Acc_NoTls (Braid_Duplex p))) = nets"
  by (simp add: acceptor_nets_def braid_nets_def attach_def)

text \<open>A connection without TLS is ready as soon as the registry answers its stream.\<close>

lemma plain_handshake:
  "registry_handshake rt info name (client_stream_from_duplex d) =
    (Ready (Inr \<lparr>ts_stream = client_stream_from_duplex d, ts_info = info (Braid_Duplex d), ts_tls = None\<rparr>), RT_Done)"
  by (simp add: registry_handshake_def transport_new_stream_def client_stream_from_duplex_def client_stream_handshake_def)

lemma default_conf: "sr_config (rt_registry (with_default_schemes r)) = sr_config r"
  by (simp add: with_default_schemes_def transport_build_def add_default_schemes_def add_scheme_def transport_builder_def)

lemma default_route:
  assumes "u_scheme u = Some ''svc''" and "uri_host u = Some name"
  shows "registry_transport_call (with_default_schemes r) u = RT_Connecting name (RC_Start name)"
  using assms by (simp add: registry_transport_call_def default_scheme_map svc_scheme_default_def svc_scheme_new_def)

text \<open>The server of a registry serves the one connection that its network has been asked for.\<close>

lemma serves_asked:
  fixes rt :: "('h, 's, ('t, 'io duplex_stream, 'us) braid) rustls"
    and info :: "('t, 'io duplex_stream, 'us) braid \<Rightarrow> 'a connection_info" and xs :: "'io duplex_net list"
  assumes "stream = server_stream_new info (Braid_Duplex (snd (duplex_stream_new mk 0 n)))"
    and "sr_make_service srv = ()" and "sr_protocol srv = Auto_Builder"
  shows "\<exists>me'. serving_poll (registry_server_ops rt info mk tcp unix accept f serve)
      (server_into_future (with_acceptor (attach (xs @ [asked n]) (Acc_NoTls (Braid_Duplex (length xs, incoming_new)))) srv)) [] =
      Some (Pending, me', [serve Auto_Builder stream (f stream)]) \<and>
    acceptor_nets (sr_acceptor (sv_server me')) = xs @ [answered mk n]"
proof -
  let ?ops = "registry_server_ops rt info mk tcp unix accept f serve"
  let ?acc = "\<lambda>net. attach (xs @ [net]) (Acc_NoTls (Braid_Duplex (length xs, incoming_new)))"
  have a1: "so_accept ?ops (?acc (asked n)) = (Ready (Inr stream), ?acc (answered mk n))"
    by (simp add: registry_server_ops_def attached_accept [OF _ fresh_pair_accepts(2)] assms(1))
  have a2: "so_accept ?ops (?acc (answered mk n)) = (Pending, ?acc (answered mk n))"
    by (simp add: registry_server_ops_def attached_accept [OF _ fresh_pair_accepts(4)])
  show ?thesis
    using serve_single [of ?ops f "server_into_future (with_acceptor (?acc (asked n)) srv)", OF _ _ _ a2, of stream "[]"] a1 assms(2,3)
    by (auto simp: registry_server_ops_def server_into_future_def with_acceptor_def)
qed

section \<open>Properties\<close>

text \<open>C33: a service that was bound in process is reached end to end. The server that
  \<open>ServiceRegistry::server\<close> makes for a name, and a client that calls the registry's transport
  with \<open>svc://\<close> and that name: the call waits, the next poll of the server accepts it and serves
  one connection over one end of a new pipe of the configured size, without TLS and with the
  protocol detected, and the next poll of the call answers the other end and gives its guard
  back.\<close>

theorem service_reached:
  fixes reg :: "('cfg, 't, 'u, 'io) registry" and upoll :: "'uf \<Rightarrow> (io_kind + 'us) poll \<times> 'uf"
    and rt :: "('h, 's, ('t, 'io duplex_stream, 'us) braid) rustls"
    and info :: "('t, 'io duplex_stream, 'us) braid \<Rightarrow> 'a connection_info"
  assumes "rc_discovery (sr_config r) = InProcess" and "rg_services reg name = None" and "rg_guards reg = []"
    and "\<forall>d. rc_connect_timeout (sr_config r) = Some d \<longrightarrow> 0 < d"
    and "u_scheme u = Some ''svc''" and "uri_host u = Some name"
  shows "\<exists>srv reg1 fs1 call reg2 me' reg3.
    registry_server shard os listen fs r () name reg = Some (Inr srv, reg1, fs1) \<and>
    registry_call_poll rt info shard uconnect upoll (with_default_schemes r) now
      (registry_transport_call (with_default_schemes r) u) reg1 = Some (Pending, call, reg2) \<and>
    (let ends = duplex_stream_new mk 0 (rc_buffer_size (sr_config r));
         stream = server_stream_new info (Braid_Duplex (snd ends))
     in serving_poll (registry_server_ops rt info mk tcp unix accept f serve)
          (server_into_future (with_acceptor (attach (rg_nets reg2) (sr_acceptor srv)) srv)) [] =
          Some (Pending, me', [serve Auto_Builder stream (f stream)]) \<and>
        registry_call_poll rt info shard uconnect upoll (with_default_schemes r) now2 call
          (reg2\<lparr>rg_nets := acceptor_nets (sr_acceptor (sv_server me'))\<rparr>) =
          Some (Ready (Inr \<lparr>ts_stream = client_stream_from_duplex (fst ends), ts_info = info (Braid_Duplex (fst ends)),
                           ts_tls = None\<rparr>), RT_Done, reg3)) \<and>
    rg_guards reg3 = []"
proof -
  let ?n = "rc_buffer_size (sr_config r)" and ?k = "length (rg_nets reg)" and ?t = "with_default_schemes r"
  let ?ends = "duplex_stream_new mk 0 ?n"
  let ?stream = "server_stream_new info (Braid_Duplex (snd ?ends)) :: ('h, 's, 'a, ('t, 'io duplex_stream, 'us) braid) server_stream"
  let ?acc = "Acc_NoTls (Braid_Duplex (?k, incoming_new)) :: ('cfg, 't, 'u) registry_acceptor"
  let ?reg1 = "reg\<lparr>rg_services := (rg_services reg)(name \<mapsto> SH_Duplex None ?k), rg_nets := rg_nets reg @ [fst duplex_pair]\<rparr>"
  let ?on = "\<lambda>net. ?reg1\<lparr>rg_guards := [name], rg_nets := rg_nets reg @ [net]\<rparr>"
  let ?srv = "with_make_service () (with_auto_http (with_acceptor ?acc server_builder))"
  obtain c reg3 where bind: "registry_bind shard os listen fs (sr_config r) name reg = Some (Inr ?acc, ?reg1, fs)"
    and first: "registry_connect_poll shard uconnect upoll (sr_config r) now (RC_Start name) ?reg1 =
      Some (Pending :: (registry_error + ('h, 's, 'a, ('t, 'io, 'us) registry_stream) client_stream) poll, c, ?on (asked ?n))"
    and second: "registry_connect_poll shard uconnect upoll (sr_config r) now2 c (?on (answered mk ?n)) =
      Some (Ready (Inr (client_stream_from_duplex (fst ?ends))
          :: registry_error + ('h, 's, 'a, ('t, 'io, 'us) registry_stream) client_stream), RC_Done, reg3)"
    and guards: "rg_guards reg3 = []"
    by (rule bind_connect_parts [OF assms(1-4)]) blast
  have server: "registry_server shard os listen fs r () name reg = Some (Inr ?srv, ?reg1, fs)"
    using bind by (simp add: registry_server_def result_bind_def)
  have call: "registry_call_poll rt info shard uconnect upoll ?t now (registry_transport_call ?t u) ?reg1 =
      Some (Pending, RT_Connecting name c, ?on (asked ?n))"
    using first by (simp add: default_route [OF assms(5,6)] default_conf del: registry_connect_poll.simps)
  have srv: "sr_acceptor ?srv = ?acc" "sr_make_service ?srv = ()" "sr_protocol ?srv = Auto_Builder" "rg_nets (?on (asked ?n)) = rg_nets reg @ [asked ?n]"
    by (simp_all add: with_acceptor_def with_auto_http_def with_make_service_def with_protocol_def)
  obtain me' where served: "serving_poll (registry_server_ops rt info mk tcp unix accept f serve)
        (server_into_future (with_acceptor (attach (rg_nets (?on (asked ?n))) ?acc) ?srv)) [] =
        Some (Pending, me', [serve Auto_Builder ?stream (f ?stream)])"
    and nets: "acceptor_nets (sr_acceptor (sv_server me')) = rg_nets reg @ [answered mk ?n]"
    unfolding srv(4) using serves_asked [OF refl srv(2,3)] by blast
  have answer: "registry_call_poll rt info shard uconnect upoll ?t now2 (RT_Connecting name c)
      (?on (asked ?n)\<lparr>rg_nets := acceptor_nets (sr_acceptor (sv_server me'))\<rparr>) =
      Some (Ready (Inr \<lparr>ts_stream = client_stream_from_duplex (fst ?ends), ts_info = info (Braid_Duplex (fst ?ends)),
        ts_tls = None\<rparr>), RT_Done, reg3)"
    using second by (simp add: nets default_conf plain_handshake del: registry_connect_poll.simps)
  show ?thesis
    by (rule exI [of _ ?srv], rule exI [of _ ?reg1], rule exI [of _ fs], rule exI [of _ "RT_Connecting name c"],
        rule exI [of _ "?on (asked ?n)"], rule exI [of _ me'], rule exI [of _ reg3])
      (simp only: server call Let_def srv(1) served answer guards simp_thms)
qed

definition example_uri :: uri where
  "example_uri = \<lparr>u_scheme = Some ''svc'', u_authority = Some \<lparr>au_text = ''s'', au_host = ''s'', au_port = None\<rparr>, u_path = Some ''/''\<rparr>"

definition example_rustls :: "(unit, unit, (unit, nat duplex_stream, unit) braid) rustls" where
  "example_rustls = \<lparr>hs_poll = (\<lambda>h. (Pending, h)), hs_get_ref = (\<lambda>_. None), sess_get_ref = (\<lambda>_. Braid_Tcp ()),
     sess_info = (\<lambda>_. tls_info_server (\<lambda>_. None) None None),
     sess_io = \<lparr>a_read = (\<lambda>n s. (Pending, s)), a_write = (\<lambda>bs s. (Pending, s)), a_flush = (\<lambda>s. (Pending, s)),
       a_shutdown = (\<lambda>s. (Pending, s)), a_is_vectored = (\<lambda>_. False), a_write_vectored = (\<lambda>bs s. (Pending, s))\<rparr>\<rparr>"

definition example_info :: "(unit, nat duplex_stream, unit) braid \<Rightarrow> unit connection_info" where
  "example_info _ = \<lparr>local_addr = (), remote_addr = (), buffer_size = None\<rparr>"

text \<open>With pipes whose ends are numbers, the server answers at 1 what the client has at 0.\<close>

theorem service_reached_witness:
  "\<exists>srv reg1 fs1 call (reg2 :: (unit, unit, unit, nat) registry) me' reg3 cs.
    registry_server (\<lambda>_. 0) (example_host 7) example_listen Map.empty \<lparr>sr_config = registry_config_default\<rparr> () ''s''
      (registry_new :: (unit, unit, unit, nat) registry) = Some (Inr srv, reg1, fs1) \<and>
    serving_poll (registry_server_ops example_rustls example_info (\<lambda>k n. (2 * k, 2 * k + 1)) (\<lambda>a. (Pending, a)) (\<lambda>a. (Pending, a))
        (\<lambda>_ _. ()) (\<lambda>_. ()) (\<lambda>_ st _. case ss_inner st of NoTls (Braid_Duplex d) \<Rightarrow> ds_inner d | _ \<Rightarrow> 9))
      (server_into_future (with_acceptor (attach (rg_nets reg2) (sr_acceptor srv)) srv)) [] = Some (Pending, me', [1]) \<and>
    registry_call_poll example_rustls example_info (\<lambda>_. 0) (\<lambda>_. ()) (\<lambda>f. (Pending, f))
      (with_default_schemes \<lparr>sr_config = registry_config_default\<rparr>)
      9 call (reg2\<lparr>rg_nets := acceptor_nets (sr_acceptor (sv_server me'))\<rparr>) = Some (Ready (Inr cs), RT_Done, reg3) \<and>
    (case ts_stream cs of NoTls (Braid_Duplex d) \<Rightarrow> ds_inner d = 0 | _ \<Rightarrow> False)"
proof -
  let ?r = "\<lparr>sr_config = registry_config_default\<rparr>"
  have h: "rc_discovery (sr_config ?r) = InProcess" "rg_services (registry_new :: (unit, unit, unit, nat) registry) ''s'' = None"
    "rg_guards (registry_new :: (unit, unit, unit, nat) registry) = []"
    "\<forall>d. rc_connect_timeout (sr_config ?r) = Some d \<longrightarrow> 0 < d"
    "u_scheme example_uri = Some ''svc''" "uri_host example_uri = Some ''s''"
    by (simp_all add: registry_config_default_def registry_new_def example_uri_def uri_host_def)
  let ?mk = "\<lambda>k (n :: usize). (2 * k, 2 * k + 1)"
    and ?serve = "\<lambda>_ st _. case ss_inner st of NoTls (Braid_Duplex d) \<Rightarrow> ds_inner d | _ \<Rightarrow> 9"
  let ?ends = "duplex_stream_new ?mk 0 (rc_buffer_size registry_config_default)"
  let ?stream = "server_stream_new example_info (Braid_Duplex (snd ?ends)) :: (unit, unit, unit, (unit, nat duplex_stream, unit) braid) server_stream"
  have conn: "?serve Auto_Builder ?stream () = 1"
    by (simp add: server_stream_new_def duplex_stream_new_def Let_def)
  from service_reached [OF h, of "\<lambda>_. 0" "example_host 7" example_listen Map.empty example_rustls example_info "\<lambda>_. ()"
      "\<lambda>f. (Pending :: (io_kind + unit) poll, f)" 3 ?mk "\<lambda>a. (Pending, a)" "\<lambda>a. (Pending, a)" "\<lambda>_ _. ()"
      "\<lambda>_. ()" ?serve 9]
  obtain srv reg1 fs1 call me' reg3 and reg2 :: "(unit, unit, unit, nat) registry" where
    srv: "registry_server (\<lambda>_. 0) (example_host 7) example_listen Map.empty ?r () ''s''
      (registry_new :: (unit, unit, unit, nat) registry) = Some (Inr srv, reg1, fs1)"
    and served: "serving_poll (registry_server_ops example_rustls example_info ?mk (\<lambda>a. (Pending, a)) (\<lambda>a. (Pending, a))
        (\<lambda>_ _. ()) (\<lambda>_. ()) ?serve)
      (server_into_future (with_acceptor (attach (rg_nets reg2) (sr_acceptor srv)) srv)) [] =
      Some (Pending, me', [?serve Auto_Builder ?stream ()])"
    and answer: "registry_call_poll example_rustls example_info (\<lambda>_. 0) (\<lambda>_. ()) (\<lambda>f. (Pending, f)) (with_default_schemes ?r)
      9 call (reg2\<lparr>rg_nets := acceptor_nets (sr_acceptor (sv_server me'))\<rparr>) =
      Some (Ready (Inr \<lparr>ts_stream = client_stream_from_duplex (fst ?ends), ts_info = example_info (Braid_Duplex (fst ?ends)),
        ts_tls = None\<rparr>), RT_Done, reg3)"
    unfolding Let_def service_registry.simps by (elim exE conjE) (rule that, assumption+)
  from served have "serving_poll (registry_server_ops example_rustls example_info ?mk (\<lambda>a. (Pending, a)) (\<lambda>a. (Pending, a))
        (\<lambda>_ _. ()) (\<lambda>_. ()) ?serve)
      (server_into_future (with_acceptor (attach (rg_nets reg2) (sr_acceptor srv)) srv)) [] = Some (Pending, me', [1])"
    unfolding conn .
  with srv answer show ?thesis
    by - (intro exI conjI, assumption, assumption, assumption,
      simp add: duplex_stream_new_def client_stream_from_duplex_def Let_def)
qed

end
