(* ===== verification/Server_Info.thy ===== *)
theory Server_Info
  imports Server
begin

text \<open>
  What the server tells a request about its connection (server/conn/info.rs,
  server/conn/tls/info.rs) and the check of the TLS server name against the host of the
  request (server/conn/tls/sni.rs). A middleware is a transformer of the \<open>service\<close> it wraps;
  the extensions of a request that these middlewares use are fields of the request.
\<close>

section \<open>Requests with extensions\<close>

record ('b, 'a) info_request = "'b request" +
  rq_info :: "'a connection_info option"
  rq_tls :: "tls_info option"

text \<open>The futures a service makes for a list of requests, called one after the other.\<close>

fun call_all :: "('s \<Rightarrow> 'req \<Rightarrow> 'f \<times> 's) \<Rightarrow> 's \<Rightarrow> 'req list \<Rightarrow> 'f list \<times> 's" where
  "call_all call s [] = ([], s)"
| "call_all call s (req # reqs) =
     (let (f, s1) = call s req; (fs, s2) = call_all call s1 reqs in (f # fs, s2))"

section \<open>Connection information\<close>

text \<open>
  \<open>MakeServiceConnectionInfoService\<close> is always ready: it calls a clone of the maker, which it
  never asks for readiness. \<open>clone\<close> is the \<open>Clone\<close> of the service it wraps.
\<close>

datatype 'm make_info = MakeInfo (mi_inner: 'm)

datatype ('f, 'a) make_info_future = MakeInfoFuture 'f "'a connection_info option"

record ('svc, 'a) connection_with_info =
  cw_inner :: 'svc
  cw_info :: "'a connection_info option"

definition make_info_call ::
  "('m \<Rightarrow> 'm) \<Rightarrow> ('io \<Rightarrow> 'a connection_info) \<Rightarrow> ('m, 'io, 'f, 'svc, 'e) service
     \<Rightarrow> 'm make_info \<Rightarrow> 'io \<Rightarrow> ('f, 'a) make_info_future \<times> 'm make_info" where
  "make_info_call clone info maker me stream =
     (let inner = clone (mi_inner me); i = info stream; (f, _) = service_ref_call maker inner stream
      in (MakeInfoFuture f (Some i), me))"

fun make_info_poll ::
  "('f \<Rightarrow> ('e + 'svc) poll \<times> 'f) \<Rightarrow> ('f, 'a) make_info_future
     \<Rightarrow> ('e + ('svc, 'a) connection_with_info) poll \<times> ('f, 'a) make_info_future" where
  "make_info_poll fpoll (MakeInfoFuture f i) =
     (case fpoll f of
        (Ready (Inr inner), f') \<Rightarrow> (Ready (Inr \<lparr>cw_inner = inner, cw_info = i\<rparr>), MakeInfoFuture f' None)
      | (Ready (Inl e), f') \<Rightarrow> (Ready (Inl e), MakeInfoFuture f' i)
      | (Pending, f') \<Rightarrow> (Pending, MakeInfoFuture f' i)
      | (Panicked, f') \<Rightarrow> (Panicked, MakeInfoFuture f' i))"

definition make_connection_info ::
  "('m \<Rightarrow> 'm) \<Rightarrow> ('io \<Rightarrow> 'a connection_info) \<Rightarrow> ('m, 'io, 'f, 'svc, 'e) service
     \<Rightarrow> ('m make_info, 'io, ('f, 'a) make_info_future, ('svc, 'a) connection_with_info, 'e) service" where
  "make_connection_info clone info maker =
     \<lparr>s_ready = (\<lambda>me. (Ready (Inr ()), me)), s_call = make_info_call clone info maker,
      s_fpoll = make_info_poll (s_fpoll maker)\<rparr>"

text \<open>
  \<open>ConnectionWithInfo\<close> gives the information away with the first request it is called with,
  and leaves a clone of the service it called behind.
\<close>

definition connection_info_call ::
  "('svc \<Rightarrow> 'svc) \<Rightarrow> ('svc, ('b, 'a) info_request, 'f, 'rsp, 'e) service
     \<Rightarrow> ('svc, 'a) connection_with_info \<Rightarrow> ('b, 'a) info_request \<Rightarrow> 'f \<times> ('svc, 'a) connection_with_info" where
  "connection_info_call clone svc me req =
     (let next = clone (cw_inner me);
          req' = (case cw_info me of Some info \<Rightarrow> req\<lparr>rq_info := Some info\<rparr> | None \<Rightarrow> req);
          (f, _) = s_call svc (cw_inner me) req'
      in (f, \<lparr>cw_inner = next, cw_info = None\<rparr>))"

definition connection_info_service ::
  "('svc \<Rightarrow> 'svc) \<Rightarrow> ('svc, ('b, 'a) info_request, 'f, 'rsp, 'e) service
     \<Rightarrow> (('svc, 'a) connection_with_info, ('b, 'a) info_request, 'f, 'rsp, 'e) service" where
  "connection_info_service clone svc =
     \<lparr>s_ready = (\<lambda>me. let (r, s) = s_ready svc (cw_inner me) in (r, me\<lparr>cw_inner := s\<rparr>)),
      s_call = connection_info_call clone svc, s_fpoll = s_fpoll svc\<rparr>"

definition connection_info_clone ::
  "('svc \<Rightarrow> 'svc) \<Rightarrow> ('svc, 'a) connection_with_info \<Rightarrow> ('svc, 'a) connection_with_info" where
  "connection_info_clone clone me = \<lparr>cw_inner = clone (cw_inner me), cw_info = cw_info me\<rparr>"

definition with_connection_info :: "('acc, 'p, 'm) server \<Rightarrow> ('acc, 'p, 'm make_info) server" where
  "with_connection_info s =
     \<lparr>sr_acceptor = sr_acceptor s, sr_protocol = sr_protocol s, sr_make_service = MakeInfo (sr_make_service s)\<rparr>"

section \<open>TLS connection information\<close>

text \<open>
  The receiver that \<open>TlsConnectionInfoService\<close> takes from the stream shares its channel with
  the stream, so the channel is a state of its own beside the service. \<open>recv\<close> says which
  channel a stream's receiver is of.
\<close>

datatype 'm make_tls_info = MakeTlsInfo (mt_inner: 'm)

datatype ('f, 'rx) make_tls_future = MakeTlsFuture 'f 'rx

record ('svc, 'rx) tls_connection =
  tl_inner :: 'svc
  tl_rx :: 'rx

definition make_tls_call ::
  "('m \<Rightarrow> 'm) \<Rightarrow> ('io \<Rightarrow> 'rx) \<Rightarrow> ('m, 'io, 'f, 'svc, 'e) service
     \<Rightarrow> 'm make_tls_info \<Rightarrow> 'io \<Rightarrow> ('f, 'rx) make_tls_future \<times> 'm make_tls_info" where
  "make_tls_call clone recv maker me stream =
     (let inner = clone (mt_inner me); rx = recv stream; (f, _) = service_ref_call maker inner stream
      in (MakeTlsFuture f rx, me))"

fun make_tls_poll ::
  "('f \<Rightarrow> ('e + 'svc) poll \<times> 'f) \<Rightarrow> ('f, 'rx) make_tls_future
     \<Rightarrow> ('e + ('svc, 'rx) tls_connection) poll \<times> ('f, 'rx) make_tls_future" where
  "make_tls_poll fpoll (MakeTlsFuture f rx) =
     (case fpoll f of
        (Ready (Inr res), f') \<Rightarrow> (Ready (Inr \<lparr>tl_inner = res, tl_rx = rx\<rparr>), MakeTlsFuture f' rx)
      | (Ready (Inl e), f') \<Rightarrow> (Ready (Inl e), MakeTlsFuture f' rx)
      | (Pending, f') \<Rightarrow> (Pending, MakeTlsFuture f' rx)
      | (Panicked, f') \<Rightarrow> (Panicked, MakeTlsFuture f' rx))"

definition make_tls_connection_info ::
  "('m \<Rightarrow> 'm) \<Rightarrow> ('io \<Rightarrow> 'rx) \<Rightarrow> ('m, 'io, 'f, 'svc, 'e) service
     \<Rightarrow> ('m make_tls_info, 'io, ('f, 'rx) make_tls_future, ('svc, 'rx) tls_connection, 'e) service" where
  "make_tls_connection_info clone recv maker =
     \<lparr>s_ready = (\<lambda>me. (Ready (Inr ()), me)), s_call = make_tls_call clone recv maker,
      s_fpoll = make_tls_poll (s_fpoll maker)\<rparr>"

text \<open>
  The future of a request: it waits for the information, then calls the service, and polls
  its future from the same poll on. A finished future panics when it is polled.
\<close>

datatype ('svc, 'req, 'f, 'rx) tls_request = Tls_Waiting 'rx 'svc 'req | Tls_Calling 'f | Tls_Done

definition tls_connection_call ::
  "('svc \<Rightarrow> 'svc) \<Rightarrow> ('svc, 'rx) tls_connection \<Rightarrow> 'req
     \<Rightarrow> ('svc, 'req, 'f, 'rx) tls_request \<times> ('svc, 'rx) tls_connection" where
  "tls_connection_call clone me req =
     (let rx = tl_rx me; inner = clone (tl_inner me) in (Tls_Waiting rx (tl_inner me) req, me\<lparr>tl_inner := inner\<rparr>))"

definition tls_calling_poll ::
  "('f \<Rightarrow> ('e + 'rsp) poll \<times> 'f) \<Rightarrow> 'f \<Rightarrow> ('e + 'rsp) poll \<times> ('svc, 'req, 'f, 'rx) tls_request" where
  "tls_calling_poll fpoll f =
     (case fpoll f of (Pending, f') \<Rightarrow> (Pending, Tls_Calling f') | (r, _) \<Rightarrow> (r, Tls_Done))"

fun tls_request_poll ::
  "('svc, ('b, 'a) info_request, 'f, 'rsp, 'e) service \<Rightarrow> ('svc, ('b, 'a) info_request, 'f, 'rx) tls_request \<Rightarrow> ('rx \<Rightarrow> tls_channel)
     \<Rightarrow> ('e + 'rsp) poll \<times> ('svc, ('b, 'a) info_request, 'f, 'rx) tls_request \<times> ('rx \<Rightarrow> tls_channel)" where
  "tls_request_poll svc (Tls_Waiting rx inner req) chans =
     (let (r, ch) = tls_recv (chans rx); chans' = chans(rx := ch)
      in case r of
           Pending \<Rightarrow> (Pending, Tls_Waiting rx inner req, chans')
         | Panicked \<Rightarrow> (Panicked, Tls_Done, chans')
         | Ready oi \<Rightarrow>
             (let req' = (case oi of Some i \<Rightarrow> req\<lparr>rq_tls := Some i\<rparr> | None \<Rightarrow> req);
                  (f, _) = s_call svc inner req';
                  (p, fut) = tls_calling_poll (s_fpoll svc) f
              in (p, fut, chans')))"
| "tls_request_poll svc (Tls_Calling f) chans = (let (p, fut) = tls_calling_poll (s_fpoll svc) f in (p, fut, chans))"
| "tls_request_poll svc Tls_Done chans = (Panicked, Tls_Done, chans)"

definition with_tls_connection_info :: "('acc, 'p, 'm) server \<Rightarrow> ('acc, 'p, 'm make_tls_info) server" where
  "with_tls_connection_info s =
     \<lparr>sr_acceptor = sr_acceptor s, sr_protocol = sr_protocol s, sr_make_service = MakeTlsInfo (sr_make_service s)\<rparr>"

section \<open>Validating the server name (server/conn/tls/sni.rs)\<close>

datatype validate_sni_error = InvalidSNI string string | MissingSNI string

datatype 'e sni_error = Sni_Inner 'e | SNI validate_sni_error

fun validate_sni_display :: "validate_sni_error \<Rightarrow> string" where
  "validate_sni_display (InvalidSNI host sni) =
     ''TLS SNI \"'' @ sni @ ''\" does not match HOST header \"'' @ host @ ''\"''"
| "validate_sni_display (MissingSNI host) = ''TLS SNI was not provided when requesting \"'' @ host @ ''\"''"

text \<open>\<open>HeaderValue::to_str\<close> reads visible ASCII and tabs; \<open>parse\<close> is \<open>Authority::from_str\<close>.\<close>

definition header_to_str :: "string \<Rightarrow> string option" where
  "header_to_str s =
     (if list_all (\<lambda>c. let n = of_char c :: nat in 32 \<le> n \<and> n < 127 \<or> n = 9) s then Some s else None)"

definition request_host :: "(string \<Rightarrow> authority option) \<Rightarrow> ('b, 'a) info_request \<Rightarrow> authority option" where
  "request_host parse req =
     (if rq_version req = HTTP_2 then u_authority (rq_uri req)
      else Option.bind (Option.bind (map_of (rq_headers req) ''host'') header_to_str) parse)"

definition sni_handle ::
  "(string \<Rightarrow> authority option) \<Rightarrow> ('b, 'a) info_request \<Rightarrow> validate_sni_error option \<times> ('b, 'a) info_request" where
  "sni_handle parse req =
     (let host = request_host parse req
      in case rq_tls req of
           None \<Rightarrow> (None, req)
         | Some tls \<Rightarrow>
             (case Option.bind (server_name tls) parse of
                Some sni \<Rightarrow>
                  (case host of
                     Some h \<Rightarrow>
                       (if au_host h \<noteq> au_host sni then (Some (InvalidSNI (au_text h) (au_text sni)), req)
                        else (None, req\<lparr>rq_tls := Some (tls_info_validated tls)\<rparr>))
                   | None \<Rightarrow> (None, req))
              | None \<Rightarrow> (Some (MissingSNI (case host of Some h \<Rightarrow> au_text h | None \<Rightarrow> ''-'')), req)))"

text \<open>
  The future: a ready answer or the one of the service with its error mapped; the first can
  be taken once, the second panics when it is polled after it is over.
\<close>

datatype ('e, 'f) sni_future = Sni_Left "'e sni_error option" | Sni_Right "'f option"

definition sni_call ::
  "(string \<Rightarrow> authority option) \<Rightarrow> ('s, ('b, 'a) info_request, 'f, 'rsp, 'e) service
     \<Rightarrow> 's \<Rightarrow> ('b, 'a) info_request \<Rightarrow> ('e, 'f) sni_future \<times> 's" where
  "sni_call parse svc s req =
     (case sni_handle parse req of
        (Some err, _) \<Rightarrow> (Sni_Left (Some (SNI err)), s)
      | (None, req') \<Rightarrow> (let (f, s') = s_call svc s req' in (Sni_Right (Some f), s')))"

fun sni_poll ::
  "('f \<Rightarrow> ('e + 'rsp) poll \<times> 'f) \<Rightarrow> ('e, 'f) sni_future \<Rightarrow> ('e sni_error + 'rsp) poll \<times> ('e, 'f) sni_future" where
  "sni_poll fpoll (Sni_Left (Some e)) = (Ready (Inl e), Sni_Left None)"
| "sni_poll fpoll (Sni_Left None) = (Panicked, Sni_Left None)"
| "sni_poll fpoll (Sni_Right None) = (Panicked, Sni_Right None)"
| "sni_poll fpoll (Sni_Right (Some f)) =
     (case fpoll f of
        (Ready r, _) \<Rightarrow> (Ready (map_err Sni_Inner r), Sni_Right None)
      | (Pending, f') \<Rightarrow> (Pending, Sni_Right (Some f'))
      | (Panicked, f') \<Rightarrow> (Panicked, Sni_Right (Some f')))"

definition validate_sni ::
  "(string \<Rightarrow> authority option) \<Rightarrow> ('s, ('b, 'a) info_request, 'f, 'rsp, 'e) service
     \<Rightarrow> ('s, ('b, 'a) info_request, ('e, 'f) sni_future, 'rsp, 'e sni_error) service" where
  "validate_sni parse svc =
     \<lparr>s_ready = (\<lambda>s. let (r, s') = s_ready svc s in (map_ready (map_err Sni_Inner) r, s')),
      s_call = sni_call parse svc, s_fpoll = sni_poll (s_fpoll svc)\<rparr>"

section \<open>Makers that pass the information on\<close>

text \<open>
  A maker of services whose clones are as good as itself: wrapping it keeps the contract, and
  each service it makes comes with the information of its stream.
\<close>

locale cloned_maker = service_maker maker m_ok svc_of
  for maker :: "('m, 'io, 'f, 'svc, 'e) service" and m_ok :: "'m \<Rightarrow> bool" and svc_of :: "'io \<Rightarrow> 'svc" +
  fixes clone :: "'m \<Rightarrow> 'm"
  assumes clone_ok: "m_ok m \<Longrightarrow> m_ok (clone m)"
begin

lemma make_info_maker:
  "service_maker (make_connection_info clone info maker) (\<lambda>m. m_ok (mi_inner m))
     (\<lambda>s. \<lparr>cw_inner = svc_of s, cw_info = Some (info s)\<rparr>)"
proof
  fix m s assume "m_ok (mi_inner m)"
  from maker_call [OF clone_ok [OF this], of s] \<open>m_ok (mi_inner m)\<close>
  show "\<exists>f m' f'. s_call (make_connection_info clone info maker) m s = (f, m') \<and> m_ok (mi_inner m') \<and>
      s_fpoll (make_connection_info clone info maker) f = (Ready (Inr \<lparr>cw_inner = svc_of s, cw_info = Some (info s)\<rparr>), f')"
    by (auto simp: make_connection_info_def make_info_call_def service_ref_call_def)
qed (auto simp: make_connection_info_def)

lemma make_tls_maker:
  "service_maker (make_tls_connection_info clone recv maker) (\<lambda>m. m_ok (mt_inner m))
     (\<lambda>s. \<lparr>tl_inner = svc_of s, tl_rx = recv s\<rparr>)"
proof
  fix m s assume "m_ok (mt_inner m)"
  from maker_call [OF clone_ok [OF this], of s] \<open>m_ok (mt_inner m)\<close>
  show "\<exists>f m' f'. s_call (make_tls_connection_info clone recv maker) m s = (f, m') \<and> m_ok (mt_inner m') \<and>
      s_fpoll (make_tls_connection_info clone recv maker) f = (Ready (Inr \<lparr>tl_inner = svc_of s, tl_rx = recv s\<rparr>), f')"
    by (auto simp: make_tls_connection_info_def make_tls_call_def service_ref_call_def)
qed (auto simp: make_tls_connection_info_def)

end

text \<open>The two middlewares over such a maker, each a maker in its turn.\<close>

locale info_maker = cloned_maker maker m_ok svc_of clone
  for maker :: "('m, 'io, 'f, 'svc, 'e) service" and m_ok :: "'m \<Rightarrow> bool" and svc_of :: "'io \<Rightarrow> 'svc" and clone :: "'m \<Rightarrow> 'm" +
  fixes info :: "'io \<Rightarrow> 'a connection_info" and recv :: "'io \<Rightarrow> 'rx"

sublocale info_maker \<subseteq> with_info: service_maker "make_connection_info clone info maker" "\<lambda>m. m_ok (mi_inner m)"
    "\<lambda>s. \<lparr>cw_inner = svc_of s, cw_info = Some (info s)\<rparr>"
  by (rule make_info_maker)

sublocale info_maker \<subseteq> with_tls: service_maker "make_tls_connection_info clone recv maker" "\<lambda>m. m_ok (mt_inner m)"
    "\<lambda>s. \<lparr>tl_inner = svc_of s, tl_rx = recv s\<rparr>"
  by (rule make_tls_maker)

interpretation ready_info: info_maker "ready_maker f" "\<lambda>_. True" f id info recv
  for f :: "'io \<Rightarrow> 'svc" and info :: "'io \<Rightarrow> 'a connection_info" and recv :: "'io \<Rightarrow> 'rx"
  by unfold_locales simp

definition info_server_ops ::
  "(nat \<Rightarrow> usize \<Rightarrow> 'io \<times> 'io) \<Rightarrow> ('io duplex_stream \<Rightarrow> 'svc)
     \<Rightarrow> ('p \<Rightarrow> 'io duplex_stream \<Rightarrow> ('svc, duplex_addr) connection_with_info \<Rightarrow> 'conn)
     \<Rightarrow> (duplex_incoming \<times> 'io duplex_net, 'p, unit make_info, 'io duplex_stream,
          ((io_kind + 'svc) option, duplex_addr) make_info_future, ('svc, duplex_addr) connection_with_info, 'conn, io_kind) server_ops" where
  "info_server_ops mk f serve =
     \<lparr>so_accept = duplex_accept mk, so_make = make_connection_info id duplex_info (ready_maker f), so_serve = serve\<rparr>"

interpretation info_server: serving_env "info_server_ops mk f serve" "\<lambda>a. queue_alive (snd a)" "duplex_waiting mk"
    "\<lambda>m. True" "\<lambda>s. \<lparr>cw_inner = f s, cw_info = Some (duplex_info s)\<rparr>"
  for mk :: "nat \<Rightarrow> usize \<Rightarrow> 'io \<times> 'io" and f :: "'io duplex_stream \<Rightarrow> 'svc"
    and serve :: "'p \<Rightarrow> 'io duplex_stream \<Rightarrow> ('svc, duplex_addr) connection_with_info \<Rightarrow> 'conn"
  unfolding serving_env_def info_server_ops_def
  using duplex.listener_axioms ready_info.with_info.service_maker_axioms [of duplex_info f] by auto

text \<open>A server with connection information over the in-memory listener serves every
  connection that waits, in order, each with a service that holds the addresses and the buffer
  size of its own stream.\<close>

theorem served_with_info:
  fixes sv :: "(duplex_incoming \<times> 'io duplex_net, 'p, unit) server" and serve :: "'p \<Rightarrow> 'io duplex_stream \<Rightarrow> ('svc, duplex_addr) connection_with_info \<Rightarrow> 'conn"
  assumes "queue_alive (snd (sr_acceptor sv))"
  shows "\<exists>me'. serving_poll (info_server_ops mk f serve) (server_into_future (with_connection_info sv)) [] =
      Some (Pending, me', map (\<lambda>s. serve (sr_protocol sv) s \<lparr>cw_inner = f s, cw_info = Some (ds_info s)\<rparr>)
        (duplex_waiting mk (sr_acceptor sv)))"
proof -
  let ?me = "server_into_future (with_connection_info sv) :: (duplex_incoming \<times> 'io duplex_net, 'p, unit make_info,
    'io duplex_stream, ((io_kind + 'svc) option, duplex_addr) make_info_future) serving"
  have "sv_state ?me = Preparing" "sv_server ?me = with_connection_info sv" by (simp_all add: server_into_future_def)
  with info_server.serve_all [of ?me mk f serve "[]"] assms
  show ?thesis by (auto simp: info_server_ops_def with_connection_info_def duplex_info_def)
qed

theorem served_with_info_witness:
  "\<exists>me'. serving_poll (info_server_ops (\<lambda>k n. (2 * k, 2 * k + 1)) ds_inner (\<lambda>p s c. (cw_inner c, map_option buffer_size (cw_info c))))
      (server_into_future (with_connection_info (server_new (incoming_new, (fst duplex_pair :: nat duplex_net)\<lparr>dn_queue :=
        [request_new 0 5, request_new 1 7]\<rparr>) () ()))) [] = Some (Pending, me', [(1, Some (Some 5)), (3, Some (Some 7))])"
  using served_with_info [of "server_new (incoming_new, (fst duplex_pair :: nat duplex_net)\<lparr>dn_queue :=
        [request_new 0 5, request_new 1 7]\<rparr>) () ()" "\<lambda>k n. (2 * k, 2 * k + 1)" ds_inner "\<lambda>p s c. (cw_inner c, map_option buffer_size (cw_info c))"]
  by (auto simp: server_new_def queue_alive_def request_new_def duplex_pair_def duplex_stream_new_def
      incoming_new_def duplex_waiting_def info_map_def info_duplex_def agreed_size_def Let_def)

section \<open>The information a request gets\<close>

lemma call_all_spent:
  "cw_info c = None \<Longrightarrow> fst (call_all (connection_info_call id svc) c reqs) =
     map (\<lambda>req. fst (s_call svc (cw_inner c) req)) reqs"
  by (induction reqs arbitrary: c) (auto simp: connection_info_call_def split_beta Let_def)

text \<open>Under \<open>TowerHyperService\<close>, which calls a clone of the service for each request, every
  request of a connection carries its information; called directly, only the first one
  does.\<close>

theorem requests_get_info:
  "fst (call_all (tower_hyper_call (connection_info_clone id) (\<lambda>c req. fst (s_call (connection_info_service id svc) c req)))
      \<lparr>cw_inner = s, cw_info = Some i\<rparr> (req # reqs)) =
     map (\<lambda>req. fst (s_call svc s (req\<lparr>rq_info := Some i\<rparr>))) (req # reqs) \<and>
   fst (call_all (s_call (connection_info_service id svc)) \<lparr>cw_inner = s, cw_info = Some i\<rparr> (req # reqs)) =
     fst (s_call svc s (req\<lparr>rq_info := Some i\<rparr>)) # map (\<lambda>req. fst (s_call svc s req)) reqs"
proof -
  let ?c = "\<lparr>cw_inner = s, cw_info = Some i\<rparr>"
  have 1: "fst (call_all (tower_hyper_call (connection_info_clone id) (\<lambda>c req. fst (s_call (connection_info_service id svc) c req))) ?c rs) =
      map (\<lambda>req. fst (s_call svc s (req\<lparr>rq_info := Some i\<rparr>))) rs" for rs
    by (induction rs) (auto simp: tower_hyper_call_def connection_info_clone_def connection_info_service_def
        connection_info_call_def split_beta Let_def)
  have 2: "fst (call_all (s_call (connection_info_service id svc)) ?c (req # reqs)) =
      fst (s_call svc s (req\<lparr>rq_info := Some i\<rparr>)) # map (\<lambda>req. fst (s_call svc s req)) reqs"
    using call_all_spent [of "\<lparr>cw_inner = s, cw_info = None\<rparr>" svc reqs]
    by (auto simp: connection_info_service_def connection_info_call_def split_beta Let_def)
  from 1 2 show ?thesis by blast
qed

section \<open>TLS information of a request\<close>

text \<open>The handshake has sent \<open>i\<close>: what every later poll of a receiver keeps.\<close>

definition published_info :: "tls_info \<Rightarrow> tls_channel \<Rightarrow> bool" where
  "published_info i ch \<longleftrightarrow> tc_tx ch = False \<and>
     (tc_rx ch = Tls_Received i \<or> tc_rx ch = Tls_Pending \<and> tc_cell ch = Full i)"

lemma published_info_send: "published_info i (tls_send i tls_channel_new)"
  by (simp add: published_info_def tls_send_def tls_channel_new_def)

lemma published_info_recv: "published_info i ch \<Longrightarrow> fst (tls_recv ch) = Ready (Some i) \<and> published_info i (snd (tls_recv ch))"
  by (auto simp: published_info_def tls_recv_def)

lemma recv_empty: "tls_recv tls_channel_empty = (Ready None, tls_channel_empty)"
  by (simp add: tls_recv_def tls_channel_empty_def)

lemma funpow_fixed: "f x = x \<Longrightarrow> (f ^^ n) x = x"
  by (induction n) simp_all

text \<open>The information the handshake of a stream publishes.\<close>

definition handshake_channel :: "('h, 's, 'io) rustls \<Rightarrow> ('h, 's) server_tls \<Rightarrow> tls_channel" where
  "handshake_channel rt st = st_channel (snd (server_poll_handshake rt st))"

lemma handshake_publishes:
  assumes "hs_poll rt h = (Ready (Inr sess), h')"
  shows "published_info (sess_info rt sess) (handshake_channel rt (server_tls_new h))"
  using assms by (simp add: handshake_channel_def server_poll_handshake_def server_handshake_def server_tls_new_def
      published_info_send Let_def)

lemma waiting_published:
  assumes "published_info i (chans rx)"
  shows "tls_request_poll svc (Tls_Waiting rx s req) chans =
    (let (p, fut) = tls_calling_poll (s_fpoll svc) (fst (s_call svc s (req\<lparr>rq_tls := Some i\<rparr>)))
     in (p, fut, chans(rx := snd (tls_recv (chans rx)))))"
  using published_info_recv [OF assms] by (cases "tls_recv (chans rx)") (auto simp: split_beta Let_def)

text \<open>C31: a request on a TLS stream waits while the handshake is going on, however often it is
  polled, without its service being called; once the handshake has finished, its service is
  called, with the TLS information of the session in the request. On a stream without TLS the
  service is called at once with the request as it is.\<close>

theorem tls_request_waits:
  assumes "hs_poll rt h = (Ready (Inr sess), h')"
  shows "((\<lambda>(fut, chans). snd (tls_request_poll svc fut chans)) ^^ n)
      (Tls_Waiting rx s req, c(rx := st_channel (server_tls_new h :: ('h, 's) server_tls))) =
      (Tls_Waiting rx s req, c(rx := tls_channel_new)) \<and>
    fst (tls_request_poll svc (Tls_Waiting rx s req) (c(rx := tls_channel_new))) = Pending \<and>
    (\<exists>chans'. tls_request_poll svc (Tls_Waiting rx s req) (c(rx := handshake_channel rt (server_tls_new h))) =
      (let (p, fut) = tls_calling_poll (s_fpoll svc) (fst (s_call svc s (req\<lparr>rq_tls := Some (sess_info rt sess)\<rparr>)))
       in (p, fut, chans'))) \<and>
    (\<exists>chans'. tls_request_poll svc (Tls_Waiting rx s req) (c(rx := tls_channel_empty)) =
      (let (p, fut) = tls_calling_poll (s_fpoll svc) (fst (s_call svc s req)) in (p, fut, chans')))"
proof -
  have 1: "tls_request_poll svc (Tls_Waiting rx s req) (c(rx := tls_channel_new)) =
      (Pending, Tls_Waiting rx s req, c(rx := tls_channel_new))" by (simp add: new_recv)
  have "((\<lambda>(fut, chans). snd (tls_request_poll svc fut chans)) ^^ n) (Tls_Waiting rx s req, c(rx := tls_channel_new)) =
      (Tls_Waiting rx s req, c(rx := tls_channel_new))"
    by (rule funpow_fixed) (simp only: prod.case 1 snd_conv)
  moreover have "\<exists>chans'. tls_request_poll svc (Tls_Waiting rx s req) (c(rx := handshake_channel rt (server_tls_new h))) =
      (let (p, fut) = tls_calling_poll (s_fpoll svc) (fst (s_call svc s (req\<lparr>rq_tls := Some (sess_info rt sess)\<rparr>)))
       in (p, fut, chans'))"
    by (subst waiting_published [where i = "sess_info rt sess"])
      (simp add: handshake_publishes [OF assms], auto simp: split_beta Let_def)
  moreover have "\<exists>chans'. tls_request_poll svc (Tls_Waiting rx s req) (c(rx := tls_channel_empty)) =
      (let (p, fut) = tls_calling_poll (s_fpoll svc) (fst (s_call svc s req)) in (p, fut, chans'))"
    by (auto simp: recv_empty split_beta Let_def)
  ultimately show ?thesis using 1 by (simp add: server_tls_new_def)
qed

text \<open>A service that answers with the request it is given.\<close>

definition probe_service :: "(unit, 'req, 'req, 'req, 'e) service" where
  "probe_service = \<lparr>s_ready = (\<lambda>u. (Ready (Inr ()), u)), s_call = (\<lambda>u req. (req, u)), s_fpoll = (\<lambda>f. (Ready (Inr f), f))\<rparr>"

definition probe_request :: "string option \<Rightarrow> (unit, unit) info_request" where
  "probe_request host = \<lparr>rq_method = ''GET'', rq_uri = \<lparr>u_scheme = None, u_authority = None, u_path = Some ''/''\<rparr>,
     rq_version = HTTP_11, rq_headers = (case host of Some h \<Rightarrow> [(''host'', h)] | None \<Rightarrow> []), rq_extensions = [], rq_body = (),
     rq_info = None, rq_tls = None\<rparr>"

definition probe_rustls :: "string option \<Rightarrow> (nat, nat, nat) rustls" where
  "probe_rustls name = \<lparr>hs_poll = (\<lambda>h. (Ready (Inr h), h)), hs_get_ref = Some, sess_get_ref = id,
     sess_info = (\<lambda>s. tls_info_server (\<lambda>_. None) name None),
     sess_io = \<lparr>a_read = (\<lambda>n s. (Pending, s)), a_write = (\<lambda>bs s. (Pending, s)), a_flush = (\<lambda>s. (Pending, s)),
       a_shutdown = (\<lambda>s. (Pending, s)), a_is_vectored = (\<lambda>_. False), a_write_vectored = (\<lambda>bs s. (Pending, s))\<rparr>\<rparr>"

theorem tls_request_waits_witness:
  "\<exists>chans'. tls_request_poll probe_service (Tls_Waiting True () (probe_request None))
      ((\<lambda>_. tls_channel_empty)(True := handshake_channel (probe_rustls (Some ''a.b'')) (server_tls_new 7))) =
    (Ready (Inr ((probe_request None)\<lparr>rq_tls := Some \<lparr>server_name = Some ''a.b'', validated_server_name = False, alpn = None\<rparr>\<rparr>) :: unit + _),
      Tls_Done, chans')"
  using tls_request_waits [of "probe_rustls (Some ''a.b'')" 7 7 7 0 probe_service True "()" "probe_request None" "\<lambda>_. tls_channel_empty"]
  by (auto simp: probe_rustls_def probe_service_def tls_calling_poll_def tls_info_server_def alpn_of_def)

section \<open>The gate of the server name\<close>

lemma tls_calling_refused: "tls_calling_poll (sni_poll fpoll) (Sni_Left (Some e)) = (Ready (Inl e), Tls_Done)"
  by (simp add: tls_calling_poll_def)

text \<open>C17: behind \<open>ValidateSNI\<close> and the TLS information, a request on a finished TLS stream
  reaches the service only if the client sent a server name that parses, and it is the host of
  the request where the request names one; then, and only then, the information the service
  sees is marked as validated. Every other request is answered with the error and the service
  is not called.\<close>

theorem sni_gate:
  assumes "published_info i (chans rx)"
    and "tls_request_poll (validate_sni parse svc) (Tls_Waiting rx s req) chans = (p, fut, chans')"
  shows "(case (Option.bind (server_name i) parse, request_host parse req) of
      (None, h) \<Rightarrow> p = Ready (Inl (SNI (MissingSNI (case h of Some a \<Rightarrow> au_text a | None \<Rightarrow> ''-'')))) \<and> fut = Tls_Done
    | (Some sni, None) \<Rightarrow> (p, fut) = tls_calling_poll (sni_poll (s_fpoll svc))
        (Sni_Right (Some (fst (s_call svc s (req\<lparr>rq_tls := Some i\<rparr>)))))
    | (Some sni, Some h) \<Rightarrow>
        (if au_host h = au_host sni
         then (p, fut) = tls_calling_poll (sni_poll (s_fpoll svc))
           (Sni_Right (Some (fst (s_call svc s (req\<lparr>rq_tls := Some (i\<lparr>validated_server_name := True\<rparr>)\<rparr>)))))
         else p = Ready (Inl (SNI (InvalidSNI (au_text h) (au_text sni)))) \<and> fut = Tls_Done))"
proof -
  let ?req = "req\<lparr>rq_tls := Some i\<rparr>"
  have host: "request_host parse ?req = request_host parse req" by (simp add: request_host_def)
  have "(p, fut) = tls_calling_poll (sni_poll (s_fpoll svc)) (fst (sni_call parse svc s ?req))"
    using waiting_published [of i chans rx "validate_sni parse svc" s req, OF assms(1)] assms(2)
    by (auto simp: validate_sni_def split_beta Let_def prod_eq_iff simp del: tls_request_poll.simps)
  then show ?thesis
    by (auto simp: sni_call_def sni_handle_def host tls_info_validated_def tls_calling_refused split_beta Let_def
        split: option.splits)
qed

definition probe_parse :: "string \<Rightarrow> authority option" where
  "probe_parse s = (if s = [] then None else Some \<lparr>au_text = s, au_host = s, au_port = None\<rparr>)"

theorem sni_gate_witness:
  "fst (tls_request_poll (validate_sni probe_parse probe_service) (Tls_Waiting True () (probe_request (Some ''a.b'')))
      (\<lambda>_. tls_send (tls_info_server (\<lambda>_. None) (Some ''c.d'') None) tls_channel_new)) =
    (Ready (Inl (SNI (InvalidSNI ''a.b'' ''c.d''))) :: (unit sni_error + (unit, unit) info_request) poll)"
proof -
  let ?i = "tls_info_server (\<lambda>_. None) (Some ''c.d'') None"
  obtain p fut chans' where r: "tls_request_poll (validate_sni probe_parse (probe_service :: (unit, (unit, unit) info_request, (unit, unit) info_request, (unit, unit) info_request, unit) service))
      (Tls_Waiting True () (probe_request (Some ''a.b''))) (\<lambda>_. tls_send ?i tls_channel_new) = (p, fut, chans')"
    by (metis prod_cases3)
  have "published_info ?i ((\<lambda>_ :: bool. tls_send ?i tls_channel_new) True)" by (rule published_info_send)
  from sni_gate [OF this r] have "p = Ready (Inl (SNI (InvalidSNI ''a.b'' ''c.d'')))"
    by (simp add: tls_info_server_def probe_parse_def request_host_def probe_request_def header_to_str_def)
  with r show ?thesis by (simp del: tls_request_poll.simps)
qed

end
