(* ===== verification/Auto_Server.thy ===== *)
theory Auto_Server
  imports Byte_IO
begin

text \<open>
  The server's automatic protocol detection (server/conn/auto.rs): \<open>ReadVersion\<close>, which
  reads the HTTP/2 preface, and \<open>UpgradableConnection\<close>, which hands the stream, rewound, to
  hyper's HTTP/1 or HTTP/2 connection. Those connections are parameters: how they are made
  (\<open>serve1\<close>, \<open>serve2\<close>), polled and told to shut down. \<open>Connecting\<close> (server/conn/connecting.rs)
  wraps the stream in \<open>TokioIo\<close> first.
\<close>

section \<open>Reading the version\<close>

text \<open>\<open>b"PRI * HTTP/2.0\r\n\r\nSM\r\n\r\n"\<close>\<close>

definition http2_prefix :: "byte list" where
  "http2_prefix = [80, 82, 73, 32, 42, 32, 72, 84, 84, 80, 47, 50, 46, 48, 13, 10, 13, 10, 83, 77, 13, 10, 13, 10]"

datatype http_protocol = Http1 | Http2

text \<open>\<open>rv_buf\<close> is the filled part of the buffer of 24 bytes.\<close>

record 's read_version =
  rv_io :: "'s option"
  rv_buf :: "byte list"
  rv_version :: http_protocol
  rv_cancelled :: bool

definition read_version_new :: "'s \<Rightarrow> 's read_version" where
  "read_version_new io = \<lparr>rv_io = Some io, rv_buf = [], rv_version = Http2, rv_cancelled = False\<rparr>"

definition read_version_cancel :: "'s read_version \<Rightarrow> 's read_version" where
  "read_version_cancel rv = rv\<lparr>rv_cancelled := True\<rparr>"

text \<open>
  The loop of \<open>ReadVersion::poll\<close>: the stream, the filled bytes and the version when it ends,
  and whether it ended (\<open>Ready (Inr ())\<close>) or the poll returns early.
\<close>

function rv_loop ::
  "('s, io_kind) aio \<Rightarrow> 's \<Rightarrow> byte list \<Rightarrow> http_protocol \<Rightarrow> 's \<times> byte list \<times> http_protocol \<times> (io_kind + unit) poll" where
  "rv_loop io s filled v =
     (if length filled < length http2_prefix then
        (let len = length filled in
         case a_read io (24 - len) s of
           (Pending, s') \<Rightarrow> (s', filled, v, Pending)
         | (Panicked, s') \<Rightarrow> (s', filled, v, Panicked)
         | (Ready (Inl e), s') \<Rightarrow> (s', filled, v, Ready (Inl e))
         | (Ready (Inr bs), s') \<Rightarrow>
             (let filled' = filled @ bs in
              if length filled' = len \<or> drop len filled' \<noteq> drop len http2_prefix
              then (s', filled', Http1, Ready (Inr ()))
              else rv_loop io s' filled' v))
      else (s, filled, v, Ready (Inr ())))"
  by pat_completeness auto

termination
  by (relation "measure (\<lambda>(io, s, filled, v). 24 - length filled)")
    (auto simp: http2_prefix_def length_0_conv)

declare rv_loop.simps [simp del]

definition read_version_poll ::
  "('s, io_kind) aio \<Rightarrow> 's read_version \<Rightarrow> (io_kind + http_protocol \<times> 's rewind) poll \<times> 's read_version" where
  "read_version_poll io rv =
     (if rv_cancelled rv then (Ready (Inl Interrupted), rv)
      else
        (case rv_io rv of
           None \<Rightarrow> (Panicked, rv)
         | Some s \<Rightarrow>
             (let (s', filled, v, r) = rv_loop io s (rv_buf rv) (rv_version rv);
                  rv' = rv\<lparr>rv_io := Some s', rv_buf := filled, rv_version := v\<rparr>
              in case r of
                   Pending \<Rightarrow> (Pending, rv')
                 | Panicked \<Rightarrow> (Panicked, rv')
                 | Ready (Inl e) \<Rightarrow> (Ready (Inl e), rv')
                 | Ready (Inr _) \<Rightarrow> (Ready (Inr (v, rewind_new s' filled)), rv'\<lparr>rv_io := None\<rparr>))))"

section \<open>The connection\<close>

datatype 'h connection_error = Hyper 'h | Service_Error string | Protocol_Error io_kind

datatype ('s, 'svc, 'c1, 'c2) connection_state =
  CS_ReadVersion "'s read_version" "'svc option" | CS_Http1 'c1 | CS_Http2 'c2

record ('s, 'svc, 'c1, 'c2, 'h) hyper_ops =
  serve1 :: "'s rewind \<Rightarrow> 'svc \<Rightarrow> 'c1"
  serve2 :: "'s rewind \<Rightarrow> 'svc \<Rightarrow> 'c2"
  poll1 :: "'c1 \<Rightarrow> ('h + unit) poll \<times> 'c1"
  poll2 :: "'c2 \<Rightarrow> ('h + unit) poll \<times> 'c2"
  shutdown1 :: "'c1 \<Rightarrow> 'c1"
  shutdown2 :: "'c2 \<Rightarrow> 'c2"

definition upgradable_new :: "'s \<Rightarrow> 'svc \<Rightarrow> ('s, 'svc, 'c1, 'c2) connection_state" where
  "upgradable_new io service = CS_ReadVersion (read_version_new io) (Some service)"

fun upgradable_shutdown ::
  "('s, 'svc, 'c1, 'c2, 'h) hyper_ops \<Rightarrow> ('s, 'svc, 'c1, 'c2) connection_state
     \<Rightarrow> ('s, 'svc, 'c1, 'c2) connection_state" where
  "upgradable_shutdown hy (CS_Http1 conn) = CS_Http1 (shutdown1 hy conn)"
| "upgradable_shutdown hy (CS_Http2 conn) = CS_Http2 (shutdown2 hy conn)"
| "upgradable_shutdown hy (CS_ReadVersion rv service) = CS_ReadVersion (read_version_cancel rv) service"

text \<open>The loop of \<open>poll\<close> runs at most twice: once more after the version is known.\<close>

fun poll_http ::
  "('s, 'svc, 'c1, 'c2, 'h) hyper_ops \<Rightarrow> ('s, 'svc, 'c1, 'c2) connection_state
     \<Rightarrow> ('h connection_error + unit) poll \<times> ('s, 'svc, 'c1, 'c2) connection_state" where
  "poll_http hy (CS_Http1 conn) = (let (r, c) = poll1 hy conn in (map_ready (map_err Hyper) r, CS_Http1 c))"
| "poll_http hy (CS_Http2 conn) = (let (r, c) = poll2 hy conn in (map_ready (map_err Hyper) r, CS_Http2 c))"
| "poll_http hy (CS_ReadVersion rv service) = (Panicked, CS_ReadVersion rv service)"

fun upgradable_poll ::
  "('s, io_kind) aio \<Rightarrow> ('s, 'svc, 'c1, 'c2, 'h) hyper_ops \<Rightarrow> ('s, 'svc, 'c1, 'c2) connection_state
     \<Rightarrow> ('h connection_error + unit) poll \<times> ('s, 'svc, 'c1, 'c2) connection_state" where
  "upgradable_poll io hy (CS_ReadVersion rv service) =
     (case read_version_poll io rv of
        (Pending, rv') \<Rightarrow> (Pending, CS_ReadVersion rv' service)
      | (Panicked, rv') \<Rightarrow> (Panicked, CS_ReadVersion rv' service)
      | (Ready (Inl e), rv') \<Rightarrow> (Ready (Inl (Protocol_Error e)), CS_ReadVersion rv' service)
      | (Ready (Inr (version, rw)), rv') \<Rightarrow>
          (case service of
             None \<Rightarrow> (Panicked, CS_ReadVersion rv' None)
           | Some svc \<Rightarrow>
               poll_http hy
                 (case version of Http1 \<Rightarrow> CS_Http1 (serve1 hy rw svc) | Http2 \<Rightarrow> CS_Http2 (serve2 hy rw svc))))"
| "upgradable_poll io hy (CS_Http1 conn) = poll_http hy (CS_Http1 conn)"
| "upgradable_poll io hy (CS_Http2 conn) = poll_http hy (CS_Http2 conn)"

text \<open>\<open>Connecting\<close>: the stream wrapped in \<open>TokioIo\<close>, polled and shut down by delegation.\<close>

definition connecting_build :: "('svc \<Rightarrow> 'a) \<Rightarrow> 'svc \<Rightarrow> 's \<Rightarrow> ('s tokio_io, 'a, 'c1, 'c2) connection_state" where
  "connecting_build adapt service stream = upgradable_new (TokioIo stream) (adapt service)"

definition connecting_poll ::
  "('s, io_kind) aio \<Rightarrow> ('s tokio_io, 'svc, 'c1, 'c2, 'h) hyper_ops \<Rightarrow> ('s tokio_io, 'svc, 'c1, 'c2) connection_state
     \<Rightarrow> ('h connection_error + unit) poll \<times> ('s tokio_io, 'svc, 'c1, 'c2) connection_state" where
  "connecting_poll io hy conn =
     (let (r, conn') = upgradable_poll (tokio_io io) hy conn
      in (case r of
            Pending \<Rightarrow> Pending
          | Panicked \<Rightarrow> Panicked
          | Ready (Inr ()) \<Rightarrow> Ready (Inr ())
          | Ready (Inl e) \<Rightarrow> Ready (Inl e), conn'))"

section \<open>What detection does to the stream\<close>

lemma rv_loop_keeps:
  assumes "byte_stream io incoming outgoing"
  shows "rv_loop io s filled v = (s', filled', v', r) \<Longrightarrow>
    filled' @ incoming s' = filled @ incoming s \<and> outgoing s' = outgoing s"
  using assms
proof (induction io s filled v rule: rv_loop.induct)
  case (1 io s filled v)
  show ?case
  proof (cases "length filled < length http2_prefix")
    case False
    with 1(2) show ?thesis by (simp add: rv_loop.simps)
  next
    case True
    obtain a t where rd: "a_read io (24 - length filled) s = (a, t)" by fastforce
    from byte_stream.read_in [OF 1(3) rd] byte_stream.read_out [OF 1(3) rd]
    have st: "read_step (24 - length filled) a (incoming s) (incoming t)" "outgoing t = outgoing s" .
    show ?thesis
    proof (cases "\<exists>bs. a = Ready (Inr bs)")
      case False
      with 1(2) True rd st show ?thesis
        by (cases a) (auto simp: rv_loop.simps [of io s] read_step_def Let_def split: sum.splits)
    next
      case r: True
      then obtain bs where a: "a = Ready (Inr bs)" by blast
      with st have inc: "incoming s = bs @ incoming t" by (simp add: read_step_def)
      show ?thesis
      proof (cases "length (filled @ bs) = length filled \<or> drop (length filled) (filled @ bs) \<noteq> drop (length filled) http2_prefix")
        case stop: True
        with 1(2) True rd a have "s' = t" "filled' = filled @ bs"
          by (auto simp: rv_loop.simps [of io s] Let_def)
        with inc st show ?thesis by simp
      next
        case go: False
        with 1(2) True rd a have "rv_loop io t (filled @ bs) v = (s', filled', v', r)"
          by (simp add: rv_loop.simps [of io s] Let_def)
        from 1(1) [OF True refl rd [symmetric] a refl refl go this 1(3)] inc st show ?thesis by simp
      qed
    qed
  qed
qed

lemma rv_loop_first:
  assumes "a_read io 24 s = (Ready (Inr bs), s')"
  shows "rv_loop io s [] v = (s', bs, if bs = http2_prefix then v else Http1, Ready (Inr ()))"
proof (cases "bs = http2_prefix")
  case True
  with assms show ?thesis
    by (simp add: rv_loop.simps [of io s] rv_loop.simps [of io s'] http2_prefix_def)
next
  case False
  then have "drop 0 ([] @ bs) \<noteq> drop 0 http2_prefix" by simp
  with assms False show ?thesis
    by (simp add: rv_loop.simps [of io s]) (simp add: http2_prefix_def)
qed

lemma poll_first:
  assumes "a_read io 24 s = (Ready (Inr bs), s')"
  shows "fst (read_version_poll io (read_version_new s)) =
    Ready (Inr (if bs = http2_prefix then Http2 else Http1, rewind_new s' bs))"
  using rv_loop_first [OF assms, of Http2]
  by (simp add: read_version_poll_def read_version_new_def)

lemma upgradable_first:
  assumes "a_read io 24 s = (Ready (Inr bs), s')"
  shows "upgradable_poll io hy (upgradable_new s svc) =
    poll_http hy (if bs = http2_prefix then CS_Http2 (serve2 hy (rewind_new s' bs) svc)
                  else CS_Http1 (serve1 hy (rewind_new s' bs) svc))"
  using poll_first [OF assms] by (auto simp: upgradable_new_def split: prod.splits)

section \<open>Properties\<close>

text \<open>C11: protocol detection loses no byte: whatever \<open>ReadVersion::poll\<close> decides, the
  rewound stream it returns yields first the bytes consumed so far, in order, and then the
  rest of the input; nothing has been written to the peer.\<close>

theorem read_version_lossless:
  assumes "byte_stream io incoming outgoing" and "rv_io rv = Some s"
    and "read_version_poll io rv = (Ready (Inr (v, rw)), rv')"
  shows "rewind_incoming incoming rw = rv_buf rv @ incoming s \<and> outgoing (rw_inner rw) = outgoing s"
proof -
  obtain s' filled v' r where loop: "rv_loop io s (rv_buf rv) (rv_version rv) = (s', filled, v', r)"
    using prod_cases4 by blast
  with assms(2,3) have "rw = rewind_new s' filled"
    by (auto simp: read_version_poll_def Let_def split: if_splits poll.splits sum.splits)
  with rv_loop_keeps [OF assms(1) loop] show ?thesis
    by (simp add: rewind_incoming_def rewind_new_def)
qed

theorem read_version_lossless_witness:
  "let p = \<lparr>pipe_in = [[80, 82], [73]], pipe_out = []\<rparr>;
       r = fst (read_version_poll pipe_io (read_version_new p))
   in \<exists>v rw. r = Ready (Inr (v, rw)) \<and> rewind_incoming pipe_incoming rw = [80, 82, 73]"
proof -
  let ?p = "\<lparr>pipe_in = [[80, 82], [73]], pipe_out = []\<rparr>"
  have "a_read pipe_io 24 ?p = (Ready (Inr [80, 82]), \<lparr>pipe_in = [[73]], pipe_out = []\<rparr>)"
    by (simp add: pipe_io_def)
  from poll_first [OF this] obtain v rw rv' where
    r: "read_version_poll pipe_io (read_version_new ?p) = (Ready (Inr (v, rw)), rv')"
    by (metis prod.collapse)
  from read_version_lossless [OF pipe.byte_stream_axioms _ r, of ?p] r show ?thesis
    by (simp add: read_version_new_def pipe_incoming_def Let_def)
qed

text \<open>C12: which protocol a new connection gets: when the first read that is ready delivers
  \<open>bs\<close>, \<open>UpgradableConnection::poll\<close> serves HTTP/2 if \<open>bs\<close> is the whole preface and HTTP/1
  otherwise, on a stream that still yields all the input, and polls it in the same call.\<close>

theorem protocol_detection:
  assumes "byte_stream io incoming outgoing" and "a_read io 24 s = (Ready (Inr bs), s')"
  shows "\<exists>rw. rewind_incoming incoming rw = incoming s \<and>
    upgradable_poll io hy (upgradable_new s svc) =
      poll_http hy (if bs = http2_prefix then CS_Http2 (serve2 hy rw svc) else CS_Http1 (serve1 hy rw svc))"
proof (intro exI conjI)
  show "rewind_incoming incoming (rewind_new s' bs) = incoming s"
    using byte_stream.read_in [OF assms] by (simp add: rewind_incoming_def rewind_new_def read_step_def)
qed (rule upgradable_first [OF assms(2)])

theorem protocol_detection_witness:
  "let p = \<lparr>pipe_in = [http2_prefix @ [0]], pipe_out = []\<rparr>;
       hy = \<lparr>serve1 = (\<lambda>rw _. rw), serve2 = (\<lambda>rw _. rw), poll1 = Pair (Pending :: (unit + unit) poll), poll2 = Pair Pending,
             shutdown1 = id, shutdown2 = id\<rparr>
   in \<exists>rw. rewind_incoming pipe_incoming rw = http2_prefix @ [0] \<and>
        snd (upgradable_poll pipe_io hy (upgradable_new p ())) = CS_Http2 rw"
proof -
  let ?p = "\<lparr>pipe_in = [http2_prefix @ [0]], pipe_out = []\<rparr>"
  have "a_read pipe_io 24 ?p = (Ready (Inr http2_prefix), \<lparr>pipe_in = [[0]], pipe_out = []\<rparr>)"
    by (simp add: pipe_io_def http2_prefix_def)
  from protocol_detection [OF pipe.byte_stream_axioms this, where svc = "()" and hy =
      "\<lparr>serve1 = (\<lambda>rw _. rw), serve2 = (\<lambda>rw _. rw), poll1 = Pair (Pending :: (unit + unit) poll), poll2 = Pair Pending,
        shutdown1 = id, shutdown2 = id\<rparr>"]
  show ?thesis by (auto simp: pipe_incoming_def Let_def)
qed

text \<open>An HTTP/2 client whose preface arrives in two pieces is served as HTTP/1: for
  every split point inside the preface, and every later input.\<close>

theorem fragmented_preface_http1:
  assumes "0 < k" and "k < 24"
  shows "upgradable_poll pipe_io hy
      (upgradable_new \<lparr>pipe_in = [take k http2_prefix, drop k http2_prefix @ rest], pipe_out = []\<rparr> svc) =
    poll_http hy (CS_Http1 (serve1 hy
      (rewind_new \<lparr>pipe_in = [drop k http2_prefix @ rest], pipe_out = []\<rparr> (take k http2_prefix)) svc))"
proof -
  have len: "length http2_prefix = 24" by (simp add: http2_prefix_def)
  with assms have "take k http2_prefix \<noteq> []" and ne: "take k http2_prefix \<noteq> http2_prefix"
    by (auto simp: take_eq_Nil)
  with assms len have "a_read pipe_io 24 \<lparr>pipe_in = [take k http2_prefix, drop k http2_prefix @ rest], pipe_out = []\<rparr>
      = (Ready (Inr (take k http2_prefix)), \<lparr>pipe_in = [drop k http2_prefix @ rest], pipe_out = []\<rparr>)"
    by (simp add: pipe_io_def)
  from upgradable_first [OF this] ne show ?thesis by simp
qed

theorem fragmented_preface_http1_witness:
  "let hy = \<lparr>serve1 = (\<lambda>_ _. 1), serve2 = (\<lambda>_ _. 2), poll1 = Pair (Pending :: (unit + unit) poll), poll2 = Pair Pending,
             shutdown1 = id, shutdown2 = id\<rparr>
   in snd (upgradable_poll pipe_io hy
        (upgradable_new \<lparr>pipe_in = [take 23 http2_prefix, drop 23 http2_prefix @ []], pipe_out = []\<rparr> ())) =
      (CS_Http1 (1 :: nat) :: (pipe, unit, nat, nat) connection_state)"
  unfolding Let_def by (subst fragmented_preface_http1) simp_all

end
