(* ===== verification/Server_Connection.thy ===== *)
theory Server_Connection
  imports Server_Info Auto_Server
begin

text \<open>
  The connections a server spawns, from several components at once: the task of a graceful
  server (server/mod.rs) around the automatic protocol detection (server/conn/auto.rs) of a stream
  that may be a TLS stream (server/conn/tls/mod.rs), whose information the requests of the
  connection wait for (server/conn/tls/info.rs).
\<close>

section \<open>Shutdown while the version is read\<close>

lemma reading_cancelled:
  "connecting_poll io hy (CS_ReadVersion (read_version_cancel rv) service) =
     (Ready (Inl (Protocol_Error Interrupted)), CS_ReadVersion (read_version_cancel rv) service)"
  by (simp add: connecting_poll_def read_version_poll_def read_version_cancel_def)

text \<open>A pending connection is still reading, or it has become a hyper connection.\<close>

lemma pending_state:
  assumes "connecting_poll io hy conn = (Pending, conn')"
  shows "(\<exists>rv service. conn' = CS_ReadVersion rv service) \<or> (\<exists>c. conn' = CS_Http1 c) \<or> (\<exists>c. conn' = CS_Http2 c)"
  by (cases conn') auto

lemma http_keeps:
  assumes "connecting_poll io hy conn = (r, conn')" and "\<nexists>rv service. conn = CS_ReadVersion rv service"
  shows "\<nexists>rv service. conn' = CS_ReadVersion rv service"
  using assms by (cases conn) (auto simp: connecting_poll_def split: prod.splits)

lemma told_loop:
  assumes "tk_told tk" and "tk_conn tk = CS_ReadVersion (read_version_cancel rv) service"
  shows "select_loop (connecting_poll io hy) shut closed first tk = tk\<lparr>tk_done := True\<rparr>"
  using assms by (simp add: select_loop.simps [of _ _ _ _ tk] reading_cancelled)

lemma told_loop_http:
  assumes "tk_told tk" and "\<nexists>rv service. tk_conn tk = CS_ReadVersion rv service"
  shows "let tk' = select_loop (connecting_poll io hy) shut closed first tk
    in tk_told tk' \<and> (\<nexists>rv service. tk_conn tk' = CS_ReadVersion rv service)"
proof -
  obtain r conn where p: "connecting_poll io hy (tk_conn tk) = (r, conn)" by fastforce
  from http_keeps [OF p assms(2)] assms(1) p show ?thesis
    by (cases r) (simp_all add: select_loop.simps [of _ _ _ _ tk] Let_def)
qed

section \<open>Detection and the TLS information\<close>

text \<open>The loop that reads the version keeps what its reads keep, and has what they establish.\<close>

lemma rv_loop_inv:
  assumes "\<And>n s r s'. P s \<Longrightarrow> a_read io n s = (r, s') \<Longrightarrow> P s'"
    and "\<And>n s r s'. P s \<Longrightarrow> Q s \<Longrightarrow> a_read io n s = (r, s') \<Longrightarrow> Q s'"
    and "\<And>n s bs s'. P s \<Longrightarrow> a_read io n s = (Ready (Inr bs), s') \<Longrightarrow> Q s'"
  shows "rv_loop io s filled v = (s', filled', v', r) \<Longrightarrow> P s \<Longrightarrow> (filled \<noteq> [] \<Longrightarrow> Q s) \<Longrightarrow>
    P s' \<and> (filled' \<noteq> [] \<or> r = Ready (Inr ()) \<longrightarrow> Q s')"
  using assms
proof (induction io s filled v rule: rv_loop.induct)
  case (1 io s filled v)
  show ?case
  proof (cases "length filled < length http2_prefix")
    case False
    then have "filled \<noteq> []" by (auto simp: http2_prefix_def)
    with False 1(2-4) show ?thesis by (simp add: rv_loop.simps [of io s])
  next
    case True
    obtain a t where rd: "a_read io (24 - length filled) s = (a, t)" by fastforce
    from 1(5) [OF 1(3) rd] have pt: "P t" .
    have qt: "filled \<noteq> [] \<Longrightarrow> Q t" using 1(6) [OF 1(3) 1(4) rd] by blast
    show ?thesis
    proof (cases "\<exists>bs. a = Ready (Inr bs)")
      case False
      with 1(2) True rd pt qt show ?thesis
        by (cases a) (auto simp: rv_loop.simps [of io s] Let_def split: sum.splits)
    next
      case r: True
      then obtain bs where a: "a = Ready (Inr bs)" by blast
      with 1(7) [OF 1(3)] rd have q: "Q t" by simp
      show ?thesis
      proof (cases "length (filled @ bs) = length filled \<or> drop (length filled) (filled @ bs) \<noteq> drop (length filled) http2_prefix")
        case stop: True
        with 1(2) True rd a have "s' = t" by (auto simp: rv_loop.simps [of io s] Let_def)
        with pt q show ?thesis by simp
      next
        case go: False
        with 1(2) True rd a have l: "rv_loop io t (filled @ bs) v = (s', filled', v', r)"
          by (simp add: rv_loop.simps [of io s] Let_def)
        show ?thesis
          by (rule 1(1) [OF True refl rd [symmetric] a refl refl go l pt q 1(5-7)])
      qed
    qed
  qed
qed

text \<open>The stream of a connection: a server's TLS stream in \<open>TokioIo\<close>.\<close>

definition tls_held :: "('h, 's, 'a, 'io) server_stream tokio_io \<Rightarrow> bool" where
  "tls_held x = (\<exists>t. ss_inner (into_inner x) = Tls t \<and> tls_inv t)"

definition tls_known :: "('h, 's, 'a, 'io) server_stream tokio_io \<Rightarrow> bool" where
  "tls_known x = (\<exists>t. ss_inner (into_inner x) = Tls t \<and> published (st_channel t))"

lemma known_streaming: "tls_inv t \<Longrightarrow> published (st_channel t) \<Longrightarrow> \<exists>s. st_state t = Streaming s"
  by (cases "st_state t") (auto simp: tls_inv_def published_def tls_channel_new_def)

lemma stream_read:
  assumes "a_read (tokio_io (server_stream_io rt io)) n x = (r, x')" and "ss_inner (into_inner x) = Tls t"
  obtains t' where "server_handshake rt (a_read (sess_io rt) n) t = (r, t')" and "ss_inner (into_inner x') = Tls t'"
  using assms
  by (cases x; cases x') (auto simp: tokio_io_def tokio_poll_read_def server_stream_io_def server_stream_lift_def tls_braid_io_def
      server_tls_io_def Let_def split: prod.splits)

lemma read_held:
  assumes "tls_held x" and "a_read (tokio_io (server_stream_io rt io)) n x = (r, x')"
  shows "tls_held x'" and "tls_known x \<Longrightarrow> tls_known x'" and "r = Ready (Inr bs) \<Longrightarrow> tls_known x'"
proof -
  from assms(1) obtain t where t: "ss_inner (into_inner x) = Tls t" "tls_inv t" by (auto simp: tls_held_def)
  obtain t' where h: "server_handshake rt (a_read (sess_io rt) n) t = (r, t')" and t': "ss_inner (into_inner x') = Tls t'"
    by (rule stream_read [OF assms(2) t(1)])
  from handshake_inv(1) [OF t(2) h] t' show "tls_held x'" by (simp add: tls_held_def)
  show "tls_known x'" if "r = Ready (Inr bs)"
    using handshake_inv(2) [OF t(2) h that] t' by (simp add: tls_known_def)
  show "tls_known x'" if "tls_known x"
  proof -
    from that t(1) have pub: "published (st_channel t)" by (simp add: tls_known_def)
    from known_streaming [OF t(2) pub] h pub have "published (st_channel t')"
      by (auto simp: server_handshake_def split: prod.splits)
    with t' show ?thesis by (simp add: tls_known_def)
  qed
qed

text \<open>
  A connection on a new TLS stream whose version is read: its polls, and the polls of the
  receivers that are cloned from its stream.
\<close>

inductive tls_detecting ::
  "('h, 's, 'io) rustls \<Rightarrow> ('io, io_kind) aio \<Rightarrow> ('h, 's, 'a, 'io) server_stream tokio_io read_version \<Rightarrow> bool"
  for rt :: "('h, 's, 'io) rustls" and io where
  accepted: "tls_detecting rt io (read_version_new (TokioIo \<lparr>ss_info = i, ss_inner = Tls (server_tls_new h)\<rparr>))"
| polled: "tls_detecting rt io rv \<Longrightarrow>
    read_version_poll (tokio_io (server_stream_io rt io)) rv = (r, rv') \<Longrightarrow> tls_detecting rt io rv'"
| asked: "tls_detecting rt io rv \<Longrightarrow> rv_io rv = Some x \<Longrightarrow>
    tls_detecting rt io (rv\<lparr>rv_io := Some (TokioIo (snd (server_stream_recv (into_inner x))))\<rparr>)"

definition detecting_inv :: "('h, 's, 'a, 'io) server_stream tokio_io read_version \<Rightarrow> bool" where
  "detecting_inv rv = (\<forall>x. rv_io rv = Some x \<longrightarrow> tls_held x \<and> (rv_buf rv \<noteq> [] \<longrightarrow> tls_known x))"

lemma poll_loop:
  assumes "detecting_inv rv" and "read_version_poll (tokio_io (server_stream_io rt io)) rv = (r, rv')"
  shows "detecting_inv rv'" and "r = Ready (Inr (v, rw)) \<Longrightarrow> tls_known (rw_inner rw)"
proof -
  have "detecting_inv rv' \<and> (\<forall>v rw. r = Ready (Inr (v, rw)) \<longrightarrow> tls_known (rw_inner rw))"
  proof (cases "rv_cancelled rv \<or> rv_io rv = None")
    case True
    with assms show ?thesis by (auto simp: read_version_poll_def split: if_splits)
  next
    case False
    then obtain x where x: "rv_io rv = Some x" by auto
    obtain x' filled v' q where loop:
      "rv_loop (tokio_io (server_stream_io rt io)) x (rv_buf rv) (rv_version rv) = (x', filled, v', q)"
      using prod_cases4 by blast
    from assms(1) x have "tls_held x" "rv_buf rv \<noteq> [] \<Longrightarrow> tls_known x" by (auto simp: detecting_inv_def)
    with rv_loop_inv [OF _ _ _ loop, of tls_held tls_known] read_held
    have "tls_held x' \<and> (filled \<noteq> [] \<or> q = Ready (Inr ()) \<longrightarrow> tls_known x')" by blast
    with assms(2) x loop False show ?thesis
      by (auto simp: read_version_poll_def detecting_inv_def rewind_new_def Let_def split: poll.splits sum.splits)
  qed
  then show "detecting_inv rv'" and "r = Ready (Inr (v, rw)) \<Longrightarrow> tls_known (rw_inner rw)" by auto
qed

lemma recv_held:
  assumes "tls_held x"
  shows "tls_held (TokioIo (snd (server_stream_recv (into_inner x))))"
    and "tls_known x \<Longrightarrow> tls_known (TokioIo (snd (server_stream_recv (into_inner x))))"
proof -
  from assms obtain t where t: "ss_inner (into_inner x) = Tls t" "tls_inv t" by (auto simp: tls_held_def)
  then have e: "ss_inner (snd (server_stream_recv (into_inner x))) = Tls (snd (server_recv t))"
    by (simp add: server_stream_recv_def split: prod.splits)
  from recv_inv [OF t(2)] e show "tls_held (TokioIo (snd (server_stream_recv (into_inner x))))"
    by (simp add: tls_held_def)
  show "tls_known (TokioIo (snd (server_stream_recv (into_inner x))))" if "tls_known x"
    using that t e published_recv [of "st_channel t"]
    by (auto simp: tls_known_def server_recv_def split: prod.splits)
qed

lemma detecting_ok: "tls_detecting rt io rv \<Longrightarrow> detecting_inv rv"
proof (induction rule: tls_detecting.induct)
  case (accepted i h)
  then show ?case by (simp add: detecting_inv_def read_version_new_def tls_held_def tls_inv_def server_tls_new_def)
next
  case (polled rv r rv')
  from poll_loop(1) [OF polled(3,2)] show ?case .
next
  case (asked rv x)
  with recv_held [of x] show ?case by (auto simp: detecting_inv_def)
qed

section \<open>Properties\<close>

text \<open>C30: a shutdown ends the detection. When the graceful server has told its connections to
  shut down, a connection that was still reading its version is over after the next poll of
  its task, its bytes untouched when the task sees the shutdown first; otherwise that very poll
  may have settled the version, and the hyper connection has then been told to shut down. No
  connection goes on waiting for its peer's first bytes.\<close>

theorem shutdown_ends_detection:
  assumes "i < length (cn_tasks net)" and "cn_tasks net ! i = \<lparr>tk_conn = CS_ReadVersion rv service, tk_told = False, tk_done = False\<rparr>"
    and "cn_shutdown net = 0"
  shows "let tk = cn_tasks (task_poll (connecting_poll io hy) (upgradable_shutdown hy) first i net) ! i
    in if first False
       then tk_done tk \<or> tk_told tk \<and> (\<nexists>rv service. tk_conn tk = CS_ReadVersion rv service)
       else tk = \<lparr>tk_conn = CS_ReadVersion (read_version_cancel rv) service, tk_told = True, tk_done = True\<rparr>"
proof -
  let ?loop = "select_loop (connecting_poll io hy) (upgradable_shutdown hy) True first"
  let ?tk = "\<lparr>tk_conn = CS_ReadVersion rv service, tk_told = False, tk_done = False\<rparr>"
  have tk: "cn_tasks (task_poll (connecting_poll io hy) (upgradable_shutdown hy) first i net) ! i = ?loop ?tk"
    using assms by (simp add: task_poll_def close_poll_def Let_def split: prod.splits)
  have "if first False
     then tk_done (?loop ?tk) \<or> tk_told (?loop ?tk) \<and> (\<nexists>rv service. tk_conn (?loop ?tk) = CS_ReadVersion rv service)
     else ?loop ?tk = \<lparr>tk_conn = CS_ReadVersion (read_version_cancel rv) service, tk_told = True, tk_done = True\<rparr>"
  proof (cases "first False")
    case False
    then show ?thesis by (simp add: select_loop.simps [of _ _ _ _ ?tk] told_loop)
  next
    case True
    obtain r conn where p: "connecting_poll io hy (CS_ReadVersion rv service) = (r, conn)" by fastforce
    show ?thesis
    proof (cases "r = Pending")
      case False
      with True p show ?thesis by (cases r) (simp_all add: select_loop.simps [of _ _ _ _ ?tk])
    next
      case pend: True
      let ?tk' = "\<lparr>tk_conn = upgradable_shutdown hy conn, tk_told = True, tk_done = False\<rparr>"
      from True p pend have l: "?loop ?tk = ?loop ?tk'" by (simp add: select_loop.simps [of _ _ _ _ ?tk])
      show ?thesis
      proof (cases "\<exists>rv service. conn = CS_ReadVersion rv service")
        case reading: True
        with l True show ?thesis by (auto simp: told_loop)
      next
        case http: False
        then have "\<nexists>rv service. tk_conn ?tk' = CS_ReadVersion rv service" by (cases conn) auto
        with told_loop_http [of ?tk' io hy "upgradable_shutdown hy" True first] l True show ?thesis by (simp add: Let_def)
      qed
    qed
  qed
  with tk show ?thesis by (simp add: Let_def)
qed

definition silent_hyper :: "(nat tokio_io, unit, nat, nat, unit) hyper_ops" where
  "silent_hyper = \<lparr>serve1 = (\<lambda>_ _. 1), serve2 = (\<lambda>_ _. 2), poll1 = Pair Pending, poll2 = Pair Pending,
     shutdown1 = Suc, shutdown2 = Suc\<rparr>"

definition silent_io :: "(nat, io_kind) aio" where
  "silent_io = \<lparr>a_read = (\<lambda>n s. (Pending, s)), a_write = (\<lambda>bs s. (Pending, s)), a_flush = (\<lambda>s. (Pending, s)),
     a_shutdown = (\<lambda>s. (Pending, s)), a_is_vectored = (\<lambda>_. False), a_write_vectored = (\<lambda>bs s. (Pending, s))\<rparr>"

text \<open>A peer that never sends a byte does not keep its task alive.\<close>

theorem shutdown_ends_detection_witness:
  "let tk = \<lparr>tk_conn = connecting_build id () 7, tk_told = False, tk_done = False\<rparr>;
       net = \<lparr>cn_shutdown = 0, cn_finished = 1, cn_tasks = [tk]\<rparr>;
       net' = task_poll (connecting_poll silent_io silent_hyper) (upgradable_shutdown silent_hyper) (\<lambda>_. False) 0 net
   in tk_done (cn_tasks net' ! 0) \<and>
      tk_conn (cn_tasks net' ! 0) = CS_ReadVersion (read_version_cancel (read_version_new (TokioIo 7))) (Some ())"
  using shutdown_ends_detection [of 0 "\<lparr>cn_shutdown = 0, cn_finished = 1, cn_tasks =
      [\<lparr>tk_conn = connecting_build id () 7, tk_told = False, tk_done = False\<rparr>]\<rparr>" "read_version_new (TokioIo 7)" "Some ()"
      silent_io silent_hyper "\<lambda>_. False"]
  by (simp add: connecting_build_def upgradable_new_def Let_def)


definition pipe_rustls :: "(pipe, pipe, pipe) rustls" where
  "pipe_rustls = \<lparr>hs_poll = (\<lambda>h. (Ready (Inr h), h)), hs_get_ref = Some, sess_get_ref = id,
     sess_info = (\<lambda>s. tls_info_server (\<lambda>_. None) (Some ''a.b'') None), sess_io = pipe_io\<rparr>"

definition pipe_accepted :: "(pipe, pipe, unit, pipe) server_stream tokio_io read_version" where
  "pipe_accepted = read_version_new (TokioIo \<lparr>ss_info = \<lparr>local_addr = (), remote_addr = (), buffer_size = None\<rparr>,
     ss_inner = Tls (server_tls_new \<lparr>pipe_in = [[71, 69, 84]], pipe_out = []\<rparr>)\<rparr>)"


end
