(* ===== verification/Unsafe_Buffers.thy ===== *)
theory Unsafe_Buffers
  imports Auto_Server
begin

text \<open>
  The unsafe code: the buffers of uninitialised memory behind \<open>ReadVersion\<close>
  (server/conn/auto.rs), \<open>Rewind\<close> (rewind.rs) and \<open>TokioIo\<close> (bridge/io.rs). A byte of memory
  may be uninitialised; what breaks the contract of an unsafe operation is \<open>Undefined\<close>. The
  lemmas show that nothing here is, and that these definitions do to the bytes what the byte
  streams of Byte_IO and the detection of Auto_Server do. The buffers themselves are hyper's and
  tokio's: parameters, with the laws their documentation states as locales.
\<close>

section \<open>Memory and buffers\<close>

datatype 'a mem = Done 'a | Panics | Undefined

fun mem_bind :: "'a mem \<Rightarrow> ('a \<Rightarrow> 'b mem) \<Rightarrow> 'b mem" where
  "mem_bind (Done v) f = f v"
| "mem_bind Panics f = Panics"
| "mem_bind Undefined f = Undefined"

text \<open>
  A buffer over memory it borrows: all its cells (\<open>None\<close> is uninitialised) and how many are
  filled. \<open>bf_write\<close> is a write to the cells through \<open>as_mut\<close> or \<open>unfilled_mut\<close>.
\<close>

record 'b buf_ops =
  bf_uninit :: "byte option list \<Rightarrow> 'b"
  bf_cells :: "'b \<Rightarrow> byte option list"
  bf_filled :: "'b \<Rightarrow> nat"
  bf_write :: "byte option list \<Rightarrow> 'b \<Rightarrow> 'b"

record 'b hyper_buf_ops = "'b buf_ops" +
  bf_advance :: "nat \<Rightarrow> 'b \<Rightarrow> 'b mem"

record 'b tokio_buf_ops = "'b buf_ops" +
  bf_init :: "'b \<Rightarrow> nat"
  bf_assume_init :: "nat \<Rightarrow> 'b \<Rightarrow> 'b mem"
  bf_set_filled :: "nat \<Rightarrow> 'b \<Rightarrow> 'b mem"

definition initialised :: "byte option list \<Rightarrow> bool" where
  "initialised cs \<longleftrightarrow> None \<notin> set cs"

definition unfilled :: "('b, 'm) buf_ops_scheme \<Rightarrow> 'b \<Rightarrow> byte option list" where
  "unfilled ops b = drop (bf_filled ops b) (bf_cells ops b)"

text \<open>The safe \<open>filled()\<close> reads the filled cells as bytes.\<close>

definition filled_bytes :: "('b, 'm) buf_ops_scheme \<Rightarrow> 'b \<Rightarrow> byte list mem" where
  "filled_bytes ops b =
     (let cs = take (bf_filled ops b) (bf_cells ops b) in if initialised cs then Done (map the cs) else Undefined)"

locale raw_buf =
  fixes ops :: "('b, 'm) buf_ops_scheme"
  assumes uninit: "bf_cells ops (bf_uninit ops cs) = cs" "bf_filled ops (bf_uninit ops cs) = 0"
    and writes: "length cs = length (bf_cells ops b) \<Longrightarrow> take (bf_filled ops b) cs = take (bf_filled ops b) (bf_cells ops b)
      \<Longrightarrow> bf_cells ops (bf_write ops cs b) = cs \<and> bf_filled ops (bf_write ops cs b) = bf_filled ops b"

text \<open>\<open>ReadBufCursor::advance\<close>: the cells it moves over must be initialised.\<close>

locale hyper_buf = raw_buf ops for ops :: "('b, 'm) hyper_buf_ops_scheme" +
  assumes advance: "n \<le> length (unfilled ops b) \<Longrightarrow> initialised (take n (unfilled ops b)) \<Longrightarrow>
    \<exists>b'. bf_advance ops n b = Done b' \<and> bf_cells ops b' = bf_cells ops b \<and> bf_filled ops b' = bf_filled ops b + n"

text \<open>\<open>ReadBuf::assume_init\<close> counts from the filled part; \<open>set_filled\<close> panics beyond what is initialised.\<close>

locale tokio_buf = raw_buf ops for ops :: "('b, 'm) tokio_buf_ops_scheme" +
  assumes assume_init: "n \<le> length (unfilled ops b) \<Longrightarrow> initialised (take n (unfilled ops b)) \<Longrightarrow>
      \<exists>b'. bf_assume_init ops n b = Done b' \<and> bf_cells ops b' = bf_cells ops b \<and> bf_filled ops b' = bf_filled ops b \<and>
        bf_filled ops b + n \<le> bf_init ops b'"
    and set_filled: "n \<le> bf_init ops b \<Longrightarrow> n \<le> length (bf_cells ops b) \<Longrightarrow>
      \<exists>b'. bf_set_filled ops n b = Done b' \<and> bf_cells ops b' = bf_cells ops b \<and> bf_filled ops b' = n"

section \<open>Reading into a buffer\<close>

type_synonym ('b, 's, 'e) raw_read = "'b \<Rightarrow> 's \<Rightarrow> (('e + unit) poll \<times> 'b \<times> 's) mem"

text \<open>\<open>remaining\<close> and \<open>put_slice\<close> of rewind.rs.\<close>

definition cursor_remaining :: "('b, 'm) buf_ops_scheme \<Rightarrow> 'b \<Rightarrow> nat" where
  "cursor_remaining ops b = length (unfilled ops b)"

definition put_slice :: "('b, 'm) hyper_buf_ops_scheme \<Rightarrow> byte list \<Rightarrow> 'b \<Rightarrow> 'b mem" where
  "put_slice ops bs b =
     (if length bs \<le> cursor_remaining ops b
      then let amt = length bs;
               b' = bf_write ops (take (bf_filled ops b) (bf_cells ops b) @ map Some bs @ drop amt (unfilled ops b)) b
           in bf_advance ops amt b'
      else Panics)"

definition rewind_raw_read ::
  "('b, 'm) hyper_buf_ops_scheme \<Rightarrow> ('b, 's, 'e) raw_read \<Rightarrow> ('b, 's rewind, 'e) raw_read" where
  "rewind_raw_read ops raw b rw =
     (let inner = mem_bind (raw b (rw_inner rw)) (\<lambda>(r, b', s'). Done (r, b', \<lparr>rw_inner = s', rw_prefix = None\<rparr>))
      in case rw_prefix rw of
           Some prefix \<Rightarrow>
             if prefix \<noteq> []
             then (let n = min (length prefix) (cursor_remaining ops b); prefix' = drop n prefix
                   in mem_bind (put_slice ops (take n prefix) b) (\<lambda>b'.
                        Done (Ready (Inr ()), b', rw\<lparr>rw_prefix := if prefix' \<noteq> [] then Some prefix' else None\<rparr>)))
             else inner
         | None \<Rightarrow> inner)"

text \<open>
  \<open>TokioIo\<close> in both directions: the inner reader gets a buffer of its own over the unfilled
  cells, whose memory is that of the outer one.
\<close>

definition tokio_raw_read ::
  "('b, 'm) hyper_buf_ops_scheme \<Rightarrow> ('u, 'n) tokio_buf_ops_scheme \<Rightarrow> ('u, 's, 'e) raw_read \<Rightarrow> ('b, 's tokio_io, 'e) raw_read" where
  "tokio_raw_read ops sub raw b t =
     mem_bind (raw (bf_uninit sub (unfilled ops b)) (into_inner t)) (\<lambda>(r, tbuf, s').
       let b' = bf_write ops (take (bf_filled ops b) (bf_cells ops b) @ bf_cells sub tbuf) b
       in case r of
            Ready (Inr _) \<Rightarrow>
              mem_bind (bf_advance ops (bf_filled sub tbuf) b') (\<lambda>b''. Done (Ready (Inr ()), b'', TokioIo s'))
          | _ \<Rightarrow> Done (r, b', TokioIo s'))"

definition hyper_raw_read ::
  "('u, 'n) tokio_buf_ops_scheme \<Rightarrow> ('b, 'm) hyper_buf_ops_scheme \<Rightarrow> ('b, 's, 'e) raw_read \<Rightarrow> ('u, 's tokio_io, 'e) raw_read" where
  "hyper_raw_read ops sub raw tbuf t =
     (let filled = bf_filled ops tbuf
      in mem_bind (raw (bf_uninit sub (unfilled ops tbuf)) (into_inner t)) (\<lambda>(r, buf, s').
           let tbuf' = bf_write ops (take filled (bf_cells ops tbuf) @ bf_cells sub buf) tbuf
           in case r of
                Ready (Inr _) \<Rightarrow>
                  (let sub_filled = bf_filled sub buf; n_filled = filled + sub_filled; n_init = sub_filled
                   in mem_bind (bf_assume_init ops n_init tbuf') (\<lambda>tbuf2.
                        mem_bind (bf_set_filled ops n_filled tbuf2) (\<lambda>tbuf3.
                          Done (Ready (Inr ()), tbuf3, TokioIo s'))))
              | _ \<Rightarrow> Done (r, tbuf', TokioIo s')))"

section \<open>The detection over its array\<close>

record 's raw_version =
  rm_io :: "'s option"
  rm_buf :: "byte option list"
  rm_filled :: nat
  rm_version :: http_protocol
  rm_cancelled :: bool

definition raw_version_new :: "'s \<Rightarrow> 's raw_version" where
  "raw_version_new io = \<lparr>rm_io = Some io, rm_buf = replicate 24 None, rm_filled = 0, rm_version = Http2, rm_cancelled = False\<rparr>"

text \<open>
  The loop, which might not end over any buffer: the buffer, the stream, the fields \<open>filled\<close> and
  \<open>version\<close>, and how it ends.
\<close>

partial_function (option) raw_loop ::
  "('b, 'm) hyper_buf_ops_scheme \<Rightarrow> ('b, 's, 'e) raw_read \<Rightarrow> 'b \<Rightarrow> 's \<Rightarrow> nat \<Rightarrow> http_protocol
     \<Rightarrow> ('b \<times> 's \<times> nat \<times> http_protocol \<times> ('e + unit) poll) mem option" where
  "raw_loop ops raw b s filled v =
     (if bf_filled ops b < length http2_prefix then
        (let len = bf_filled ops b
         in case raw b s of
              Panics \<Rightarrow> Some Panics
            | Undefined \<Rightarrow> Some Undefined
            | Done (r, b', s') \<Rightarrow>
                (case r of
                   Ready (Inr _) \<Rightarrow>
                     (case filled_bytes ops b' of
                        Panics \<Rightarrow> Some Panics
                      | Undefined \<Rightarrow> Some Undefined
                      | Done bs \<Rightarrow>
                          if length bs = len \<or> drop len bs \<noteq> drop len http2_prefix
                          then Some (Done (b', s', length bs, Http1, Ready (Inr ())))
                          else raw_loop ops raw b' s' (length bs) v)
                 | _ \<Rightarrow> Some (Done (b', s', filled, v, r))))
      else Some (Done (b, s, filled, v, Ready (Inr ()))))"

definition raw_version_poll ::
  "('b, 'm) hyper_buf_ops_scheme \<Rightarrow> ('b, 's, io_kind) raw_read \<Rightarrow> 's raw_version
     \<Rightarrow> ((io_kind + http_protocol \<times> 's rewind) poll \<times> 's raw_version) mem option" where
  "raw_version_poll ops raw rv =
     (if rm_cancelled rv then Some (Done (Ready (Inl Interrupted), rv))
      else case bf_advance ops (rm_filled rv) (bf_uninit ops (rm_buf rv)) of
          Panics \<Rightarrow> Some Panics
        | Undefined \<Rightarrow> Some Undefined
        | Done b \<Rightarrow>
            (case rm_io rv of
               None \<Rightarrow> Some (Done (Panicked, rv))
             | Some s \<Rightarrow>
                 map_option (\<lambda>m. mem_bind m (\<lambda>(b', s', filled, v, r).
                   let rv' = rv\<lparr>rm_io := Some s', rm_buf := bf_cells ops b', rm_filled := filled, rm_version := v\<rparr>
                   in case r of
                        Pending \<Rightarrow> Done (Pending, rv')
                      | Panicked \<Rightarrow> Done (Panicked, rv')
                      | Ready (Inl e) \<Rightarrow> Done (Ready (Inl e), rv')
                      | Ready (Inr _) \<Rightarrow>
                          mem_bind (filled_bytes ops b') (\<lambda>bs.
                            Done (Ready (Inr (v, rewind_new s' bs)), rv'\<lparr>rm_io := None\<rparr>))))
                   (raw_loop ops raw b s (rm_filled rv) (rm_version rv))))"

section \<open>What a reader over memory implements\<close>

text \<open>A buffer is sound when its filled cells are initialised; then they are its contents.\<close>

definition buf_ok :: "('b, 'm) buf_ops_scheme \<Rightarrow> 'b \<Rightarrow> bool" where
  "buf_ok ops b \<longleftrightarrow> bf_filled ops b \<le> length (bf_cells ops b) \<and> initialised (take (bf_filled ops b) (bf_cells ops b))"

definition contents :: "('b, 'm) buf_ops_scheme \<Rightarrow> 'b \<Rightarrow> byte list" where
  "contents ops b = map the (take (bf_filled ops b) (bf_cells ops b))"

text \<open>
  A reader over memory implements a byte stream: it never breaks a contract, keeps the buffer
  sound and its size, and appends to its contents exactly what the stream reads.
\<close>

fun read_result :: "('e + byte list) poll \<Rightarrow> ('e + unit) poll \<times> byte list" where
  "read_result (Ready (Inr bs)) = (Ready (Inr ()), bs)"
| "read_result (Ready (Inl e)) = (Ready (Inl e), [])"
| "read_result Pending = (Pending, [])"
| "read_result Panicked = (Panicked, [])"

definition grown :: "('b, 'm) buf_ops_scheme \<Rightarrow> 'b \<Rightarrow> byte list \<Rightarrow> 'b \<Rightarrow> bool" where
  "grown ops b bs b' \<longleftrightarrow> buf_ok ops b' \<and> length (bf_cells ops b') = length (bf_cells ops b) \<and>
     contents ops b' = contents ops b @ bs"

definition reads :: "('b, 'm) buf_ops_scheme \<Rightarrow> ('s, 'e) aio \<Rightarrow> ('b, 's, 'e) raw_read \<Rightarrow> bool" where
  "reads ops io raw \<longleftrightarrow> (\<forall>b s. buf_ok ops b \<longrightarrow>
     (\<exists>b'. raw b s = Done (fst (read_result (fst (a_read io (length (unfilled ops b)) s))), b',
          snd (a_read io (length (unfilled ops b)) s)) \<and>
        grown ops b (snd (read_result (fst (a_read io (length (unfilled ops b)) s)))) b'))"

lemma initialised_simps [simp]:
  "initialised []" "initialised (map Some bs)"
  "initialised (xs @ ys) \<longleftrightarrow> initialised xs \<and> initialised ys"
  by (auto simp: initialised_def)

lemma initialised_some: "initialised cs \<Longrightarrow> map Some (map the cs) = cs"
  by (induction cs) (auto simp: initialised_def)

lemma contents_length: "buf_ok ops b \<Longrightarrow> length (contents ops b) = bf_filled ops b"
  by (simp add: contents_def buf_ok_def)

lemma filled_bytes_ok: "buf_ok ops b \<Longrightarrow> filled_bytes ops b = Done (contents ops b)"
  by (simp add: filled_bytes_def contents_def buf_ok_def Let_def)

lemma cells_split:
  "buf_ok ops b \<Longrightarrow> bf_cells ops b = map Some (contents ops b) @ unfilled ops b"
  by (simp add: contents_def unfilled_def buf_ok_def initialised_some del: map_map)

text \<open>A buffer is its contents and the cells that are not filled.\<close>

lemma buf_okI:
  assumes "bf_cells ops b = map Some bs @ cs" and "bf_filled ops b = length bs"
  shows "buf_ok ops b" and "contents ops b = bs" and "unfilled ops b = cs"
  using assms by (auto simp: buf_ok_def contents_def unfilled_def comp_def)

context raw_buf
begin

lemma uninit_ok:
  "buf_ok ops (bf_uninit ops cs)" "contents ops (bf_uninit ops cs) = []" "unfilled ops (bf_uninit ops cs) = cs"
  by (simp_all add: buf_ok_def contents_def unfilled_def uninit)

text \<open>A write to the unfilled cells.\<close>

lemma write_ok:
  assumes "buf_ok ops b" and "length cs = length (unfilled ops b)"
    and "b' = bf_write ops (take (bf_filled ops b) (bf_cells ops b) @ cs) b"
  shows "bf_cells ops b' = map Some (contents ops b) @ cs" and "bf_filled ops b' = length (contents ops b)"
proof -
  from assms(1) have "bf_filled ops b \<le> length (bf_cells ops b)" and t: "take (bf_filled ops b) (bf_cells ops b) = map Some (contents ops b)"
    by (simp_all add: buf_ok_def contents_def initialised_some del: map_map)
  with writes [of "take (bf_filled ops b) (bf_cells ops b) @ cs" b] assms(2,3)
  show "bf_cells ops b' = map Some (contents ops b) @ cs" and "bf_filled ops b' = length (contents ops b)"
    using contents_length [OF assms(1)] by (simp_all add: unfilled_def)
qed

lemma write_grown:
  assumes "buf_ok ops b" and "length cs = length (unfilled ops b)"
  shows "grown ops b [] (bf_write ops (take (bf_filled ops b) (bf_cells ops b) @ cs) b)"
  using write_ok [OF assms refl] buf_okI [OF write_ok [OF assms refl]] cells_split [OF assms(1)] assms(2)
  by (simp add: grown_def)

end

context hyper_buf
begin

lemma advance_ok:
  assumes "bf_cells ops b = map Some xs @ map Some bs @ cs" and "bf_filled ops b = length xs"
  shows "\<exists>b'. bf_advance ops (length bs) b = Done b' \<and> bf_cells ops b' = map Some (xs @ bs) @ cs \<and>
    bf_filled ops b' = length (xs @ bs)"
  using advance [of "length bs" b] assms by (simp add: unfilled_def)

text \<open>Bytes written to the unfilled cells and counted.\<close>

lemma write_advance:
  assumes "buf_ok ops b" and "length (map Some bs @ cs) = length (unfilled ops b)"
  shows "\<exists>b'. bf_advance ops (length bs) (bf_write ops (take (bf_filled ops b) (bf_cells ops b) @ map Some bs @ cs) b) = Done b' \<and>
    grown ops b bs b'"
proof -
  from advance_ok [OF write_ok [OF assms refl]] obtain b' where
    b': "bf_advance ops (length bs) (bf_write ops (take (bf_filled ops b) (bf_cells ops b) @ map Some bs @ cs) b) = Done b'"
      "bf_cells ops b' = map Some (contents ops b @ bs) @ cs" "bf_filled ops b' = length (contents ops b @ bs)" by blast
  from buf_okI [OF b'(2,3)] b'(2) cells_split [OF assms(1)] assms(2) have "grown ops b bs b'"
    by (simp add: grown_def)
  with b'(1) show ?thesis by blast
qed

lemma put_ok:
  assumes "buf_ok ops b" and "length bs \<le> length (unfilled ops b)"
  shows "\<exists>b'. put_slice ops bs b = Done b' \<and> grown ops b bs b'"
  using write_advance [OF assms(1), of bs "drop (length bs) (unfilled ops b)"] assms(2)
  by (simp add: put_slice_def cursor_remaining_def Let_def)

text \<open>\<open>Rewind\<close> over memory implements \<open>Rewind\<close> over bytes.\<close>

lemma rewind_reads:
  assumes "reads ops io raw"
  shows "reads ops (rewind_io io) (rewind_raw_read ops raw)"
  unfolding reads_def
proof (intro allI impI)
  fix b rw
  assume ok: "buf_ok ops b"
  let ?n = "length (unfilled ops b)"
  let ?R = "a_read (rewind_io io) ?n rw"
  show "\<exists>b'. rewind_raw_read ops raw b rw = Done (fst (read_result (fst ?R)), b', snd ?R) \<and> grown ops b (snd (read_result (fst ?R))) b'"
  proof (cases "rw_prefix rw = None \<or> rw_prefix rw = Some []")
    case True
    from assms ok obtain b' where raw: "raw b (rw_inner rw) = Done (fst (read_result (fst (a_read io ?n (rw_inner rw)))), b',
        snd (a_read io ?n (rw_inner rw)))" "grown ops b (snd (read_result (fst (a_read io ?n (rw_inner rw))))) b'"
      unfolding reads_def by blast
    with True show ?thesis by (auto simp: rewind_raw_read_def rewind_io_def rewind_read_def case_prod_beta)
  next
    case False
    then obtain p where p: "rw_prefix rw = Some p" "p \<noteq> []" by auto
    from put_ok [OF ok, of "take (min (length p) ?n) p"]
    show ?thesis
      by (auto simp: rewind_raw_read_def rewind_io_def rewind_read_def p cursor_remaining_def Let_def)
  qed
qed

end

text \<open>\<open>TokioIo\<close> in both directions: a reader of one library's buffers from one of the other's.\<close>

locale buf_adapter = hyper: hyper_buf hops + tokio: tokio_buf tops
  for hops :: "('b, 'm) hyper_buf_ops_scheme" and tops :: "('u, 'n) tokio_buf_ops_scheme"
begin

lemma tokio_reads:
  assumes "reads tops io raw"
  shows "reads hops (tokio_io io) (tokio_raw_read hops tops raw)"
  unfolding reads_def
proof (intro allI impI)
  fix b t
  assume ok: "buf_ok hops b"
  let ?n = "length (unfilled hops b)" and ?sub = "bf_uninit tops (unfilled hops b)"
  let ?A = "a_read io ?n (into_inner t)" and ?R = "a_read (tokio_io io) (length (unfilled hops b)) t"
  have same: "fst ?R = fst ?A" "snd ?R = TokioIo (snd ?A)"
    by (cases ?A; simp add: tokio_io_def tokio_poll_read_def)+
  from assms obtain tbuf where raw: "raw ?sub (into_inner t) = Done (fst (read_result (fst ?A)), tbuf, snd ?A)"
    and g: "grown tops ?sub (snd (read_result (fst ?A))) tbuf"
    unfolding reads_def using tokio.uninit_ok [of "unfilled hops b"] by metis
  define bs where "bs = snd (read_result (fst ?A))"
  from g have cells: "bf_cells tops tbuf = map Some bs @ unfilled tops tbuf" and len: "length (bf_cells tops tbuf) = ?n"
    and filled: "bf_filled tops tbuf = length bs"
    using cells_split [of tops tbuf] contents_length [of tops tbuf] tokio.uninit_ok [of "unfilled hops b"]
    by (auto simp: grown_def bs_def tokio.uninit)
  from hyper.write_grown [OF ok len] have w: "grown hops b [] (bf_write hops (take (bf_filled hops b) (bf_cells hops b) @ bf_cells tops tbuf) b)" .
  from hyper.write_advance [OF ok len [unfolded cells]]
  have a: "\<exists>b'. bf_advance hops (length bs) (bf_write hops (take (bf_filled hops b) (bf_cells hops b) @ bf_cells tops tbuf) b) = Done b' \<and>
    grown hops b bs b'" by (simp add: cells [symmetric])
  show "\<exists>b'. tokio_raw_read hops tops raw b t = Done (fst (read_result (fst ?R)), b', snd ?R) \<and> grown hops b (snd (read_result (fst ?R))) b'"
    using raw w a filled bs_def unfolding same
    by (cases "fst ?A" rule: read_result.cases) (auto simp: tokio_raw_read_def Let_def)
qed

lemma tokio_fills:
  assumes "buf_ok tops b" and "length (map Some bs @ cs) = length (unfilled tops b)"
    and "b1 = bf_write tops (take (bf_filled tops b) (bf_cells tops b) @ map Some bs @ cs) b"
  shows "\<exists>b2 b3. bf_assume_init tops (length bs) b1 = Done b2 \<and>
    bf_set_filled tops (bf_filled tops b + length bs) b2 = Done b3 \<and> grown tops b bs b3"
proof -
  note w = tokio.write_ok [OF assms]
  from buf_okI [OF w] have u: "unfilled tops b1 = map Some bs @ cs" by simp
  from tokio.assume_init [of "length bs" b1] u obtain b2 where b2: "bf_assume_init tops (length bs) b1 = Done b2"
    "bf_cells tops b2 = bf_cells tops b1" "bf_filled tops b1 + length bs \<le> bf_init tops b2" by auto
  have n: "bf_filled tops b + length bs = length (contents tops b @ bs)" by (simp add: contents_length [OF assms(1)])
  from tokio.set_filled [of "bf_filled tops b + length bs" b2] b2 w obtain b3 where
    b3: "bf_set_filled tops (bf_filled tops b + length bs) b2 = Done b3" "bf_cells tops b3 = map Some (contents tops b @ bs) @ cs"
      "bf_filled tops b3 = length (contents tops b @ bs)"
    unfolding n by auto
  from buf_okI [OF b3(2,3)] b3(2) cells_split [OF assms(1)] assms(2) have "grown tops b bs b3" by (simp add: grown_def)
  with b2(1) b3(1) show ?thesis by blast
qed

lemma hyper_reads:
  assumes "reads hops io raw"
  shows "reads tops (tokio_io io) (hyper_raw_read tops hops raw)"
  unfolding reads_def
proof (intro allI impI)
  fix b t
  assume ok: "buf_ok tops b"
  let ?n = "length (unfilled tops b)" and ?sub = "bf_uninit hops (unfilled tops b)"
  let ?A = "a_read io ?n (into_inner t)" and ?R = "a_read (tokio_io io) (length (unfilled tops b)) t"
  have same: "fst ?R = fst ?A" "snd ?R = TokioIo (snd ?A)"
    by (cases ?A; simp add: tokio_io_def tokio_poll_read_def)+
  from assms obtain buf where raw: "raw ?sub (into_inner t) = Done (fst (read_result (fst ?A)), buf, snd ?A)"
    and g: "grown hops ?sub (snd (read_result (fst ?A))) buf"
    unfolding reads_def using hyper.uninit_ok [of "unfilled tops b"] by metis
  define bs where "bs = snd (read_result (fst ?A))"
  from g have cells: "bf_cells hops buf = map Some bs @ unfilled hops buf" and len: "length (bf_cells hops buf) = ?n"
    and filled: "bf_filled hops buf = length bs"
    using cells_split [of hops buf] contents_length [of hops buf] hyper.uninit_ok [of "unfilled tops b"]
    by (auto simp: grown_def bs_def hyper.uninit)
  from tokio.write_grown [OF ok len] have w: "grown tops b [] (bf_write tops (take (bf_filled tops b) (bf_cells tops b) @ bf_cells hops buf) b)" .
  from tokio_fills [OF ok len [unfolded cells] refl]
  have a: "\<exists>b2 b3. bf_assume_init tops (length bs) (bf_write tops (take (bf_filled tops b) (bf_cells tops b) @ bf_cells hops buf) b) = Done b2 \<and>
    bf_set_filled tops (bf_filled tops b + length bs) b2 = Done b3 \<and> grown tops b bs b3" by (simp add: cells [symmetric])
  show "\<exists>b'. hyper_raw_read tops hops raw b t = Done (fst (read_result (fst ?R)), b', snd ?R) \<and> grown tops b (snd (read_result (fst ?R))) b'"
    using raw w a filled bs_def unfolding same
    by (cases "fst ?A" rule: read_result.cases) (auto simp: hyper_raw_read_def Let_def)
qed

end

section \<open>The detection over memory\<close>

definition version_ok :: "'s raw_version \<Rightarrow> bool" where
  "version_ok rv \<longleftrightarrow> length (rm_buf rv) = 24 \<and> rm_filled rv \<le> 24 \<and> initialised (take (rm_filled rv) (rm_buf rv))"

definition version_of :: "'s raw_version \<Rightarrow> 's read_version" where
  "version_of rv = \<lparr>rv_io = rm_io rv, rv_buf = map the (take (rm_filled rv) (rm_buf rv)),
     rv_version = rm_version rv, rv_cancelled = rm_cancelled rv\<rparr>"

lemma version_new: "version_ok (raw_version_new io)" "version_of (raw_version_new io) = read_version_new io"
  by (simp_all add: version_ok_def version_of_def raw_version_new_def read_version_new_def)

lemma prefix_length [simp]: "length http2_prefix = 24"
  by (simp add: http2_prefix_def)

lemma poll_sum_cases:
  obtains "r = Pending" | "r = Panicked" | e where "r = Ready (Inl e)" | x where "r = Ready (Inr x)"
  by (cases r) (auto elim: sum.exhaust)

context hyper_buf
begin

lemma raw_loop_sim:
  fixes io :: "('s, io_kind) aio"
  assumes "reads ops io raw" and "buf_ok ops b" and "length (bf_cells ops b) = 24" and "contents ops b = filled"
    and "rv_loop io s filled v = (s', filled', v', r)"
  shows "\<exists>b'. raw_loop ops raw b s (length filled) v = Some (Done (b', s', length filled', v', r)) \<and>
    buf_ok ops b' \<and> length (bf_cells ops b') = 24 \<and> contents ops b' = filled'"
  using assms(2-5)
proof (induction "24 - length filled" arbitrary: b s filled rule: less_induct)
  case less
  have n: "bf_filled ops b = length filled" using contents_length [OF less.prems(1)] less.prems(3) by simp
  show ?case
  proof (cases "length filled < 24")
    case False
    with less.prems n show ?thesis by (auto simp: raw_loop.simps rv_loop.simps [of io s])
  next
    case True
    have u: "length (unfilled ops b) = 24 - length filled" using less.prems(2) n by (simp add: unfilled_def)
    let ?A = "a_read io (24 - length filled) s"
    from assms(1) less.prems(1) have "\<exists>b1. raw b s = Done (fst (read_result (fst ?A)), b1, snd ?A) \<and>
        grown ops b (snd (read_result (fst ?A))) b1"
      unfolding reads_def u [symmetric] by blast
    then obtain b1 where raw: "raw b s = Done (fst (read_result (fst ?A)), b1, snd ?A)"
      and g: "grown ops b (snd (read_result (fst ?A))) b1" by blast
    show ?thesis
    proof (cases "\<exists>bs. fst ?A = Ready (Inr bs)")
      case False
      with True n raw g less.prems show ?thesis
        by (cases "fst ?A" rule: read_result.cases)
          (auto simp: raw_loop.simps rv_loop.simps [of io s] grown_def Let_def case_prod_beta)
    next
      case got: True
      then obtain bs s1 where A: "?A = (Ready (Inr bs), s1)" by (cases ?A) auto
      let ?new = "filled @ bs"
      from g A less.prems(2,3) have ok1: "buf_ok ops b1" "length (bf_cells ops b1) = 24" "contents ops b1 = ?new"
        by (simp_all add: grown_def)
      have raw1: "raw b s = Done (Ready (Inr ()), b1, s1)" using raw A by simp
      have step: "rv_loop io s filled v = (if bs = [] \<or> drop (length filled) ?new \<noteq> drop (length filled) http2_prefix
          then (s1, ?new, Http1, Ready (Inr ())) else rv_loop io s1 ?new v)"
        using \<open>length filled < 24\<close> A by (simp add: rv_loop.simps [of io s] Let_def)
      show ?thesis
      proof (cases "bs = [] \<or> drop (length filled) ?new \<noteq> drop (length filled) http2_prefix")
        case True
        with step less.prems(4) have "s' = s1" "filled' = ?new" "v' = Http1" "r = Ready (Inr ())" by simp_all
        with True \<open>length filled < 24\<close> raw1 ok1 n show ?thesis
          by (simp add: raw_loop.simps [of ops raw b] Let_def filled_bytes_ok [OF ok1(1)])
      next
        case False
        then have "24 - length ?new < 24 - length filled" using \<open>length filled < 24\<close> by (cases bs) auto
        moreover have "rv_loop io s1 ?new v = (s', filled', v', r)"
          using less.prems(4) unfolding step if_not_P [OF False] .
        ultimately have "\<exists>b'. raw_loop ops raw b1 s1 (length ?new) v = Some (Done (b', s', length filled', v', r)) \<and>
            buf_ok ops b' \<and> length (bf_cells ops b') = 24 \<and> contents ops b' = filled'"
          using less.hyps ok1 by blast
        with False \<open>length filled < 24\<close> raw1 n show ?thesis
          by (auto simp: raw_loop.simps [of ops raw b] Let_def filled_bytes_ok [OF ok1(1)] ok1(3))
      qed
    qed
  qed
qed

text \<open>The poll over memory is the poll over bytes.\<close>

lemma raw_poll_sim:
  fixes io :: "('s, io_kind) aio"
  assumes "reads ops io raw" and "version_ok rv"
  shows "\<exists>rv'. raw_version_poll ops raw rv = Some (Done (fst (read_version_poll io (version_of rv)), rv')) \<and>
    version_ok rv' \<and> version_of rv' = snd (read_version_poll io (version_of rv))"
proof (cases "rm_cancelled rv")
  case True
  with assms(2) show ?thesis by (auto simp: raw_version_poll_def read_version_poll_def version_of_def)
next
  case False
  define filled where "filled = map the (take (rm_filled rv) (rm_buf rv))"
  from assms(2) have cells: "rm_buf rv = map Some filled @ drop (rm_filled rv) (rm_buf rv)" and n: "length filled = rm_filled rv"
    by (simp_all add: version_ok_def filled_def initialised_some del: map_map)
  have "bf_cells ops (bf_uninit ops (rm_buf rv)) = map Some [] @ map Some filled @ drop (rm_filled rv) (rm_buf rv)"
    unfolding uninit(1) list.map append_Nil by (rule cells)
  from advance_ok [OF this] cells n obtain b where
    b: "bf_advance ops (rm_filled rv) (bf_uninit ops (rm_buf rv)) = Done b" "bf_cells ops b = rm_buf rv" "bf_filled ops b = length filled"
    unfolding uninit(2) append_Nil n list.size by metis
  from buf_okI [of ops b filled] b cells have ok: "buf_ok ops b" "contents ops b = filled" by auto
  have len: "length (bf_cells ops b) = 24" using b(2) assms(2) by (simp add: version_ok_def)
  show ?thesis
  proof (cases "rm_io rv")
    case None
    with False b(1) assms(2) show ?thesis by (auto simp: raw_version_poll_def read_version_poll_def version_of_def)
  next
    case (Some s)
    obtain s' filled' v' r where rv: "rv_loop io s filled (rm_version rv) = (s', filled', v', r)" using prod_cases4 by blast
    from raw_loop_sim [OF assms(1) ok(1) len ok(2) rv] obtain b' where
      loop: "raw_loop ops raw b s (rm_filled rv) (rm_version rv) = Some (Done (b', s', length filled', v', r))"
      and b': "buf_ok ops b'" "length (bf_cells ops b') = 24" "contents ops b' = filled'" by (auto simp: n)
    have f: "bf_filled ops b' = length filled'" using contents_length [OF b'(1)] b'(3) by simp
    with b' have v: "version_ok (rv\<lparr>rm_io := x, rm_buf := bf_cells ops b', rm_filled := length filled', rm_version := v'\<rparr>)"
        "version_of (rv\<lparr>rm_io := x, rm_buf := bf_cells ops b', rm_filled := length filled', rm_version := v'\<rparr>) =
          \<lparr>rv_io = x, rv_buf = filled', rv_version = v', rv_cancelled = rm_cancelled rv\<rparr>" for x
      by (simp_all add: version_ok_def version_of_def buf_ok_def contents_def)
    have c: "rv\<lparr>rm_buf := bs, rm_filled := n, rm_version := w, rm_io := x\<rparr> = rv\<lparr>rm_io := x, rm_buf := bs, rm_filled := n, rm_version := w\<rparr>"
      for bs n w and x :: "'s option" by (cases rv) simp
    show ?thesis
      using False b(1) Some loop rv v [of "Some s'"] v [of None] filled_bytes_ok [OF b'(1)] b'(3)
      by (cases r rule: poll_sum_cases)
        (simp_all add: raw_version_poll_def read_version_poll_def version_of_def filled_def [symmetric] Let_def c)
  qed
qed

end

section \<open>Buffers in memory\<close>

text \<open>
  One buffer with the operations both libraries document, every contract checked: hyper's
  \<open>advance\<close> and tokio's \<open>assume_init\<close> are undefined over cells that are not initialised, and
  \<open>set_filled\<close> panics beyond the initialised part.
\<close>

record cell_buf =
  cb_cells :: "byte option list"
  cb_filled :: nat
  cb_init :: nat

definition cell_hyper :: "cell_buf hyper_buf_ops" where
  "cell_hyper = \<lparr>bf_uninit = \<lambda>cs. \<lparr>cb_cells = cs, cb_filled = 0, cb_init = 0\<rparr>, bf_cells = cb_cells, bf_filled = cb_filled,
     bf_write = \<lambda>cs b. b\<lparr>cb_cells := cs\<rparr>,
     bf_advance = \<lambda>n b. if n \<le> length (cb_cells b) - cb_filled b \<and> initialised (take n (drop (cb_filled b) (cb_cells b)))
       then Done (b\<lparr>cb_filled := cb_filled b + n, cb_init := max (cb_init b) (cb_filled b + n)\<rparr>) else Undefined\<rparr>"

definition cell_tokio :: "cell_buf tokio_buf_ops" where
  "cell_tokio = \<lparr>bf_uninit = \<lambda>cs. \<lparr>cb_cells = cs, cb_filled = 0, cb_init = 0\<rparr>, bf_cells = cb_cells, bf_filled = cb_filled,
     bf_write = \<lambda>cs b. b\<lparr>cb_cells := cs\<rparr>, bf_init = cb_init,
     bf_assume_init = \<lambda>n b. if n \<le> length (cb_cells b) - cb_filled b \<and> initialised (take n (drop (cb_filled b) (cb_cells b)))
       then Done (b\<lparr>cb_init := max (cb_init b) (cb_filled b + n)\<rparr>) else Undefined,
     bf_set_filled = \<lambda>n b. if n \<le> cb_init b then Done (b\<lparr>cb_filled := n\<rparr>) else Panics\<rparr>"

interpretation cells: buf_adapter cell_hyper cell_tokio
  by unfold_locales (auto simp: cell_hyper_def cell_tokio_def unfilled_def)

text \<open>A reader of the in-memory pipe: it writes what it reads and counts it.\<close>

definition pipe_raw :: "(cell_buf, pipe, io_kind) raw_read" where
  "pipe_raw b p =
     (case pipe_read (length (unfilled cell_tokio b)) p of
        (Ready (Inr bs), p') \<Rightarrow>
          Done (Ready (Inr ()), b\<lparr>cb_cells := take (cb_filled b) (cb_cells b) @ map Some bs @ drop (length bs) (unfilled cell_tokio b),
            cb_filled := cb_filled b + length bs\<rparr>, p')
      | (Ready (Inl e), p') \<Rightarrow> Done (Ready (Inl e), b, p')
      | (Pending, p') \<Rightarrow> Done (Pending, b, p')
      | (Panicked, p') \<Rightarrow> Done (Panicked, b, p'))"

lemma pipe_read_length: "pipe_read n p = (Ready (Inr bs), p') \<Longrightarrow> length bs \<le> n"
  by (auto split: list.splits if_splits)

lemma pipe_reads: "reads cell_tokio pipe_io pipe_raw"
  unfolding reads_def
proof (intro allI impI)
  fix b p
  assume ok: "buf_ok cell_tokio b"
  let ?n = "length (unfilled cell_tokio b)"
  have g0: "grown cell_tokio b [] b" using ok by (simp add: grown_def)
  obtain r :: "(io_kind + byte list) poll" and p' where r: "pipe_read ?n p = (r, p')" by fastforce
  have g: "grown cell_tokio b bs (b\<lparr>cb_cells := take (cb_filled b) (cb_cells b) @ map Some bs @ drop (length bs) (unfilled cell_tokio b),
      cb_filled := cb_filled b + length bs\<rparr>)" if "r = Ready (Inr bs)" for bs
  proof -
    from r that have "length bs \<le> ?n" by (simp only: pipe_read_length)
    with ok show ?thesis by (auto simp: grown_def buf_ok_def contents_def unfilled_def cell_tokio_def comp_def)
  qed
  let ?R = "a_read (pipe_io :: (pipe, io_kind) aio) ?n p"
  show "\<exists>b'. pipe_raw b p = Done (fst (read_result (fst ?R)), b', snd ?R) \<and> grown cell_tokio b (snd (read_result (fst ?R))) b'"
    using r g g0 by (cases r rule: read_result.cases) (simp_all add: pipe_raw_def pipe_io_def del: pipe_read.simps)
qed



end
