(* ===== verification/Dns.thy ===== *)
theory Dns
  imports Info
begin

text \<open>
  Resolved addresses (client/conn/dns.rs): the list \<open>SocketAddrs\<close>, the order in which its
  addresses are tried, and the future of the system's resolver.
\<close>

datatype ip_version = IPv4 | IPv6

fun addr_version :: "socket_addr \<Rightarrow> ip_version" where
  "addr_version (SocketV4 a p) = IPv4"
| "addr_version (SocketV6 a p fl sc) = IPv6"

fun ip_version_of :: "ip_addr \<Rightarrow> ip_version" where
  "ip_version_of (V4 a) = IPv4"
| "ip_version_of (V6 a) = IPv6"

definition from_binding :: "32 word option \<Rightarrow> 128 word option \<Rightarrow> ip_version option" where
  "from_binding v4 v6 =
     (case (v4, v6) of
        (Some _, Some _) \<Rightarrow> Some IPv6
      | (Some _, None) \<Rightarrow> Some IPv4
      | (None, Some _) \<Rightarrow> Some IPv6
      | (None, None) \<Rightarrow> None)"

fun addr_set_port :: "u16 \<Rightarrow> socket_addr \<Rightarrow> socket_addr" where
  "addr_set_port p (SocketV4 a q) = SocketV4 a p"
| "addr_set_port p (SocketV6 a q fl sc) = SocketV6 a p fl sc"

type_synonym socket_addrs = "socket_addr list"

definition addrs_set_port :: "u16 \<Rightarrow> socket_addrs \<Rightarrow> socket_addrs" where
  "addrs_set_port p addrs = map (addr_set_port p) addrs"

fun addrs_pop :: "socket_addrs \<Rightarrow> socket_addr option \<times> socket_addrs" where
  "addrs_pop [] = (None, [])"
| "addrs_pop (a # as) = (Some a, as)"

text \<open>The loop of \<open>sort_preferred\<close>: the first index of each family.\<close>

fun pref_scan :: "nat \<Rightarrow> nat option \<Rightarrow> nat option \<Rightarrow> socket_addrs \<Rightarrow> nat option \<times> nat option" where
  "pref_scan idx v4 v6 [] = (v4, v6)"
| "pref_scan idx v4 v6 (addr # addrs) =
     (case (addr_version addr, v4, v6) of
        (IPv4, None, _) \<Rightarrow> pref_scan (Suc idx) (Some idx) v6 addrs
      | (IPv6, _, None) \<Rightarrow> pref_scan (Suc idx) v4 (Some idx) addrs
      | (_, Some _, Some _) \<Rightarrow> (v4, v6)
      | _ \<Rightarrow> pref_scan (Suc idx) v4 v6 addrs)"

text \<open>\<open>idx.and_then(|idx| self.0.remove(idx))\<close>\<close>

definition addrs_remove :: "nat option \<Rightarrow> socket_addrs \<Rightarrow> socket_addr option \<times> socket_addrs" where
  "addrs_remove idx addrs =
     (case idx of
        None \<Rightarrow> (None, addrs)
      | Some i \<Rightarrow> if i < length addrs then (Some (addrs ! i), remove_at i addrs) else (None, addrs))"

definition sort_preferred :: "ip_version option \<Rightarrow> socket_addrs \<Rightarrow> socket_addrs" where
  "sort_preferred prefer addrs =
     (let (v4_idx, v6_idx) = pref_scan 0 None None addrs;
          later = (case (v4_idx, v6_idx) of (Some v4, Some v6) \<Rightarrow> v4 > v6 | _ \<Rightarrow> False);
          (v4, v6, rest) =
            (if later
             then (let (v4, r) = addrs_remove v4_idx addrs; (v6, r') = addrs_remove v6_idx r in (v4, v6, r'))
             else (let (v6, r) = addrs_remove v6_idx addrs; (v4, r') = addrs_remove v4_idx r in (v4, v6, r')))
      in case (prefer, v4, v6) of
           (Some IPv4, Some addr_v4, Some addr_v6) \<Rightarrow> addr_v4 # addr_v6 # rest
         | (Some IPv6, Some addr_v4, Some addr_v6) \<Rightarrow> addr_v6 # addr_v4 # rest
         | (_, Some addr_v4, Some addr_v6) \<Rightarrow> addr_v6 # addr_v4 # rest
         | (_, Some addr_v4, None) \<Rightarrow> addr_v4 # rest
         | (_, None, Some addr_v6) \<Rightarrow> addr_v6 # rest
         | _ \<Rightarrow> rest)"

section \<open>The resolver's future\<close>

text \<open>How a blocking task ends: with its value, cancelled, or by a panic.\<close>

datatype 'a join = Joined 'a | Cancelled | Task_Panicked

definition gai_poll :: "(io_kind + socket_addrs) join poll \<Rightarrow> (io_kind + socket_addrs) poll" where
  "gai_poll handle =
     (case handle of
        Pending \<Rightarrow> Pending
      | Panicked \<Rightarrow> Panicked
      | Ready (Joined (Inr addrs)) \<Rightarrow> Ready (Inr addrs)
      | Ready (Joined (Inl e)) \<Rightarrow> Ready (Inl e)
      | Ready Cancelled \<Rightarrow> Ready (Inl Interrupted)
      | Ready Task_Panicked \<Rightarrow> Ready (Inl OtherKind))"

text \<open>The task resolves the host with port 0.\<close>

definition gai_call :: "(string \<Rightarrow> u16 \<Rightarrow> io_kind + socket_addr list) \<Rightarrow> string \<Rightarrow> io_kind + socket_addrs" where
  "gai_call to_socket_addrs host = to_socket_addrs host 0"

section \<open>The order of preference\<close>

definition first_idx :: "ip_version \<Rightarrow> socket_addrs \<Rightarrow> nat option" where
  "first_idx v xs =
     (if \<exists>x \<in> set xs. addr_version x = v then Some (length (takeWhile (\<lambda>x. addr_version x \<noteq> v) xs)) else None)"

lemma first_idx_simps [simp]:
  "first_idx v [] = None"
  "first_idx v (x # xs) = (if addr_version x = v then Some 0 else map_option Suc (first_idx v xs))"
  by (auto simp: first_idx_def)

lemma pref_scan_Cons:
  "pref_scan i a b (x # xs) = (if addr_version x = IPv4 \<and> a = None then pref_scan (Suc i) (Some i) b xs
     else if addr_version x = IPv6 \<and> b = None then pref_scan (Suc i) a (Some i) xs
     else if a \<noteq> None \<and> b \<noteq> None then (a, b) else pref_scan (Suc i) a b xs)"
  by (cases "addr_version x"; cases a; cases b; simp)

lemma shift_idx: "map_option ((+) (Suc i)) k = map_option (\<lambda>x. Suc (i + x)) k"
  by (cases k) simp_all

lemma pref_scan_full: "pref_scan i (Some k) (Some l) xs = (Some k, Some l)"
  by (induction xs arbitrary: i) (simp_all add: pref_scan_Cons del: pref_scan.simps(2))

lemma pref_scan_half:
  "pref_scan i None (Some l) xs = (map_option ((+) i) (first_idx IPv4 xs), Some l)"
  "pref_scan i (Some k) None xs = (Some k, map_option ((+) i) (first_idx IPv6 xs))"
  by (induction xs arbitrary: i)
    (auto simp add: pref_scan_Cons pref_scan_full option.map_comp comp_def shift_idx simp del: pref_scan.simps(2))

lemma pref_scan_spec:
  "pref_scan i None None xs = (map_option ((+) i) (first_idx IPv4 xs), map_option ((+) i) (first_idx IPv6 xs))"
proof (induction xs arbitrary: i)
  case (Cons x xs)
  then show ?case
    by (cases "addr_version x")
      (auto simp add: pref_scan_Cons pref_scan_half option.map_comp comp_def shift_idx simp del: pref_scan.simps(2))
qed simp

lemma pref_scan_first: "pref_scan 0 None None xs = (first_idx IPv4 xs, first_idx IPv6 xs)"
  by (cases "first_idx IPv4 xs"; cases "first_idx IPv6 xs"; simp add: pref_scan_spec)

lemma remove_at_append: "remove_at (length us) (us @ x # vs) = us @ vs"
  by (simp add: remove_at_def)

lemma remove_at_append2: "remove_at (length us + k) (us @ vs) = us @ remove_at k vs"
  by (simp add: remove_at_def)

text \<open>Both families: the first of each, at the positions the scan finds.\<close>

lemma first_split:
  assumes "first_idx v xs = Some k"
  obtains us a vs where "xs = us @ a # vs" and "addr_version a = v" and "\<forall>u \<in> set us. addr_version u \<noteq> v"
    and "k = length us"
proof -
  from assms have ex: "\<exists>x \<in> set xs. addr_version x = v" by (auto simp: first_idx_def split: if_splits)
  from split_list_first_prop [OF ex] obtain us a vs where
    xs: "xs = us @ a # vs" "addr_version a = v" "\<forall>u \<in> set us. addr_version u \<noteq> v" by blast
  from xs have "takeWhile (\<lambda>x. addr_version x \<noteq> v) xs = us" by (simp add: takeWhile_tail)
  with assms ex have "k = length us" by (simp add: first_idx_def)
  with xs that show thesis by blast
qed

lemma remove1_first: "\<forall>u \<in> set us. addr_version u \<noteq> addr_version a \<Longrightarrow> remove1 a (us @ a # vs) = us @ vs"
  by (induction us) auto

text \<open>The two removals give the same rest in either order.\<close>

lemma addrs_remove_first:
  assumes "first_idx v xs = Some k" and "find (\<lambda>x. addr_version x = v) xs = Some a"
  shows "addrs_remove (Some k) xs = (Some a, remove1 a xs)"
proof -
  from assms(1) obtain us a' vs where
    xs: "xs = us @ a' # vs" "addr_version a' = v" "\<forall>u \<in> set us. addr_version u \<noteq> v" "k = length us"
    by (rule first_split)
  have "find (\<lambda>x. addr_version x = v) (us @ a' # vs) = Some a'"
    using xs(2,3) by (induction us) auto
  with assms(2) xs(1) have "a' = a" by simp
  with xs have "remove1 a xs = us @ vs" using remove1_first [of us a vs] by simp
  moreover from xs \<open>a' = a\<close> have "remove_at k xs = us @ vs" by (simp add: remove_at_append)
  moreover from xs \<open>a' = a\<close> have "k < length xs" and "xs ! k = a" by simp_all
  ultimately show ?thesis by (simp add: addrs_remove_def)
qed

lemma first_idx_find: "first_idx v xs = None \<longleftrightarrow> find (\<lambda>x. addr_version x = v) xs = None"
  by (auto simp: first_idx_def find_None_iff)

lemma find_version: "find (\<lambda>x. addr_version x = w) xs = Some b \<Longrightarrow> addr_version b = w"
  by (auto simp: find_Some_iff)

lemma first_idx_remove1:
  assumes "find (\<lambda>x. addr_version x = w) xs = Some b" and "v \<noteq> w"
    and "first_idx v xs = Some k" and "first_idx w xs = Some l" and "k < l"
  shows "first_idx v (remove1 b xs) = Some k" and "find (\<lambda>x. addr_version x = v) (remove1 b xs) = find (\<lambda>x. addr_version x = v) xs"
proof -
  have "first_idx v (remove1 b xs) = Some k \<and>
    find (\<lambda>x. addr_version x = v) (remove1 b xs) = find (\<lambda>x. addr_version x = v) xs"
    using assms
  proof (induction xs arbitrary: k l)
    case Nil
    then show ?case by simp
  next
    case (Cons x xs)
    from Cons.prems(1) have bw: "addr_version b = w" by (rule find_version)
    show ?case
    proof (cases "addr_version x = v")
      case True
      with Cons.prems bw show ?thesis by auto
    next
      case xv: False
      show ?thesis
      proof (cases "addr_version x = w")
        case True
        with Cons.prems show ?thesis by auto
      next
        case False
        from False xv Cons.prems obtain k' l' where kl: "first_idx v xs = Some k'" "first_idx w xs = Some l'" "k' < l'"
          "k = Suc k'" by auto
        from False Cons.prems(1) have f: "find (\<lambda>x. addr_version x = w) xs = Some b" by simp
        from Cons.IH [OF f Cons.prems(2) kl(1,2,3)] xv False bw kl show ?thesis by auto
      qed
    qed
  qed
  then show "first_idx v (remove1 b xs) = Some k"
    and "find (\<lambda>x. addr_version x = v) (remove1 b xs) = find (\<lambda>x. addr_version x = v) xs" by simp_all
qed

lemma sort_preferred_both:
  assumes "find (\<lambda>x. addr_version x = IPv4) xs = Some a" and "find (\<lambda>x. addr_version x = IPv6) xs = Some b"
  shows "sort_preferred prefer xs = (if prefer = Some IPv4 then [a, b] else [b, a]) @ remove1 a (remove1 b xs)"
proof -
  from assms first_idx_find [of IPv4 xs] first_idx_find [of IPv6 xs] obtain k l where
    k: "first_idx IPv4 xs = Some k" and l: "first_idx IPv6 xs = Some l" by auto
  have "k \<noteq> l"
  proof
    assume "k = l"
    with addrs_remove_first [OF k assms(1)] addrs_remove_first [OF l assms(2)] have "a = b" by simp
    moreover from assms have "addr_version a = IPv4" "addr_version b = IPv6" by (auto dest: find_version)
    ultimately show False by simp
  qed
  have pair: "(if k > l then (let (v4, r) = addrs_remove (Some k) xs; (v6, r') = addrs_remove (Some l) r in (v4, v6, r'))
      else (let (v6, r) = addrs_remove (Some l) xs; (v4, r') = addrs_remove (Some k) r in (v4, v6, r')))
    = (Some a, Some b, remove1 a (remove1 b xs))"
  proof (cases "k > l")
    case True
    note r = first_idx_remove1 [OF assms(1) _ l k True]
    from addrs_remove_first [OF k assms(1)] addrs_remove_first [OF r(1)] r(2) assms(2) True
    show ?thesis by (simp add: remove1_commute)
  next
    case False
    with \<open>k \<noteq> l\<close> have "k < l" by simp
    note r = first_idx_remove1 [OF assms(2) _ k l this]
    from addrs_remove_first [OF l assms(2)] addrs_remove_first [OF r(1)] r(2) assms(1) False
    show ?thesis by simp
  qed
  have scan: "pref_scan 0 None None xs = (Some k, Some l)" by (simp add: pref_scan_first k l)
  show ?thesis
    unfolding sort_preferred_def scan Let_def prod.case option.case
    using pair unfolding Let_def by (cases "prefer"; cases "the prefer"; simp)
qed

lemma sort_preferred_one:
  assumes "find (\<lambda>x. addr_version x = IPv4) xs = None \<or> find (\<lambda>x. addr_version x = IPv6) xs = None"
  shows "sort_preferred prefer xs = xs"
proof (cases xs)
  case Nil
  then show ?thesis
    by (cases "prefer"; cases "the prefer"; simp add: sort_preferred_def addrs_remove_def)
next
  case (Cons x ys)
  from assms have n: "first_idx IPv4 xs = None \<or> first_idx IPv6 xs = None"
    by (simp add: first_idx_find)
  show ?thesis
  proof (cases "first_idx IPv4 xs")
    case None
    with Cons have "addr_version x = IPv6" by (cases "addr_version x") (auto simp: first_idx_def split: if_splits)
    with Cons None have scan: "pref_scan 0 None None xs = (None, Some 0)"
      by (simp add: pref_scan_first del: pref_scan.simps)
    show ?thesis unfolding sort_preferred_def scan Let_def
      by (cases "prefer"; cases "the prefer"; simp add: addrs_remove_def Cons remove_at_def)
  next
    case (Some k)
    with n have n6: "first_idx IPv6 xs = None" by simp
    with Cons have "addr_version x = IPv4" by (cases "addr_version x") (auto simp: first_idx_def split: if_splits)
    with Cons n6 have scan: "pref_scan 0 None None xs = (Some 0, None)"
      by (simp add: pref_scan_first del: pref_scan.simps)
    show ?thesis unfolding sort_preferred_def scan Let_def
      by (cases "prefer"; cases "the prefer"; simp add: addrs_remove_def Cons remove_at_def)
  qed
qed

lemma find_in_set: "find P xs = Some a \<Longrightarrow> a \<in> set xs"
  by (induction xs) (auto split: if_splits)

lemma mset_remove_two:
  assumes "a \<in> set xs" and "b \<in> set xs" and "a \<noteq> b"
  shows "mset xs = add_mset a (add_mset b (mset (remove1 a (remove1 b xs))))"
proof -
  have one: "x \<in> set ys \<Longrightarrow> mset ys = add_mset x (mset (remove1 x ys))" for x :: 'a and ys by simp
  from assms have "a \<in> set (remove1 b xs)" by (simp add: in_set_remove1)
  from one [OF assms(2)] one [OF this] show ?thesis by (metis add_mset_commute)
qed

lemma sort_preferred_perm: "mset (sort_preferred prefer xs) = mset xs"
proof (cases "find (\<lambda>x. addr_version x = IPv4) xs = None \<or> find (\<lambda>x. addr_version x = IPv6) xs = None")
  case False
  then obtain a b where ab: "find (\<lambda>x. addr_version x = IPv4) xs = Some a" "find (\<lambda>x. addr_version x = IPv6) xs = Some b"
    by auto
  then have m: "a \<in> set xs" "b \<in> set xs"
    by (auto dest: find_in_set)
  from ab have "addr_version a = IPv4" "addr_version b = IPv6" by (auto dest: find_version)
  then have "a \<noteq> b" by auto
  define r where "r = remove1 a (remove1 b xs)"
  from m \<open>a \<noteq> b\<close> have x: "mset xs = add_mset a (add_mset b (mset r))"
    unfolding r_def by (rule mset_remove_two)
  from sort_preferred_both [OF ab, of "prefer"] have "sort_preferred prefer xs = (if prefer = Some IPv4 then [a, b] else [b, a]) @ r"
    by (simp add: r_def)
  then show ?thesis by (simp add: x add_mset_commute)
qed (simp add: sort_preferred_one)

section \<open>Properties\<close>

text \<open>C21: \<open>SocketAddrs::sort_preferred\<close> puts the first address of the preferred family first
  (IPv6 unless IPv4 is preferred) and the first of the other family second, keeps the order
  of all others, loses none, and changes nothing when only one family is present.\<close>

theorem sort_preferred_spec:
  "sort_preferred prefer xs =
    (case (find (\<lambda>x. addr_version x = IPv4) xs, find (\<lambda>x. addr_version x = IPv6) xs) of
       (Some a, Some b) \<Rightarrow> (if prefer = Some IPv4 then [a, b] else [b, a]) @ remove1 a (remove1 b xs)
     | _ \<Rightarrow> xs) \<and>
   mset (sort_preferred prefer xs) = mset xs"
  using sort_preferred_both [of xs _ _ "prefer"] sort_preferred_one [of xs "prefer"] sort_preferred_perm
  by (auto split: option.splits)

end
