(* ===== verification/Happy_Eyeballs.thy ===== *)
theory Happy_Eyeballs
  imports Prelude
begin

text \<open>
  Racing connection attempts: \<open>EyeballSet\<close> of happy_eyeballs.rs. The runtime's part is a
  schedule, a list of events: which running attempt completes next and how, that the delay
  between attempts elapses, that the overall deadline passes. A run consumes events only
  where the code awaits; it is pending when the schedule ends first.
\<close>

datatype 'e happy_error = Timeout duration | NoProgress | Attempt_Error 'e

record ('f, 'e) eyeball_set =
  eb_queue :: "'f list"
  eb_tasks :: "'f list"
  eb_delay :: "duration option"
  eb_timeout :: "duration option"
  eb_started :: "instant option"
  eb_initial :: "usize option"
  eb_error :: "'e happy_error option"

definition eyeball_new :: "duration option \<Rightarrow> duration option \<Rightarrow> ('f, 'e) eyeball_set" where
  "eyeball_new delay tmo =
     \<lparr>eb_queue = [], eb_tasks = [], eb_delay = delay, eb_timeout = tmo, eb_started = None,
      eb_initial = None, eb_error = None\<rparr>"

definition eyeball_is_empty :: "('f, 'e) eyeball_set \<Rightarrow> bool" where
  "eyeball_is_empty s = (eb_tasks s = [] \<and> eb_queue s = [])"

definition eyeball_len :: "('f, 'e) eyeball_set \<Rightarrow> nat" where
  "eyeball_len s = length (eb_tasks s) + length (eb_queue s)"

definition eyeball_push :: "'f \<Rightarrow> ('f, 'e) eyeball_set \<Rightarrow> ('f, 'e) eyeball_set" where
  "eyeball_push future s = s\<lparr>eb_queue := eb_queue s @ [future]\<rparr>"

definition eyeball_extend :: "'f list \<Rightarrow> ('f, 'e) eyeball_set \<Rightarrow> ('f, 'e) eyeball_set" where
  "eyeball_extend futures s = s\<lparr>eb_queue := eb_queue s @ futures\<rparr>"

text \<open>
  \<open>Completes i r\<close>: the attempt at position \<open>i\<close> among the running ones answers \<open>r\<close>.
  \<open>Deadline now\<close>: the overall timeout fires at the instant \<open>now\<close>.
\<close>

datatype ('t, 'e) event = Completes nat "'e + 't" | Elapses | Deadline instant

datatype 't eyeball = Eb_Ok 't | Eb_Error | Eb_Timeout | Eb_Exhausted

text \<open>An attempt that completed, as \<open>join_next\<close> records it.\<close>

definition joined :: "nat \<Rightarrow> 'e + 't \<Rightarrow> ('f, 'e) eyeball_set \<Rightarrow> 't eyeball \<times> ('f, 'e) eyeball_set" where
  "joined i r s =
     (let s' = s\<lparr>eb_tasks := remove_at i (eb_tasks s)\<rparr>
      in case r of
           Inr stream \<Rightarrow> (Eb_Ok stream, s')
         | Inl e \<Rightarrow>
             (if eb_error s' = None then (Eb_Error, s'\<lparr>eb_error := Some (Attempt_Error e)\<rparr>)
              else (Eb_Error, s')))"

text \<open>
  The next event an await reacts to, and the events after it: a completion of one of \<open>n\<close>
  running attempts, the delay if \<open>timed\<close>, the deadline if there is one.
\<close>

fun await_event :: "bool \<Rightarrow> bool \<Rightarrow> nat \<Rightarrow> ('t, 'e) event list \<Rightarrow> (('t, 'e) event \<times> ('t, 'e) event list) option" where
  "await_event timed deadline n [] = None"
| "await_event timed deadline n (ev # evs) =
     (if (case ev of Completes i r \<Rightarrow> i < n | Elapses \<Rightarrow> timed | Deadline t \<Rightarrow> deadline)
      then Some (ev, evs) else await_event timed deadline n evs)"

lemma await_event_shorter: "await_event timed deadline n evs = Some (ev, evs') \<Longrightarrow> length evs' < length evs"
  by (induction evs) (auto split: if_splits)

text \<open>
  \<open>join_next\<close> and \<open>join_next_with_timeout\<close>: the outcome, and the events left. \<open>None\<close> is
  pending, \<open>Inl t\<close> means that the deadline passed at \<open>t\<close>.
\<close>

definition eb_begin :: "instant \<Rightarrow> ('f, 'e) eyeball_set \<Rightarrow> ('f, 'e) eyeball_set" where
  "eb_begin now s = (case eb_started s of None \<Rightarrow> s\<lparr>eb_started := Some now\<rparr> | Some _ \<Rightarrow> s)"

definition join_next ::
  "bool \<Rightarrow> instant \<Rightarrow> ('t, 'e) event list \<Rightarrow> ('f, 'e) eyeball_set
     \<Rightarrow> (instant + 't eyeball \<times> ('f, 'e) eyeball_set \<times> ('t, 'e) event list) option" where
  "join_next timed now evs s0 =
     (let s = eb_begin now s0 in
      if eb_tasks s = [] then Some (Inr (Eb_Exhausted, s, evs))
      else case await_event timed (eb_timeout s \<noteq> None) (length (eb_tasks s)) evs of
        None \<Rightarrow> None
      | Some (Completes i r, evs') \<Rightarrow> (let (oc, s') = joined i r s in Some (Inr (oc, s', evs')))
      | Some (Elapses, evs') \<Rightarrow> Some (Inr (Eb_Timeout, s, evs'))
      | Some (Deadline t, evs') \<Rightarrow> Some (Inl t))"

definition join_next_with_timeout ::
  "instant \<Rightarrow> ('t, 'e) event list \<Rightarrow> ('f, 'e) eyeball_set
     \<Rightarrow> (instant + 't eyeball \<times> ('f, 'e) eyeball_set \<times> ('t, 'e) event list) option" where
  "join_next_with_timeout now evs s = join_next (eb_delay s \<noteq> None) now evs s"

lemma joined_frame: "joined i r s = (oc, s') \<Longrightarrow>
    eb_queue s' = eb_queue s \<and> eb_tasks s' = remove_at i (eb_tasks s) \<and> eb_timeout s' = eb_timeout s \<and>
    eb_delay s' = eb_delay s \<and> eb_started s' = eb_started s"
  by (auto simp: joined_def Let_def split: sum.splits if_splits)

lemma eb_begin_frame [simp]:
  "eb_queue (eb_begin now s) = eb_queue s" "eb_tasks (eb_begin now s) = eb_tasks s"
  "eb_timeout (eb_begin now s) = eb_timeout s" "eb_delay (eb_begin now s) = eb_delay s"
  "eb_error (eb_begin now s) = eb_error s"
  by (simp_all add: eb_begin_def split: option.splits)

lemma join_next_measure:
  "join_next timed now evs s = Some (Inr (oc, s', evs')) \<Longrightarrow>
    eb_queue s' = eb_queue s \<and> length evs' \<le> length evs \<and> (oc \<noteq> Eb_Exhausted \<longrightarrow> length evs' < length evs)"
  using await_event_shorter [of timed _ _ evs] joined_frame [of _ _ "eb_begin now s"]
  by (fastforce simp: join_next_def Let_def split: if_splits option.splits prod.splits event.splits)

type_synonym ('t, 'e) eb_result = "('e happy_error + 't) run option"

definition eb_timed_out :: "instant \<Rightarrow> ('f, 'e) eyeball_set \<Rightarrow> 'e happy_error" where
  "eb_timed_out t s = Timeout (case eb_started s of None \<Rightarrow> 0 | Some started \<Rightarrow> nat (t - started))"

text \<open>\<open>process_all\<close> after its first loop, within \<open>finish\<close>: the queue, then the running attempts.\<close>

function process_all :: "instant \<Rightarrow> ('t, 'e) event list \<Rightarrow> ('f, 'e) eyeball_set \<Rightarrow> ('t, 'e) eb_result" where
  "process_all now evs s =
     (case eb_queue s of
        future # q \<Rightarrow>
          (case join_next_with_timeout now evs (s\<lparr>eb_queue := q\<rparr>) of
             None \<Rightarrow> None
           | Some (Inl t) \<Rightarrow> Some (Return (Inl (eb_timed_out t (eb_begin now s))))
           | Some (Inr (Eb_Ok v, s', evs')) \<Rightarrow> Some (Return (Inr v))
           | Some (Inr (_, s', evs')) \<Rightarrow> process_all now evs' (s'\<lparr>eb_tasks := eb_tasks s' @ [future]\<rparr>))
      | [] \<Rightarrow>
          (case join_next False now evs s of
             None \<Rightarrow> None
           | Some (Inl t) \<Rightarrow> Some (Return (Inl (eb_timed_out t (eb_begin now s))))
           | Some (Inr (Eb_Ok v, s', evs')) \<Rightarrow> Some (Return (Inr v))
           | Some (Inr (Eb_Error, s', evs')) \<Rightarrow> process_all now evs' s'
           | Some (Inr (Eb_Timeout, s', evs')) \<Rightarrow> Some Panic
           | Some (Inr (Eb_Exhausted, s', evs')) \<Rightarrow>
               Some (Return (Inl (case eb_error s' of Some e \<Rightarrow> e | None \<Rightarrow> NoProgress)))))"
  by pat_completeness auto

termination
proof (relation "measure (\<lambda>(now, evs, s). length evs + length (eb_queue s))", goal_cases)
  case 1
  show ?case by simp
qed (auto simp: join_next_with_timeout_def dest!: join_next_measure)

declare process_all.simps [simp del]

definition eb_start :: "('f, 'e) eyeball_set \<Rightarrow> ('f, 'e) eyeball_set" where
  "eb_start s =
     (let n = (case eb_initial s of None \<Rightarrow> length (eb_queue s) | Some k \<Rightarrow> unat k)
      in s\<lparr>eb_tasks := eb_tasks s @ take n (eb_queue s), eb_queue := drop n (eb_queue s)\<rparr>)"

definition eyeball_finish :: "instant \<Rightarrow> ('t, 'e) event list \<Rightarrow> ('f, 'e) eyeball_set \<Rightarrow> ('t, 'e) eb_result" where
  "eyeball_finish now evs s = process_all now evs (eb_start s)"

section \<open>How a race ends\<close>

text \<open>
  A schedule in which attempts only complete, each one among those running: \<open>k\<close> failures.
\<close>

lemma join_next_completes:
  assumes "i < length (eb_tasks s)"
  shows "join_next timed now (Completes i r # evs) s =
    (let (oc, s') = joined i r (eb_begin now s) in Some (Inr (oc, s', evs)))"
  using assms by (auto simp: join_next_def Let_def)

lemma process_failure:
  assumes "eb_tasks s \<noteq> []"
  shows "process_all now (Completes 0 (Inl e) # evs) s =
    process_all now evs ((eb_begin now s)\<lparr>
      eb_tasks := remove_at 0 (eb_tasks s) @ take 1 (eb_queue s), eb_queue := drop 1 (eb_queue s),
      eb_error := (case eb_error s of None \<Rightarrow> Some (Attempt_Error e) | Some e' \<Rightarrow> Some e')\<rparr>)"
  using assms
  by (cases "eb_queue s"; cases "eb_error s")
    (auto simp: process_all.simps [of now "Completes 0 (Inl e) # evs" s] join_next_with_timeout_def
      join_next_completes joined_def Let_def eb_begin_def split: option.splits
      intro!: arg_cong [where f = "process_all now evs"] eyeball_set.equality)

lemma process_success:
  assumes "eb_tasks s \<noteq> []"
  shows "process_all now (Completes 0 (Inr v) # evs) s = Some (Return (Inr v))"
  using assms
  by (cases "eb_queue s")
    (auto simp: process_all.simps [of now "Completes 0 (Inr v) # evs" s] join_next_with_timeout_def
      join_next_completes joined_def Let_def)

lemma process_idle:
  assumes "eb_tasks s = []" and "eb_queue s = f # q"
  shows "process_all now evs s = process_all now evs ((eb_begin now s)\<lparr>eb_tasks := [f], eb_queue := q\<rparr>)"
proof -
  have b: "eb_begin now (s\<lparr>eb_queue := q\<rparr>) = (eb_begin now s)\<lparr>eb_queue := q\<rparr>"
    by (simp add: eb_begin_def split: option.splits)
  show ?thesis
    using assms by (auto simp: process_all.simps [of now evs s] join_next_with_timeout_def join_next_def b Let_def
      intro!: arg_cong [where f = "process_all now evs"] eyeball_set.equality)
qed

lemma process_done:
  assumes "eb_tasks s = []" and "eb_queue s = []"
  shows "process_all now evs s = Some (Return (Inl (case eb_error s of Some e \<Rightarrow> e | None \<Rightarrow> NoProgress)))"
  using assms by (simp add: process_all.simps [of now evs s] join_next_def Let_def)

lemma process_failures:
  fixes s :: "('f, 'e) eyeball_set"
  assumes "length es \<le> length (eb_tasks s) + length (eb_queue s)" and "eb_tasks s \<noteq> [] \<or> eb_queue s = []"
  shows "\<exists>s' :: ('f, 'e) eyeball_set. process_all now (map (\<lambda>e. Completes 0 (Inl e)) es @ evs) s = process_all now evs s' \<and>
    length (eb_tasks s') + length (eb_queue s') = length (eb_tasks s) + length (eb_queue s) - length es \<and>
    (eb_tasks s' = [] \<longrightarrow> eb_queue s' = []) \<and>
    eb_error s' = (case eb_error s of Some e \<Rightarrow> Some e | None \<Rightarrow> (case es of [] \<Rightarrow> None | e # _ \<Rightarrow> Some (Attempt_Error e)))"
  using assms
proof (induction es arbitrary: s)
  case (Cons e es)
  from Cons.prems have ne: "eb_tasks s \<noteq> []" by auto
  define t where "t = (eb_begin now s)\<lparr>
      eb_tasks := remove_at 0 (eb_tasks s) @ take 1 (eb_queue s), eb_queue := drop 1 (eb_queue s),
      eb_error := (case eb_error s of None \<Rightarrow> Some (Attempt_Error e) | Some e' \<Rightarrow> Some e')\<rparr>"
  have len: "length (eb_tasks t) + length (eb_queue t) = length (eb_tasks s) + length (eb_queue s) - 1"
    using ne by (cases "eb_queue s") (auto simp: t_def length_remove_at)
  have tasks: "eb_tasks t = [] \<Longrightarrow> eb_queue t = []"
    by (cases "eb_queue s") (auto simp: t_def)
  have err: "eb_error t = (case eb_error s of None \<Rightarrow> Some (Attempt_Error e) | Some e' \<Rightarrow> Some e')"
    by (simp add: t_def)
  have pre: "length es \<le> length (eb_tasks t) + length (eb_queue t)" "eb_tasks t \<noteq> [] \<or> eb_queue t = []"
    using Cons.prems(1) len tasks by auto
  from Cons.IH [OF pre] obtain s' :: "('f, 'e) eyeball_set" where
    s': "process_all now (map (\<lambda>e. Completes 0 (Inl e)) es @ evs) t = process_all now evs s'"
      "length (eb_tasks s') + length (eb_queue s') = length (eb_tasks t) + length (eb_queue t) - length es"
      "eb_tasks s' = [] \<longrightarrow> eb_queue s' = []"
      "eb_error s' = (case eb_error t of Some e \<Rightarrow> Some e | None \<Rightarrow> (case es of [] \<Rightarrow> None | e # _ \<Rightarrow> Some (Attempt_Error e)))"
    by blast
  have step: "process_all now (map (\<lambda>e. Completes 0 (Inl e)) (e # es) @ evs) s = process_all now evs s'"
    unfolding list.map append_Cons process_failure [OF ne] t_def [symmetric] by (rule s'(1))
  have "eb_error s' = (case eb_error s of Some e' \<Rightarrow> Some e' | None \<Rightarrow> Some (Attempt_Error e))"
    using s'(4) err by (simp split: option.splits)
  then show ?case
    using step s'(2,3) len by (intro exI [of _ s']) (auto split: option.splits)
next
  case Nil
  then show ?case by (intro exI [of _ s]) (auto split: option.splits)
qed

text \<open>Once the queue is empty, the delay is not looked at.\<close>

lemma join_next_delay:
  fixes s :: "('b, 'c) eyeball_set"
  shows "join_next False now evs (s\<lparr>eb_delay := d\<rparr>) =
     map_option (map_sum id (\<lambda>(oc, s', evs'). (oc, s'\<lparr>eb_delay := d\<rparr>, evs'))) (join_next False now evs s)"
proof -
  have b: "eb_begin now (s\<lparr>eb_delay := d\<rparr>) = (eb_begin now s)\<lparr>eb_delay := d\<rparr>"
    by (simp add: eb_begin_def split: option.splits)
  have j: "joined i r (t\<lparr>eb_delay := d\<rparr>) = (fst (joined i r t), (snd (joined i r t))\<lparr>eb_delay := d\<rparr>)"
    for i r and t :: "('b, 'c) eyeball_set"
    by (auto simp: joined_def Let_def split: sum.splits)
  show ?thesis
    by (auto simp: join_next_def b j Let_def case_prod_beta split: option.splits event.splits)
qed

lemma process_delay:
  "eb_queue s = [] \<Longrightarrow> process_all now evs (s\<lparr>eb_delay := d\<rparr>) = process_all now evs s"
proof (induction "length evs" arbitrary: evs s rule: less_induct)
  case less
  have b: "eb_timed_out t (eb_begin now (s\<lparr>eb_delay := d\<rparr>)) = eb_timed_out t (eb_begin now s)" for t
    by (simp add: eb_timed_out_def eb_begin_def split: option.splits)
  have rec: "process_all now evs' (s'\<lparr>eb_delay := d\<rparr>) = process_all now evs' s'"
    if "join_next False now evs s = Some (Inr (Eb_Error, s', evs'))" for s' evs'
    using less join_next_measure [OF that] by auto
  show ?case
    using less.prems rec
    by (auto simp: process_all.simps [of now evs "s\<lparr>eb_delay := d\<rparr>"] process_all.simps [of now evs s]
      join_next_delay b split: option.splits sum.splits eyeball.splits prod.splits)
qed

lemma start_running:
  fixes s :: "('f, 'e) eyeball_set"
  assumes "eb_tasks s = []" and "eb_queue s \<noteq> []" and "eb_error s = None"
  obtains s' :: "('f, 'e) eyeball_set" where "eyeball_finish now evs s = process_all now evs s'" and "eb_tasks s' \<noteq> []"
    and "length (eb_tasks s') + length (eb_queue s') = length (eb_queue s)" and "eb_error s' = None"
proof (cases "eb_tasks (eb_start s) = []")
  case False
  then show thesis
    using that [of "eb_start s"] assms by (auto simp: eyeball_finish_def eb_start_def Let_def)
next
  case True
  with assms have "eb_queue (eb_start s) = eb_queue s" by (auto simp: eb_start_def Let_def)
  with assms(2) obtain f q where q: "eb_queue (eb_start s) = f # q" by (cases "eb_queue s") auto
  have "eyeball_finish now evs s =
      process_all now evs ((eb_begin now (eb_start s))\<lparr>eb_tasks := [f], eb_queue := q\<rparr>)"
    using process_idle [OF True q] by (simp add: eyeball_finish_def)
  moreover have "length (eb_queue s) = Suc (length q)" using q \<open>eb_queue (eb_start s) = eb_queue s\<close> by simp
  moreover have "eb_error (eb_start s) = None" using assms(3) by (simp add: eb_start_def Let_def)
  ultimately show thesis
    using that [of "(eb_begin now (eb_start s))\<lparr>eb_tasks := [f], eb_queue := q\<rparr>"] by simp
qed

lemma race_first_success:
  fixes s :: "('f, 'e) eyeball_set"
  assumes "eb_tasks s = []" and "eb_error s = None" and "length es < length (eb_queue s)"
  shows "eyeball_finish now (map (\<lambda>e. Completes 0 (Inl e)) es @ Completes 0 (Inr v) # evs) s = Some (Return (Inr v))"
proof -
  from assms(3) have "eb_queue s \<noteq> []" by auto
  from start_running [OF assms(1) this assms(2)] obtain s' :: "('f, 'e) eyeball_set" where
    s': "eyeball_finish now (map (\<lambda>e. Completes 0 (Inl e)) es @ Completes 0 (Inr v) # evs) s =
        process_all now (map (\<lambda>e. Completes 0 (Inl e)) es @ Completes 0 (Inr v) # evs) s'"
      "eb_tasks s' \<noteq> []" "length (eb_tasks s') + length (eb_queue s') = length (eb_queue s)" by metis
  with assms(3) have pre: "length es \<le> length (eb_tasks s') + length (eb_queue s')" "eb_tasks s' \<noteq> [] \<or> eb_queue s' = []"
    by auto
  from process_failures [OF pre] obtain s'' :: "('f, 'e) eyeball_set" where
    s'': "process_all now (map (\<lambda>e. Completes 0 (Inl e)) es @ Completes 0 (Inr v) # evs) s' =
        process_all now (Completes 0 (Inr v) # evs) s''"
      "length (eb_tasks s'') + length (eb_queue s'') = length (eb_tasks s') + length (eb_queue s') - length es"
      "eb_tasks s'' = [] \<longrightarrow> eb_queue s'' = []" by metis
  from s''(2,3) s'(3) assms(3) have "eb_tasks s'' \<noteq> []" by auto
  with process_success show ?thesis using s'(1) s''(1) by metis
qed

lemma race_first_error:
  fixes s :: "('f, 'e) eyeball_set"
  assumes "eb_tasks s = []" and "eb_error s = None" and "length es = length (eb_queue s)"
  shows "eyeball_finish now (map (\<lambda>e. Completes 0 (Inl e)) es) s =
    (Some (Return (Inl (case es of [] \<Rightarrow> NoProgress | e # _ \<Rightarrow> Attempt_Error e))) :: ('t, 'e) eb_result)"
proof (cases "eb_queue s")
  case Nil
  with assms process_done [of "eb_start s" now "[]"] show ?thesis
    by (simp add: eyeball_finish_def eb_start_def Let_def)
next
  case (Cons f q)
  then have "eb_queue s \<noteq> []" by simp
  from start_running [OF assms(1) this assms(2)] obtain s' :: "('f, 'e) eyeball_set" where
    s': "eyeball_finish now (map (\<lambda>e. Completes 0 (Inl e)) es) s =
        (process_all now (map (\<lambda>e. Completes 0 (Inl e)) es) s' :: ('t, 'e) eb_result)"
      "eb_tasks s' \<noteq> []" "length (eb_tasks s') + length (eb_queue s') = length (eb_queue s)" "eb_error s' = None"
    by metis
  with assms(3) have pre: "length es \<le> length (eb_tasks s') + length (eb_queue s')" "eb_tasks s' \<noteq> [] \<or> eb_queue s' = []"
    by auto
  from process_failures [OF pre, of now "[]"] obtain s'' :: "('f, 'e) eyeball_set" where
    s'': "process_all now (map (\<lambda>e. Completes 0 (Inl e)) es) s' = (process_all now [] s'' :: ('t, 'e) eb_result)"
      "length (eb_tasks s'') + length (eb_queue s'') = length (eb_tasks s') + length (eb_queue s') - length es"
      "eb_error s'' = (case eb_error s' of Some e \<Rightarrow> Some e | None \<Rightarrow> (case es of [] \<Rightarrow> None | e # _ \<Rightarrow> Some (Attempt_Error e)))"
    by (metis append_Nil2)
  from s''(2) s'(3) assms(3) have "eb_tasks s'' = []" "eb_queue s'' = []" by auto
  from process_done [OF this, of now "[]"] s' s'' show ?thesis
    by (auto split: list.splits)
qed

section \<open>Properties\<close>



text \<open>When every attempt fails, the race answers the error of the first one to fail; with
  no attempt at all it answers \<open>NoProgress\<close>. It never stays pending or panics.\<close>

theorem eyeballs_first_error:
  fixes s :: "('f, 'e) eyeball_set"
  assumes "eb_tasks s = []" and "eb_error s = None" and "length es = length (eb_queue s)"
  shows "eyeball_finish now (map (\<lambda>e. Completes 0 (Inl e)) es) s =
    (Some (Return (Inl (case es of [] \<Rightarrow> NoProgress | e # _ \<Rightarrow> Attempt_Error e))) :: ('t, 'e) eb_result)"
  using assms by (rule race_first_error)

theorem eyeballs_first_error_witness:
  "eyeball_finish 0 (map (\<lambda>e. Completes 0 (Inl e)) [''refused'', ''reset''])
     (eyeball_push ''b'' (eyeball_push ''a'' (eyeball_new None None))) =
   (Some (Return (Inl (Attempt_Error ''refused''))) :: (nat, string) eb_result)"
  using eyeballs_first_error [of "eyeball_push ''b'' (eyeball_push ''a'' (eyeball_new None None))" "[''refused'', ''reset'']" 0]
  by (simp add: eyeball_push_def eyeball_new_def)

text \<open>The delay between attempts is never used: a set made by \<open>EyeballSet::new\<close> starts all
  its attempts at once, so \<open>finish\<close> answers the same for every delay and every schedule.\<close>

theorem eyeballs_delay_unused:
  "eb_queue (eb_start (eyeball_extend fs (eyeball_new d1 tmo) :: ('f, 'e) eyeball_set)) = [] \<and>
   eyeball_finish now evs (eyeball_extend fs (eyeball_new d1 tmo) :: ('f, 'e) eyeball_set) =
   eyeball_finish now evs (eyeball_extend fs (eyeball_new d2 tmo) :: ('f, 'e) eyeball_set)"
proof -
  let ?s = "\<lambda>d. eb_start (eyeball_extend fs (eyeball_new d tmo)) :: ('f, 'e) eyeball_set"
  have q: "eb_queue (?s d) = []" for d
    by (simp add: eb_start_def eyeball_extend_def eyeball_new_def Let_def)
  have "?s d2 = (?s d1)\<lparr>eb_delay := d2\<rparr>"
    by (simp add: eb_start_def eyeball_extend_def eyeball_new_def Let_def)
  then have "process_all now evs (?s d2) = process_all now evs (?s d1)"
    using process_delay [OF q] by metis
  with q show ?thesis by (simp add: eyeball_finish_def)
qed

end
