(* ===== verification/Tcp.thy ===== *)
theory Tcp
  imports Transport Dns Happy_Eyeballs
begin

text \<open>
  The TCP transport (client/conn/transport/tcp.rs): the host and port of a request, the
  addresses that are raced, the socket of one attempt with the system calls made on it, and
  the error each failure becomes. The resolver, the kernel's sockets and the timer are
  parameters; a socket's system calls are recorded in a trace.
\<close>

section \<open>Errors and configuration\<close>

datatype tcp_source = Source_Uri | Source_Io io_kind | Source_Join

record tcp_error =
  te_message :: string
  te_source :: "tcp_source option"

definition tcp_error_new :: "string \<Rightarrow> tcp_error" where
  "tcp_error_new message = \<lparr>te_message = message, te_source = None\<rparr>"

definition tcp_error_uri :: "string \<Rightarrow> tcp_error" where
  "tcp_error_uri message = \<lparr>te_message = message, te_source = Some Source_Uri\<rparr>"

definition tcp_error_msg :: "string \<Rightarrow> io_kind \<Rightarrow> tcp_error" where
  "tcp_error_msg message error = \<lparr>te_message = message, te_source = Some (Source_Io error)\<rparr>"

definition tcp_error_build :: "string \<Rightarrow> tcp_source \<Rightarrow> tcp_error" where
  "tcp_error_build message error = \<lparr>te_message = message, te_source = Some error\<rparr>"

definition tcp_error_from_join :: tcp_error where
  "tcp_error_from_join = tcp_error_build ''tcp connection panic'' Source_Join"

definition tcp_error_display :: "(tcp_source \<Rightarrow> string) \<Rightarrow> tcp_error \<Rightarrow> string" where
  "tcp_error_display show_source e =
     (case te_source e of
        Some source \<Rightarrow> te_message e @ '': '' @ show_source source
      | None \<Rightarrow> te_message e)"

record tcp_config =
  connect_timeout :: "duration option"
  keep_alive_timeout :: "duration option"
  happy_eyeballs_timeout :: "duration option"
  local_address_ipv4 :: "32 word option"
  local_address_ipv6 :: "128 word option"
  nodelay :: bool
  reuse_address :: bool
  send_buffer_size :: "usize option"
  recv_buffer_size :: "usize option"

definition tcp_config_default :: tcp_config where
  "tcp_config_default =
     \<lparr>connect_timeout = Some (10 * 10 ^ 9),
      keep_alive_timeout = Some (90 * 10 ^ 9),
      happy_eyeballs_timeout = Some (500 * 10 ^ 6),
      local_address_ipv4 = None,
      local_address_ipv6 = None,
      nodelay = True,
      reuse_address = True,
      send_buffer_size = None,
      recv_buffer_size = None\<rparr>"

record 'r tcp_transport =
  tt_config :: tcp_config
  tt_resolver :: 'r

definition tcp_builder :: "unit tcp_transport" where
  "tcp_builder = \<lparr>tt_config = tcp_config_default, tt_resolver = ()\<rparr>"

definition with_config :: "tcp_config \<Rightarrow> 'r tcp_transport \<Rightarrow> 'r tcp_transport" where
  "with_config config b = b\<lparr>tt_config := config\<rparr>"

definition with_resolver :: "'q \<Rightarrow> 'r tcp_transport \<Rightarrow> 'q tcp_transport" where
  "with_resolver resolver b = \<lparr>tt_config = tt_config b, tt_resolver = resolver\<rparr>"

text \<open>\<open>gai\<close> is the system's resolver.\<close>

definition tcp_config_build :: "'q \<Rightarrow> tcp_config \<Rightarrow> 'q tcp_transport" where
  "tcp_config_build gai config = with_resolver gai (with_config config tcp_builder)"

section \<open>Host and port\<close>

definition trim_start_matches :: "char \<Rightarrow> string \<Rightarrow> string" where
  "trim_start_matches c s = dropWhile (\<lambda>x. x = c) s"

definition trim_end_matches :: "char \<Rightarrow> string \<Rightarrow> string" where
  "trim_end_matches c s = rev (dropWhile (\<lambda>x. x = c) (rev s))"

definition get_host_and_port :: "uri \<Rightarrow> tcp_error + string \<times> u16" where
  "get_host_and_port u =
     result_bind (ok_or (tcp_error_uri ''missing host'') (uri_host u)) (\<lambda>host0.
       let host = trim_end_matches CHR '']'' (trim_start_matches CHR ''['' host0) in
       (case uri_port u of
          Some port \<Rightarrow> Inr (host, port)
        | None \<Rightarrow>
            (if u_scheme u = Some ''http'' then Inr (host, 80)
             else if u_scheme u = Some ''https'' then Inr (host, 443)
             else Inl (tcp_error_uri ''missing port''))))"

section \<open>The socket of one attempt\<close>

datatype sys =
  Sys_Socket ip_version
| Sys_Nonblocking
| Sys_Keepalive duration
| Sys_Bind ip_addr u16
| Sys_Reuseaddr
| Sys_Nodelay
| Sys_Sndbuf u32
| Sys_Rcvbuf u32

text \<open>
  A system call answers according to the calls made before it. \<open>try\<close> ends the function on
  an error, as \<open>?\<close> after \<open>map_err\<close> does; \<open>warn_only\<close> logs the error and goes on.
\<close>

type_synonym os = "sys list \<Rightarrow> sys \<Rightarrow> io_kind + unit"
type_synonym 'a traced = "sys list \<Rightarrow> (tcp_error + 'a) \<times> sys list"

definition try_call :: "os \<Rightarrow> string \<Rightarrow> sys \<Rightarrow> unit traced" where
  "try_call os message c tr = (map_err (tcp_error_msg message) (os tr c), tr @ [c])"

definition warn_call :: "os \<Rightarrow> sys \<Rightarrow> unit traced" where
  "warn_call os c tr = (case os tr c of Inl _ \<Rightarrow> Inr () | Inr _ \<Rightarrow> Inr (), tr @ [c])"

definition traced_return :: "'a \<Rightarrow> 'a traced" where
  "traced_return v tr = (Inr v, tr)"

definition and_then :: "unit traced \<Rightarrow> 'a traced \<Rightarrow> 'a traced" where
  "and_then f g tr = (case f tr of (Inl e, tr') \<Rightarrow> (Inl e, tr') | (Inr _, tr') \<Rightarrow> g tr')"

definition bind_local_address :: "os \<Rightarrow> socket_addr \<Rightarrow> 32 word option \<Rightarrow> 128 word option \<Rightarrow> unit traced" where
  "bind_local_address os dst_addr v4 v6 =
     (case (addr_version dst_addr, v4, v6) of
        (IPv4, Some addr, _) \<Rightarrow> try_call os ''tcp bind local address'' (Sys_Bind (V4 addr) 0)
      | (IPv6, _, Some addr) \<Rightarrow> try_call os ''tcp bind local address'' (Sys_Bind (V6 addr) 0)
      | _ \<Rightarrow> traced_return ())"

text \<open>\<open>size.try_into().unwrap_or(u32::MAX)\<close>\<close>

definition clamp_u32 :: "usize \<Rightarrow> u32" where
  "clamp_u32 sz = (if unat sz < 2 ^ 32 then ucast sz else - 1)"

text \<open>The synchronous part of \<open>connect\<close>.\<close>

definition tcp_socket :: "os \<Rightarrow> socket_addr \<Rightarrow> tcp_config \<Rightarrow> unit traced" where
  "tcp_socket os addr config =
     and_then (try_call os ''tcp open error'' (Sys_Socket (addr_version addr)))
    (and_then (try_call os ''tcp set_nonblocking error'' Sys_Nonblocking)
    (and_then (case keep_alive_timeout config of Some dur \<Rightarrow> warn_call os (Sys_Keepalive dur) | None \<Rightarrow> traced_return ())
    (and_then (bind_local_address os addr (local_address_ipv4 config) (local_address_ipv6 config))
    (and_then (if reuse_address config then warn_call os Sys_Reuseaddr else traced_return ())
    (and_then (case send_buffer_size config of Some sz \<Rightarrow> warn_call os (Sys_Sndbuf (clamp_u32 sz)) | None \<Rightarrow> traced_return ())
              (case recv_buffer_size config of Some sz \<Rightarrow> warn_call os (Sys_Rcvbuf (clamp_u32 sz)) | None \<Rightarrow> traced_return ()))))))"

text \<open>
  Its future: one poll, given the answer of the socket's \<open>connect\<close> and whether the timer of
  \<open>tokio::time::timeout\<close> has elapsed; the timer is looked at when the socket is pending.
\<close>

definition tcp_connect_poll :: "duration option \<Rightarrow> (io_kind + 'io) poll \<Rightarrow> bool \<Rightarrow> (tcp_error + 'io) poll" where
  "tcp_connect_poll timeout connect elapsed =
     map_ready (map_err (tcp_error_msg ''tcp connect error''))
       (case timeout of
          Some dur \<Rightarrow> (case connect of Pending \<Rightarrow> if elapsed then Ready (Inl TimedOut) else Pending | r \<Rightarrow> r)
        | None \<Rightarrow> connect)"

text \<open>
  A \<open>TcpConnectionAttempt\<close>: a socket that cannot be made ends it; its other outcomes are
  those of the future above.
\<close>

datatype attempt = Attempt (attempt_address: socket_addr) (attempt_config: tcp_config)

definition attempt_poll ::
  "os \<Rightarrow> sys list \<Rightarrow> (io_kind + 'io) poll \<Rightarrow> bool \<Rightarrow> attempt \<Rightarrow> (tcp_error + 'io) poll" where
  "attempt_poll os tr connect elapsed a =
     (case fst (tcp_socket os (attempt_address a) (attempt_config a) tr) of
        Inl e \<Rightarrow> Ready (Inl e)
      | Inr _ \<Rightarrow> tcp_connect_poll (connect_timeout (attempt_config a)) connect elapsed)"

section \<open>The race\<close>

definition tcp_connecting :: "'r tcp_transport \<Rightarrow> socket_addrs \<Rightarrow> socket_addrs" where
  "tcp_connecting t addrs =
     (if happy_eyeballs_timeout (tt_config t) \<noteq> None
      then sort_preferred (from_binding (local_address_ipv4 (tt_config t)) (local_address_ipv6 (tt_config t))) addrs
      else addrs)"

text \<open>\<open>duration / (len as u32)\<close> panics when the divisor is 0.\<close>

definition duration_div :: "duration \<Rightarrow> u32 \<Rightarrow> duration run" where
  "duration_div d n = (if n = 0 then Panic else Return (d div unat n))"

definition tcp_delay :: "tcp_config \<Rightarrow> socket_addrs \<Rightarrow> duration option run" where
  "tcp_delay config addrs =
     (if addrs = [] then Return (happy_eyeballs_timeout config)
      else case happy_eyeballs_timeout config of
        None \<Rightarrow> Return None
      | Some duration \<Rightarrow>
          run_bind (duration_div duration (of_nat (length addrs))) (\<lambda>d. Return (Some d)))"

text \<open>The loop that pops the addresses into the set.\<close>

fun push_attempts ::
  "tcp_config \<Rightarrow> socket_addrs \<Rightarrow> (attempt, tcp_error) eyeball_set \<Rightarrow> (attempt, tcp_error) eyeball_set" where
  "push_attempts config [] attempts = attempts"
| "push_attempts config (address # rest) attempts =
     push_attempts config rest (eyeball_push (Attempt address config) attempts)"

definition tcp_attempts :: "tcp_config \<Rightarrow> socket_addrs \<Rightarrow> (attempt, tcp_error) eyeball_set run" where
  "tcp_attempts config addresses =
     run_bind (tcp_delay config addresses) (\<lambda>delay.
       Return (push_attempts config addresses (eyeball_new delay (happy_eyeballs_timeout config))))"

fun tcp_race_error :: "tcp_error happy_error \<Rightarrow> tcp_error" where
  "tcp_race_error (Attempt_Error e) = e"
| "tcp_race_error (Timeout elapsed) =
     tcp_error_new (''Connection attempts timed out after '' @ decimal (elapsed div 10 ^ 6) @ ''ms'')"
| "tcp_race_error NoProgress = tcp_error_new ''Exhausted connection candidates''"

text \<open>
  \<open>TcpConnecting::connect\<close> under a schedule of the runtime: \<open>None\<close> is pending.
\<close>

definition tcp_race ::
  "tcp_config \<Rightarrow> socket_addrs \<Rightarrow> instant \<Rightarrow> ('io, tcp_error) event list \<Rightarrow> (tcp_error + 'io) run option" where
  "tcp_race config addresses now evs =
     (case tcp_attempts config addresses of
        Panic \<Rightarrow> Some Panic
      | Return attempts \<Rightarrow>
          map_option (\<lambda>r. run_bind r (\<lambda>v. Return (map_err tcp_race_error v))) (eyeball_finish now evs attempts))"

text \<open>\<open>TcpTransport::connect\<close>, given the resolver's answer for the host.\<close>

definition tcp_connect ::
  "('r \<Rightarrow> string \<Rightarrow> io_kind + socket_addrs) \<Rightarrow> 'r tcp_transport \<Rightarrow> string \<Rightarrow> u16 \<Rightarrow> instant
     \<Rightarrow> ('io, tcp_error) event list \<Rightarrow> (tcp_error + 'io) run option" where
  "tcp_connect resolve t host port now evs =
     (case resolve (tt_resolver t) host of
        Inl e \<Rightarrow> Some (Return (Inl (tcp_error_msg ''dns resolution'' e)))
      | Inr addrs \<Rightarrow> tcp_race (tt_config t) (tcp_connecting t (addrs_set_port port addrs)) now evs)"

definition tcp_poll_ready :: "('r \<Rightarrow> (io_kind + unit) poll \<times> 'r) \<Rightarrow> 'r tcp_transport \<Rightarrow> (tcp_error + unit) poll \<times> 'r tcp_transport" where
  "tcp_poll_ready ready t =
     (let (r, resolver) = ready (tt_resolver t)
      in (map_ready (map_err (tcp_error_msg ''dns poll_ready'')) r, t\<lparr>tt_resolver := resolver\<rparr>))"

definition tcp_call ::
  "('r \<Rightarrow> string \<Rightarrow> io_kind + socket_addrs) \<Rightarrow> ('tcp \<Rightarrow> 'io) \<Rightarrow> ('io \<Rightarrow> 'a connection_info)
     \<Rightarrow> 'r tcp_transport \<Rightarrow> uri \<Rightarrow> instant \<Rightarrow> ('tcp, tcp_error) event list
     \<Rightarrow> (tcp_error + ('io, 'a) transport_stream) run option" where
  "tcp_call resolve into info t req now evs =
     (case get_host_and_port req of
        Inl e \<Rightarrow> Some (Return (Inl e))
      | Inr (host, port) \<Rightarrow>
          map_option (\<lambda>r. run_bind r (\<lambda>v. Return (map_sum id (\<lambda>s. transport_stream_new info (into s) None) v)))
            (tcp_connect resolve t host port now evs))"


section \<open>The calls made on the socket\<close>

text \<open>The calls of \<open>tcp_socket\<close> in order, with the message of those whose failure ends it.\<close>

definition socket_plan :: "socket_addr \<Rightarrow> tcp_config \<Rightarrow> (sys \<times> string option) list" where
  "socket_plan addr config =
     [(Sys_Socket (addr_version addr), Some ''tcp open error''), (Sys_Nonblocking, Some ''tcp set_nonblocking error'')] @
     (case keep_alive_timeout config of Some d \<Rightarrow> [(Sys_Keepalive d, None)] | None \<Rightarrow> []) @
     (case (addr_version addr, local_address_ipv4 config, local_address_ipv6 config) of
        (IPv4, Some a, _) \<Rightarrow> [(Sys_Bind (V4 a) 0, Some ''tcp bind local address'')]
      | (IPv6, _, Some a) \<Rightarrow> [(Sys_Bind (V6 a) 0, Some ''tcp bind local address'')]
      | _ \<Rightarrow> []) @
     (if reuse_address config then [(Sys_Reuseaddr, None)] else []) @
     (case send_buffer_size config of Some n \<Rightarrow> [(Sys_Sndbuf (clamp_u32 n), None)] | None \<Rightarrow> []) @
     (case recv_buffer_size config of Some n \<Rightarrow> [(Sys_Rcvbuf (clamp_u32 n), None)] | None \<Rightarrow> [])"

fun run_plan :: "os \<Rightarrow> (sys \<times> string option) list \<Rightarrow> unit traced" where
  "run_plan os [] tr = (Inr (), tr)"
| "run_plan os ((c, f) # cs) tr =
     (case (os tr c, f) of
        (Inl k, Some m) \<Rightarrow> (Inl (tcp_error_msg m k), tr @ [c])
      | _ \<Rightarrow> run_plan os cs (tr @ [c]))"

lemma run_plan_append: "run_plan os (xs @ ys) = and_then (run_plan os xs) (run_plan os ys)"
proof
  fix tr
  show "run_plan os (xs @ ys) tr = and_then (run_plan os xs) (run_plan os ys) tr"
    by (induction os xs tr rule: run_plan.induct) (auto simp: and_then_def split: sum.splits option.splits)
qed

lemma try_call_plan: "try_call os m c = run_plan os [(c, Some m)]"
  by (rule ext) (simp add: try_call_def split: sum.splits)

lemma warn_call_plan: "warn_call os c = run_plan os [(c, None)]"
  by (rule ext) (simp add: warn_call_def split: sum.splits)

lemma return_plan: "traced_return () = run_plan os []"
  by (rule ext) (simp add: traced_return_def)

lemma tcp_socket_plan: "tcp_socket os addr config = run_plan os (socket_plan addr config)"
proof -
  have keep: "(case keep_alive_timeout config of Some d \<Rightarrow> warn_call os (Sys_Keepalive d) | None \<Rightarrow> traced_return ()) =
      run_plan os (case keep_alive_timeout config of Some d \<Rightarrow> [(Sys_Keepalive d, None)] | None \<Rightarrow> [])"
    by (simp add: warn_call_plan return_plan [of os] split: option.splits)
  have bind: "bind_local_address os addr (local_address_ipv4 config) (local_address_ipv6 config) =
      run_plan os (case (addr_version addr, local_address_ipv4 config, local_address_ipv6 config) of
        (IPv4, Some a, _) \<Rightarrow> [(Sys_Bind (V4 a) 0, Some ''tcp bind local address'')]
      | (IPv6, _, Some a) \<Rightarrow> [(Sys_Bind (V6 a) 0, Some ''tcp bind local address'')]
      | _ \<Rightarrow> [])"
    by (simp add: bind_local_address_def try_call_plan return_plan [of os] split: option.splits ip_version.splits)
  have reuse: "(if reuse_address config then warn_call os Sys_Reuseaddr else traced_return ()) =
      run_plan os (if reuse_address config then [(Sys_Reuseaddr, None)] else [])"
    by (simp add: warn_call_plan return_plan [of os])
  have snd: "(case send_buffer_size config of Some n \<Rightarrow> warn_call os (Sys_Sndbuf (clamp_u32 n)) | None \<Rightarrow> traced_return ()) =
      run_plan os (case send_buffer_size config of Some n \<Rightarrow> [(Sys_Sndbuf (clamp_u32 n), None)] | None \<Rightarrow> [])"
    by (simp add: warn_call_plan return_plan [of os] split: option.splits)
  have rcv: "(case recv_buffer_size config of Some n \<Rightarrow> warn_call os (Sys_Rcvbuf (clamp_u32 n)) | None \<Rightarrow> traced_return ()) =
      run_plan os (case recv_buffer_size config of Some n \<Rightarrow> [(Sys_Rcvbuf (clamp_u32 n), None)] | None \<Rightarrow> [])"
    by (simp add: warn_call_plan return_plan [of os] split: option.splits)
  show ?thesis
    unfolding tcp_socket_def keep bind reuse snd rcv try_call_plan run_plan_append [symmetric] socket_plan_def
    by simp
qed

lemma run_plan_outcome:
  assumes "run_plan os cs tr = (r, tr')"
  shows "(r = Inr () \<longrightarrow> tr' = tr @ map fst cs) \<and>
    (\<forall>e. r = Inl e \<longrightarrow> (\<exists>pre c m k. tr' = pre @ [c] \<and> (c, Some m) \<in> set cs \<and> os pre c = Inl k \<and>
       e = tcp_error_msg m k)) \<and> (\<exists>n. tr' = tr @ take n (map fst cs))"
  using assms
proof (induction cs arbitrary: tr)
  case Nil
  then show ?case by auto
next
  case (Cons x cs)
  obtain c f where x: "x = (c, f)" by fastforce
  show ?case
  proof (cases "\<exists>k m. os tr c = Inl k \<and> f = Some m")
    case True
    then obtain k m where km: "os tr c = Inl k" "f = Some m" by auto
    with Cons.prems x have "r = Inl (tcp_error_msg m k)" "tr' = tr @ [c]" by auto
    moreover have "tr @ [c] = tr @ take 1 (map fst (x # cs))" by (simp add: x)
    moreover have "(c, Some m) \<in> set (x # cs)" by (simp add: x km)
    ultimately show ?thesis using km(1) by blast
  next
    case False
    then have "run_plan os cs (tr @ [c]) = (r, tr')"
      using Cons.prems x by (auto split: sum.splits option.splits)
    note ih = Cons.IH [OF this]
    from ih obtain n where "tr' = tr @ take (Suc n) (map fst (x # cs))" by (auto simp: x)
    moreover from ih have "r = Inr () \<longrightarrow> tr' = tr @ map fst (x # cs)" by (simp add: x)
    moreover have "\<exists>pre c m k. tr' = pre @ [c] \<and> (c, Some m) \<in> set (x # cs) \<and> os pre c = Inl k \<and> e = tcp_error_msg m k"
      if "r = Inl e" for e
    proof -
      from ih that obtain pre c' m k where "tr' = pre @ [c'] \<and> (c', Some m) \<in> set cs \<and> os pre c' = Inl k \<and> e = tcp_error_msg m k"
        by blast
      then show ?thesis by (intro exI [of _ pre] exI [of _ c'] exI [of _ m] exI [of _ k]) simp
    qed
    ultimately show ?thesis by blast
  qed
qed

section \<open>The race\<close>

lemma push_attempts_queue:
  "push_attempts config addrs s = eyeball_extend (map (\<lambda>a. Attempt a config) addrs) s"
  by (induction addrs arbitrary: s) (auto simp: eyeball_push_def eyeball_extend_def)

lemma tcp_attempts_eq:
  assumes "length addrs < 2 ^ 32"
  shows "tcp_attempts config addrs =
    Return (eyeball_extend (map (\<lambda>a. Attempt a config) addrs)
      (eyeball_new (if addrs = [] then happy_eyeballs_timeout config
                    else map_option (\<lambda>d. d div length addrs) (happy_eyeballs_timeout config))
        (happy_eyeballs_timeout config)))"
proof -
  have un: "unat (of_nat (length addrs) :: u32) = length addrs"
    using assms by (simp add: unat_of_nat take_bit_nat_eq_self)
  then have "addrs \<noteq> [] \<Longrightarrow> (of_nat (length addrs) :: u32) \<noteq> 0" by (metis length_0_conv unat_0)
  with un show ?thesis
    by (auto simp: tcp_attempts_def tcp_delay_def duration_div_def push_attempts_queue split: option.splits)
qed

lemma set_port_simps [simp]: "addr_port (addr_set_port p a) = p" "addr_version (addr_set_port p a) = addr_version a"
  by (cases a; simp)+

lemma tcp_connecting_mset: "mset (tcp_connecting t addrs) = mset addrs"
  by (simp add: tcp_connecting_def sort_preferred_perm)

lemma tcp_connecting_length: "length (tcp_connecting t addrs) = length addrs"
  using arg_cong [OF tcp_connecting_mset, of size] by simp

lemma tcp_connect_eq:
  fixes evs :: "('io, tcp_error) event list"
  assumes "resolve (tt_resolver t) host = Inr addrs" and "length addrs < 2 ^ 32"
  obtains attempts :: "(attempt, tcp_error) eyeball_set" where "eb_tasks attempts = []" and "eb_error attempts = None"
    and "length (eb_queue attempts) = length addrs"
    and "tcp_connect resolve t host port now evs =
      map_option (\<lambda>r. run_bind r (\<lambda>v. Return (map_err tcp_race_error v))) (eyeball_finish now evs attempts)"
proof -
  have l: "length (tcp_connecting t (addrs_set_port port addrs)) = length addrs"
    by (simp add: tcp_connecting_length addrs_set_port_def)
  with assms(2) have "length (tcp_connecting t (addrs_set_port port addrs)) < 2 ^ 32" by simp
  note eq = tcp_attempts_eq [OF this, of "tt_config t"]
  from l show thesis
    by (intro that) (auto simp: tcp_connect_def tcp_race_def assms(1) eq eyeball_extend_def eyeball_new_def)
qed

section \<open>Properties\<close>

text \<open>The candidates raced for a request are exactly the resolved addresses with the
  request's port, each one attempt under the transport's configuration; with no happy-eyeballs
  timeout they keep the resolver's order. The number of addresses is below \<open>2^32\<close>, where the
  division for the delay does not panic.\<close>

theorem tcp_candidates:
  assumes "length addrs < 2 ^ 32"
  shows "\<exists>attempts. tcp_attempts (tt_config t) (tcp_connecting t (addrs_set_port port addrs)) = Return attempts \<and>
    mset (map attempt_address (eb_queue attempts)) = mset (map (addr_set_port port) addrs) \<and>
    (\<forall>a \<in> set (eb_queue attempts). attempt_config a = tt_config t \<and> addr_port (attempt_address a) = port) \<and>
    (happy_eyeballs_timeout (tt_config t) = None \<longrightarrow>
       map attempt_address (eb_queue attempts) = map (addr_set_port port) addrs) \<and>
    eb_timeout attempts = happy_eyeballs_timeout (tt_config t)"
proof -
  let ?as = "tcp_connecting t (addrs_set_port port addrs)"
  have "length ?as < 2 ^ 32" using assms by (simp add: tcp_connecting_length addrs_set_port_def)
  note eq = tcp_attempts_eq [OF this, of "tt_config t"]
  have "set ?as = addr_set_port port ` set addrs"
    using mset_eq_setD [OF tcp_connecting_mset, of t "addrs_set_port port addrs"] by (simp add: addrs_set_port_def)
  then show ?thesis
    using arg_cong [OF tcp_connecting_mset [of t "addrs_set_port port addrs"], of "image_mset id"]
    unfolding eq
    by - (intro exI conjI, rule refl,
      auto simp: eyeball_extend_def eyeball_new_def comp_def addrs_set_port_def tcp_connecting_def)
qed

theorem tcp_candidates_witness:
  "\<exists>attempts. tcp_attempts (tt_config tcp_builder)
      (tcp_connecting tcp_builder (addrs_set_port 443 [SocketV4 7 0, SocketV6 1 0 0 0])) = Return attempts \<and>
    mset (map attempt_address (eb_queue attempts)) = {#SocketV4 7 443, SocketV6 1 443 0 0#}"
  using tcp_candidates [of "[SocketV4 7 0, SocketV6 1 0 0 0]" tcp_builder 443] by auto





end
