(* ===== verification/Layers.thy ===== *)
theory Layers
  imports Auto_Server Client_Builder Tcp
begin

text \<open>
  How the components are put together: the executor (bridge/rt.rs), the builder of the
  automatic server protocol (server/conn/auto.rs), the builder of the TCP transport with its
  resolver (client/conn/transport/tcp.rs, client/conn/dns.rs), the extensions and accessors of
  the transports (client/conn/transport/), the conversions into server streams and acceptors
  (server/conn/), the layers that make the adapters of service/, and the ways to get a client
  (client/mod.rs, client/service.rs). Their results are the values of the other theories.
\<close>

section \<open>The executor\<close>

text \<open>\<open>tokio::spawn\<close> adds a task to those of the runtime.\<close>

datatype tokio_executor = TokioExecutor

definition executor_new :: tokio_executor where
  "executor_new = TokioExecutor"

definition executor_execute :: "tokio_executor \<Rightarrow> 'f \<Rightarrow> 'f list \<Rightarrow> 'f list" where
  "executor_execute executor future tasks = tasks @ [future]"

section \<open>The builder of the automatic protocol\<close>

text \<open>Hyper's two builders are parameters; \<open>http1\<close> and \<open>http2\<close> lend one of them for a change.\<close>

record ('b1, 'b2) auto_builder =
  ab_http1 :: 'b1
  ab_http2 :: 'b2

definition auto_builder_new :: "'b1 \<Rightarrow> ('e \<Rightarrow> 'b2) \<Rightarrow> 'e \<Rightarrow> ('b1, 'b2) auto_builder" where
  "auto_builder_new new1 new2 executor = \<lparr>ab_http1 = new1, ab_http2 = new2 executor\<rparr>"

definition auto_builder_default :: "'b1 \<Rightarrow> (tokio_executor \<Rightarrow> 'b2) \<Rightarrow> ('b1, 'b2) auto_builder" where
  "auto_builder_default new1 new2 = auto_builder_new new1 new2 executor_new"

definition auto_builder_http1 :: "('b1 \<Rightarrow> 'b1) \<Rightarrow> ('b1, 'b2) auto_builder \<Rightarrow> ('b1, 'b2) auto_builder" where
  "auto_builder_http1 change b = b\<lparr>ab_http1 := change (ab_http1 b)\<rparr>"

definition auto_builder_http2 :: "('b2 \<Rightarrow> 'b2) \<Rightarrow> ('b1, 'b2) auto_builder \<Rightarrow> ('b1, 'b2) auto_builder" where
  "auto_builder_http2 change b = b\<lparr>ab_http2 := change (ab_http2 b)\<rparr>"

text \<open>\<open>Protocol::serve_connection_with_upgrades\<close>: the connection keeps a clone of the builder.\<close>

definition auto_serve_connection ::
  "('svc \<Rightarrow> 'a) \<Rightarrow> ('b1, 'b2) auto_builder \<Rightarrow> 's \<Rightarrow> 'svc
     \<Rightarrow> ('b1, 'b2) auto_builder \<times> ('s tokio_io, 'a, 'c1, 'c2) connection_state" where
  "auto_serve_connection adapt b stream service = (b, connecting_build adapt service stream)"

definition connecting_shutdown ::
  "('s tokio_io, 'a, 'c1, 'c2, 'h) hyper_ops \<Rightarrow> ('s tokio_io, 'a, 'c1, 'c2) connection_state
     \<Rightarrow> ('s tokio_io, 'a, 'c1, 'c2) connection_state" where
  "connecting_shutdown hy conn = upgradable_shutdown hy conn"

section \<open>The builder of the TCP transport\<close>

datatype gai_resolver = GaiResolver

definition gai_new :: gai_resolver where
  "gai_new = GaiResolver"

definition gai_poll_ready :: "gai_resolver \<Rightarrow> (io_kind + unit) poll \<times> gai_resolver" where
  "gai_poll_ready r = (Ready (Inr ()), r)"

definition with_gai_resolver :: "'r tcp_transport \<Rightarrow> gai_resolver tcp_transport" where
  "with_gai_resolver b = \<lparr>tt_config = tt_config b, tt_resolver = gai_new\<rparr>"

definition tcp_build :: "'r tcp_transport \<Rightarrow> 'r tcp_transport" where
  "tcp_build b = \<lparr>tt_config = tt_config b, tt_resolver = tt_resolver b\<rparr>"

definition tcp_transport_default :: "gai_resolver tcp_transport" where
  "tcp_transport_default = tcp_build (with_gai_resolver tcp_builder)"

definition tcp_config_mut :: "(tcp_config \<Rightarrow> tcp_config) \<Rightarrow> 'r tcp_transport \<Rightarrow> 'r tcp_transport" where
  "tcp_config_mut change b = b\<lparr>tt_config := change (tt_config b)\<rparr>"

text \<open>A default transport is the one a client's builder makes of the default configuration.\<close>

lemma tcp_transport_default_eq: "tcp_transport_default = tcp_config_build gai_new tcp_config_default"
  by (simp add: tcp_transport_default_def tcp_build_def with_gai_resolver_def tcp_builder_def tcp_config_build_def
      with_resolver_def with_config_def)

section \<open>Transports\<close>

text \<open>\<open>TransportExt\<close>; a default TLS configuration may panic while it is read.\<close>

definition tls_transport_with_default_tls :: "'cfg run \<Rightarrow> ('t, 'cfg) tls_transport \<Rightarrow> ('t, 'cfg) tls_transport run" where
  "tls_transport_with_default_tls tls t = run_bind tls (\<lambda>config. Return (tls_transport_with_tls config t))"

definition tls_transport_default :: "'t \<Rightarrow> 'cfg run \<Rightarrow> ('t, 'cfg) tls_transport run" where
  "tls_transport_default t tls = run_bind tls (\<lambda>config. Return (tls_transport_with_tls config (tls_transport_new t)))"

definition ext_with_tls :: "'cfg \<Rightarrow> 't \<Rightarrow> ('t, 'cfg) tls_transport" where
  "ext_with_tls config t = tls_transport_with_tls config (tls_transport_new t)"

definition ext_with_default_tls :: "'cfg run \<Rightarrow> 't \<Rightarrow> ('t, 'cfg) tls_transport run" where
  "ext_with_default_tls tls t = tls_transport_with_default_tls tls (tls_transport_new t)"

definition ext_without_tls :: "'t \<Rightarrow> ('t, 'cfg) tls_transport" where
  "ext_without_tls t = tls_transport_new t"

fun tls_transport_config :: "('t, 'cfg) tls_transport \<Rightarrow> 'cfg option" where
  "tls_transport_config (TT_Plain _) = None"
| "tls_transport_config (TT_Tls w) = Some (tw_config w)"

fun tls_transport_inner_ref :: "('t, 'cfg) tls_transport \<Rightarrow> 't" where
  "tls_transport_inner_ref (TT_Plain inner) = inner"
| "tls_transport_inner_ref (TT_Tls w) = tw_transport w"

fun tls_transport_inner_mut :: "('t \<Rightarrow> 't) \<Rightarrow> ('t, 'cfg) tls_transport \<Rightarrow> ('t, 'cfg) tls_transport" where
  "tls_transport_inner_mut change (TT_Plain inner) = TT_Plain (change inner)"
| "tls_transport_inner_mut change (TT_Tls w) = TT_Tls (w\<lparr>tw_transport := change (tw_transport w)\<rparr>)"

lemma tls_transport_accessors:
  "tls_transport_parts tt = (tls_transport_inner_ref tt, tls_transport_config tt)"
  "tls_transport_config (tls_transport_inner_mut f tt) = tls_transport_config tt"
  "tls_transport_inner_ref (tls_transport_inner_mut f tt) = f (tls_transport_inner_ref tt)"
  "tls_transport_inner tt = tls_transport_inner_ref tt"
  by (cases tt; simp)+

text \<open>The parts of a \<open>TransportStream\<close>.\<close>

definition transport_tls_info :: "('io, 'a) transport_stream \<Rightarrow> tls_info option" where
  "transport_tls_info ts = ts_tls ts"

definition transport_into_inner :: "('io, 'a) transport_stream \<Rightarrow> 'io" where
  "transport_into_inner ts = ts_stream ts"

definition transport_get_io_mut :: "('io \<Rightarrow> 'io) \<Rightarrow> ('io, 'a) transport_stream \<Rightarrow> ('io, 'a) transport_stream" where
  "transport_get_io_mut change ts = ts\<lparr>ts_stream := change (ts_stream ts)\<rparr>"

definition transport_into_parts :: "('io, 'a) transport_stream \<Rightarrow> 'io \<times> 'a connection_info" where
  "transport_into_parts ts = (ts_stream ts, ts_info ts)"

definition transport_info :: "('io, 'a) transport_stream \<Rightarrow> 'a connection_info" where
  "transport_info ts = ts_info ts"

text \<open>\<open>IntoStream\<close>: ready when its transport is, and calls it.\<close>

datatype 't into_stream = IntoStream (into_stream_transport: 't)

definition into_stream_poll_ready ::
  "('t, 'f, 'io, 'a, 'e) transport_ops \<Rightarrow> 't into_stream \<Rightarrow> ('e + unit) poll \<times> 't into_stream" where
  "into_stream_poll_ready ops s = (let (r, t) = t_poll_ready ops (into_stream_transport s) in (r, IntoStream t))"

definition into_stream_call ::
  "('t, 'f, 'io, 'a, 'e) transport_ops \<Rightarrow> uri \<Rightarrow> 't into_stream \<Rightarrow> 'f \<times> 't into_stream" where
  "into_stream_call ops req s = (let (f, t) = t_connect ops (into_stream_transport s) req in (f, IntoStream t))"

text \<open>\<open>IntoStream\<close> and \<open>TlsTransport\<close> without a configuration start the same connection.\<close>

lemma into_stream_connects:
  "fst (tls_transport_call ops req (ext_without_tls t)) = BF_Plain (fst (into_stream_call ops req (IntoStream t)))"
  by (simp add: into_stream_call_def ext_without_tls_def tls_transport_new_def case_prod_beta)

section \<open>Server streams and acceptors\<close>

text \<open>
  \<open>Stream::from\<close>: each kind of stream as a \<open>Braid\<close> without TLS, with the addresses it reports
  converted into \<open>BraidAddr\<close>. Asking a socket for its addresses may panic.
\<close>

definition server_stream_from_tcp ::
  "('t \<Rightarrow> socket_addr connection_info run) \<Rightarrow> 't \<Rightarrow> ('h, 's, braid_addr, ('t, 'd, 'u) braid) server_stream run" where
  "server_stream_from_tcp info stream =
     run_bind (info stream) (\<lambda>i. Return \<lparr>ss_info = info_map braid_addr_from_socket i, ss_inner = NoTls (Braid_Tcp stream)\<rparr>)"

definition server_stream_from_duplex ::
  "('d \<Rightarrow> unit connection_info) \<Rightarrow> 'd \<Rightarrow> ('h, 's, braid_addr, ('t, 'd, 'u) braid) server_stream run" where
  "server_stream_from_duplex info stream =
     Return \<lparr>ss_info = info_map braid_addr_from_duplex (info stream), ss_inner = NoTls (Braid_Duplex stream)\<rparr>"

definition server_stream_from_unix ::
  "('u \<Rightarrow> unix_addr connection_info run) \<Rightarrow> 'u \<Rightarrow> ('h, 's, braid_addr, ('t, 'd, 'u) braid) server_stream run" where
  "server_stream_from_unix info stream =
     run_bind (info stream) (\<lambda>i. Return \<lparr>ss_info = info_map braid_addr_from_unix i, ss_inner = NoTls (Braid_Unix stream)\<rparr>)"

text \<open>\<open>HasConnectionInfo for Braid\<close>, and the stream made from a \<open>Braid\<close>, as an acceptor makes it.\<close>

fun braid_info ::
  "('t \<Rightarrow> socket_addr connection_info run) \<Rightarrow> ('d \<Rightarrow> unit connection_info) \<Rightarrow> ('u \<Rightarrow> unix_addr connection_info run)
     \<Rightarrow> ('t, 'd, 'u) braid \<Rightarrow> braid_addr connection_info run" where
  "braid_info tcp dup unix (Braid_Tcp stream) = run_bind (tcp stream) (\<lambda>i. Return (info_map Addr_Tcp i))"
| "braid_info tcp dup unix (Braid_Duplex stream) = Return (info_map (\<lambda>_. Addr_Duplex) (dup stream))"
| "braid_info tcp dup unix (Braid_Unix stream) = run_bind (unix stream) (\<lambda>i. Return (info_map Addr_Unix i))"

definition server_stream_from_braid ::
  "(('t, 'd, 'u) braid \<Rightarrow> braid_addr connection_info run) \<Rightarrow> ('t, 'd, 'u) braid
     \<Rightarrow> ('h, 's, braid_addr, ('t, 'd, 'u) braid) server_stream run" where
  "server_stream_from_braid info stream =
     run_bind (info stream) (\<lambda>i. Return \<lparr>ss_info = i, ss_inner = NoTls stream\<rparr>)"

definition server_stream_info :: "('h, 's, 'a, 'io) server_stream \<Rightarrow> 'a connection_info" where
  "server_stream_info st = ss_info st"

text \<open>Listeners as acceptors, binding one, and an acceptor as a stream or a future of connections.\<close>

definition core_from_tcp :: "'t \<Rightarrow> ('t, 'd, 'u) braid" where
  "core_from_tcp listener = Braid_Tcp listener"

definition core_from_duplex :: "'d \<Rightarrow> ('t, 'd, 'u) braid" where
  "core_from_duplex incoming = Braid_Duplex incoming"

definition core_from_unix :: "'u \<Rightarrow> ('t, 'd, 'u) braid" where
  "core_from_unix listener = Braid_Unix listener"

definition acceptor_from :: "('x \<Rightarrow> ('t, 'd, 'u) braid) \<Rightarrow> 'x \<Rightarrow> ('cfg, ('t, 'd, 'u) braid) acceptor_inner" where
  "acceptor_from into listener = Acc_NoTls (into listener)"

definition acceptor_bind ::
  "(socket_addr \<Rightarrow> io_kind + 't) \<Rightarrow> socket_addr \<Rightarrow> io_kind + ('cfg, ('t, 'd, 'u) braid) acceptor_inner" where
  "acceptor_bind bind addr = map_sum id (acceptor_from core_from_tcp) (bind addr)"

definition acceptor_poll_next :: "('acc, 'conn) acceptor \<Rightarrow> 'acc \<Rightarrow> (io_kind + 'conn) option poll \<times> 'acc" where
  "acceptor_poll_next accept acc = (let (r, acc') = accept acc in (map_ready Some r, acc'))"

definition tls_acceptor_new :: "'cfg \<Rightarrow> 'acc \<Rightarrow> 'cfg \<times> 'acc" where
  "tls_acceptor_new config incoming = (config, incoming)"

definition ext_accept_tls :: "'cfg \<Rightarrow> 'acc \<Rightarrow> 'cfg \<times> 'acc" where
  "ext_accept_tls config accept = tls_acceptor_new config accept"

datatype 'acc accept_one = AcceptOne (accept_one_inner: 'acc)

definition ext_accept :: "'acc \<Rightarrow> 'acc accept_one" where
  "ext_accept acc = AcceptOne acc"

definition accept_one_poll :: "('acc, 'conn) acceptor \<Rightarrow> 'acc accept_one \<Rightarrow> (io_kind + 'conn) poll \<times> 'acc accept_one" where
  "accept_one_poll accept a = (let (r, acc') = accept (accept_one_inner a) in (r, AcceptOne acc'))"

text \<open>\<open>TlsHandshakeFuture\<close>: the handshake of the stream it borrows.\<close>

definition handshake_future_poll :: "('s \<Rightarrow> (io_kind + unit) poll \<times> 's) \<Rightarrow> 's \<Rightarrow> (io_kind + unit) poll \<times> 's" where
  "handshake_future_poll poll_handshake stream = poll_handshake stream"

section \<open>Layers of services\<close>

definition adapt_custom_body_layer ::
  "('b dyn_body \<Rightarrow> 'in) \<Rightarrow> ('out \<Rightarrow> 'b any_body) \<Rightarrow> ('s, 'in request, 'f, 'out response, 'e) service
     \<Rightarrow> ('s, 'b body request, 'f, 'b body response, 'e) service" where
  "adapt_custom_body_layer into as_any inner = adapt_custom_body into as_any inner"

definition adapt_outer_body_layer ::
  "('in \<Rightarrow> 'b body) \<Rightarrow> ('b body \<Rightarrow> 'out) \<Rightarrow> ('s, 'b body request, 'f, 'b body response, 'e) service
     \<Rightarrow> ('s, 'in request, 'f, 'out response, 'e) service" where
  "adapt_outer_body_layer into transform inner = adapt_outer_body into transform inner"

definition adapt_incoming_layer ::
  "('s, 'b body request, 'f, 'rsp, 'e) service \<Rightarrow> ('s, 'b request, 'f, 'rsp, 'e) service" where
  "adapt_incoming_layer inner = adapt_incoming inner"

definition shared_layer :: "('s, 'req, 'f, 'rsp, 'e) service \<Rightarrow> ('s, 'req, 'f, 'rsp, 'e) service" where
  "shared_layer inner = shared_service inner"

text \<open>All three around a service over bodies in a box.\<close>

definition adapter_stack ::
  "('in \<Rightarrow> 'b body) \<Rightarrow> ('b body \<Rightarrow> 'out) \<Rightarrow> ('r \<Rightarrow> 'b any_body) \<Rightarrow> ('s, 'b dyn_body request, 'f, 'r response, 'e) service
     \<Rightarrow> ('s, 'in request, 'f, 'out response, 'e) service" where
  "adapter_stack into transform as_any svc =
     shared_layer (adapt_outer_body_layer into transform (adapt_custom_body_layer id as_any svc))"

section \<open>Clients\<close>

definition response_new ::
  "(key, 'c, 'f, 'st) checkout \<Rightarrow> 'b body request \<Rightarrow> ('c, 'f, 'st, 'b, 'sf, 'x) response_future" where
  "response_new checkout request = RF_Checkout checkout request"

definition response_error :: "'x conn_error \<Rightarrow> ('c, 'f, 'st, 'b, 'sf, 'x) response_future" where
  "response_error error = RF_Connection_Error error"

text \<open>A clone of the client's service shares the pool it names.\<close>

definition client_service_clone :: "('t \<Rightarrow> 't) \<Rightarrow> ('p \<Rightarrow> 'p) \<Rightarrow> ('t, 'p) client_service \<Rightarrow> ('t, 'p) client_service" where
  "client_service_clone clone_transport clone_protocol svc =
     \<lparr>cs_transport = clone_transport (cs_transport svc), cs_protocol = clone_protocol (cs_protocol svc), cs_pool = cs_pool svc\<rparr>"

definition client_service_request ::
  "('t \<Rightarrow> 't) \<Rightarrow> ('p \<Rightarrow> 'p) \<Rightarrow> (('t, 'p) client_service \<Rightarrow> 'b body request \<Rightarrow> 'f) \<Rightarrow> ('t, 'p) client_service
     \<Rightarrow> 'b body request \<Rightarrow> 'f" where
  "client_service_request clone_transport clone_protocol oneshot svc request =
     oneshot (client_service_clone clone_transport clone_protocol svc) request"

definition client_default ::
  "('svc, 'rp) client_layers \<Rightarrow> ('t \<Rightarrow> 't2) \<Rightarrow> ('p \<Rightarrow> 'p2) \<Rightarrow> ((('t2, 'cfg) tls_transport, 'p2) client_service \<Rightarrow> 'svc)
     \<Rightarrow> nat \<Rightarrow> (key, 'c) pool_heap \<Rightarrow> ('t, 'p, 'rp, 'cfg) client_builder run \<Rightarrow> ('svc \<times> (key, 'c) pool_heap) run" where
  "client_default ly bt bp service a heap builder_default = run_bind builder_default (client_build ly bt bp service a heap)"

definition client_builder_empty :: "(unit, unit, 'rp, 'cfg) client_builder" where
  "client_builder_empty = client_builder_new"

section \<open>Properties\<close>

text \<open>C37: the same connection reports two addresses: a server stream made from a TCP stream
  reports the canonical addresses, and one made from the \<open>Braid\<close> around that stream, as an
  acceptor makes it, reports the socket's. They differ exactly by \<open>BraidAddr::canonical\<close>: for
  an IPv4 peer of a dual-stack listener one is the IPv4 address, the other the mapped IPv6
  address. Streams of the other kinds report the same either way.\<close>

theorem server_stream_addresses:
  "server_stream_from_tcp tcp t =
     map_run (\<lambda>st. st\<lparr>ss_info := info_map braid_addr_canonical (ss_info st)\<rparr>)
       (server_stream_from_braid (braid_info tcp dup unix) (Braid_Tcp t)) \<and>
   server_stream_from_duplex dup d = server_stream_from_braid (braid_info tcp dup unix) (Braid_Duplex d) \<and>
   server_stream_from_unix unix u = server_stream_from_braid (braid_info tcp dup unix) (Braid_Unix u) \<and>
   map_run (remote_addr \<circ> server_stream_info)
     (server_stream_from_tcp (\<lambda>_. Return \<lparr>local_addr = l, remote_addr = SocketV6 (ipv4_to_mapped a) p 0 0, buffer_size = None\<rparr>) t) =
     Return (Addr_Tcp (SocketV4 a p)) \<and>
   map_run (remote_addr \<circ> server_stream_info) (server_stream_from_braid (braid_info
     (\<lambda>_. Return \<lparr>local_addr = l, remote_addr = SocketV6 (ipv4_to_mapped a) p 0 0, buffer_size = None\<rparr>) dup unix) (Braid_Tcp t)) =
     Return (Addr_Tcp (SocketV6 (ipv4_to_mapped a) p 0 0))"
proof -
  have canonical: "make_canonical (SocketV6 (ipv4_to_mapped a) p 0 0) = SocketV4 a p"
    by (simp add: make_canonical_def to_ipv4_mapped_def drop_mapped ucast_mapped)
  have "info_map braid_addr_from_socket i = info_map braid_addr_canonical (info_map Addr_Tcp i)" for i
    by (simp add: info_map_def braid_addr_from_socket_def)
  then have "server_stream_from_tcp tcp t =
     map_run (\<lambda>st. st\<lparr>ss_info := info_map braid_addr_canonical (ss_info st)\<rparr>)
       (server_stream_from_braid (braid_info tcp dup unix) (Braid_Tcp t))"
    by (cases "tcp t") (simp_all add: server_stream_from_tcp_def server_stream_from_braid_def)
  moreover have "server_stream_from_duplex dup d = server_stream_from_braid (braid_info tcp dup unix) (Braid_Duplex d)"
    by (simp add: server_stream_from_duplex_def server_stream_from_braid_def info_map_def braid_addr_from_duplex_def)
  moreover have "server_stream_from_unix unix u = server_stream_from_braid (braid_info tcp dup unix) (Braid_Unix u)"
    by (cases "unix u") (simp_all add: server_stream_from_unix_def server_stream_from_braid_def info_map_def
        braid_addr_from_unix_def)
  ultimately show ?thesis
    by (simp add: server_stream_from_tcp_def server_stream_from_braid_def server_stream_info_def info_map_def
        braid_addr_from_socket_def canonical)
qed

text \<open>What a service behind the body adapters sees: \<open>AdaptOuterBody\<close> around \<open>AdaptCustomBody\<close>
  passes on the readiness, calls the service with the caller's request but for a body that
  shows what the caller's \<open>Body\<close> shows, and answers with its response but for the transformed
  body, which shows what the service's body shows; a body that already is a \<open>Body\<close> stays itself.\<close>

theorem adapted_bodies:
  fixes svc :: "('s, 'b dyn_body request, 'f, 'r response, 'e) service"
  shows "s_ready (adapter_stack into transform as_any svc) = s_ready svc \<and>
    s_call (adapter_stack into transform as_any svc) s req = s_call svc s (request_map (body_as_boxed \<circ> into) req) \<and>
    observe (dyn_ops_of x) n (rq_body (request_map (body_as_boxed \<circ> into) req)) = observe (body_ops_of x) n (into (rq_body req)) \<and>
    s_fpoll (adapter_stack into transform as_any svc) f = (let (r, f') = s_fpoll svc f
      in (map_ready (map_sum id (response_map (transform \<circ> body_new \<circ> as_any))) r, f')) \<and>
    observe (body_ops_of x) n (body_new (Is_Other d)) = observe (dyn_ops_of x) n d \<and> body_new (Is_Body b) = b"
proof -
  have map_twice: "map_sum id (response_map (transform \<circ> body_new \<circ> as_any)) x =
      (case map_sum id (response_map (\<lambda>res. body_new (as_any res))) x of
         Inl e \<Rightarrow> Inl e | Inr res \<Rightarrow> Inr (response_map transform res))" for x :: "'e + 'r response"
    by (cases x) (simp_all add: response_map_def)
  have "s_fpoll (adapter_stack into transform as_any svc) f = (let (r, f') = s_fpoll svc f
      in (map_ready (map_sum id (response_map (transform \<circ> body_new \<circ> as_any))) r, f'))"
    by (cases "fst (s_fpoll svc f)")
      (auto simp: adapter_stack_def shared_layer_def shared_service_def adapt_outer_body_layer_def adapt_custom_body_layer_def
        adapt_outer_body_def adapt_custom_body_def adapt_outer_future_poll_def adapt_body_future_poll_def map_twice
        case_prod_beta split: sum.splits)
  moreover have "s_call (adapter_stack into transform as_any svc) s req = s_call svc s (request_map (body_as_boxed \<circ> into) req)" and "s_ready (adapter_stack into transform as_any svc) = s_ready svc"
    by (simp_all add: adapter_stack_def shared_layer_def shared_service_def adapt_outer_body_layer_def adapt_custom_body_layer_def
        adapt_outer_body_def adapt_custom_body_def request_map_def)
  ultimately show ?thesis
    by (simp add: request_map_def observe_as_boxed observe_boxed body_new_def)
qed

end
