(* ===== verification/Lazy.thy ===== *)
theory Lazy
  imports Prelude
begin

text \<open>
  \<open>Lazy\<close> (lazy.rs): a future that is made by a closure when it is first polled. The pool
  wraps the connecting future of a checkout in one, so that nothing is dialled before the
  checkout is polled.
\<close>

datatype ('i, 'r) lazy = Lazy_Init 'i | Lazy_Future 'r | Lazy_Empty

definition lazy_new :: "'i \<Rightarrow> ('i, 'r) lazy" where
  "lazy_new f = Lazy_Init f"

text \<open>
  One poll. The closure \<open>start\<close> may panic; the state is \<open>Empty\<close> while it runs, so a later
  poll finds it empty. The loop goes round once more after the closure, and polls.
\<close>

fun lazy_poll ::
  "('i \<Rightarrow> 'r run) \<Rightarrow> ('r \<Rightarrow> 'a poll \<times> 'r) \<Rightarrow> ('i, 'r) lazy \<Rightarrow> 'a poll \<times> ('i, 'r) lazy" where
  "lazy_poll start poll (Lazy_Future future) = (let (r, future') = poll future in (r, Lazy_Future future'))"
| "lazy_poll start poll (Lazy_Init f) =
     (case start f of
        Panic \<Rightarrow> (Panicked, Lazy_Empty)
      | Return future \<Rightarrow> (let (r, future') = poll future in (r, Lazy_Future future')))"
| "lazy_poll start poll Lazy_Empty = (Panicked, Lazy_Empty)"

text \<open>The answers of \<open>n\<close> polls, one after the other.\<close>

fun answers :: "('s \<Rightarrow> 'a poll \<times> 's) \<Rightarrow> nat \<Rightarrow> 's \<Rightarrow> 'a poll list" where
  "answers poll 0 s = []"
| "answers poll (Suc n) s = (let (r, s') = poll s in r # answers poll n s')"

lemma answers_lazy_future: "answers (lazy_poll start poll) n (Lazy_Future r) = answers poll n r"
  by (induction n arbitrary: r) (simp_all add: split_beta Let_def)

lemma answers_lazy_empty: "answers (lazy_poll start poll) n Lazy_Empty = replicate n Panicked"
  by (induction n) simp_all

text \<open>A lazy future answers every poll as the future its closure makes, which it makes
  once, at the first poll; when the closure panics every poll panics.\<close>

theorem lazy_is_future:
  "answers (lazy_poll start poll) n (lazy_new f) =
     (case start f of Return r \<Rightarrow> answers poll n r | Panic \<Rightarrow> replicate n Panicked)"
  by (cases n) (auto simp: lazy_new_def answers_lazy_future answers_lazy_empty split_beta Let_def split: run.splits)

end
