(* ===== verification/Formatting.thy ===== *)
theory Formatting
  imports Checkout Uris Body Auto_Server Transport Client_Service Discovery
begin

text \<open>
  What the code prints: the builders of \<open>std::fmt\<close> it uses, and its implementations of \<open>Debug\<close>
  and \<open>Display\<close>. How a value of another crate is printed is a parameter.
\<close>

section \<open>The builders of std::fmt\<close>

fun join :: "string \<Rightarrow> string list \<Rightarrow> string" where
  "join sep [] = []"
| "join sep [s] = s"
| "join sep (s # ss) = s @ sep @ join sep ss"

definition debug_struct :: "string \<Rightarrow> (string \<times> string) list \<Rightarrow> string" where
  "debug_struct name fs =
     name @ (if fs = [] then [] else '' { '' @ join '', '' (map (\<lambda>(f, v). f @ '': '' @ v) fs) @ '' }'')"

definition debug_tuple :: "string \<Rightarrow> string list \<Rightarrow> string" where
  "debug_tuple name fs = name @ (if fs = [] then [] else ''('' @ join '', '' fs @ '')'')"

definition debug_list :: "string list \<Rightarrow> string" where
  "debug_list xs = ''['' @ join '', '' xs @ '']''"

definition debug_option :: "('a \<Rightarrow> string) \<Rightarrow> 'a option \<Rightarrow> string" where
  "debug_option dbg v = (case v of None \<Rightarrow> ''None'' | Some x \<Rightarrow> debug_tuple ''Some'' [dbg x])"

definition debug_bool :: "bool \<Rightarrow> string" where
  "debug_bool b = (if b then ''true'' else ''false'')"

text \<open>\<open>DebugLiteral\<close> prints what it wraps as it is displayed.\<close>

definition debug_literal :: "('a \<Rightarrow> string) \<Rightarrow> 'a \<Rightarrow> string" where
  "debug_literal display v = display v"

section \<open>The pool\<close>

definition key_debug :: "(string \<Rightarrow> string) \<Rightarrow> (authority \<Rightarrow> string) \<Rightarrow> key \<Rightarrow> string" where
  "key_debug dbg_scheme dbg_authority k =
     debug_tuple ''Key'' [dbg_scheme (key_scheme k), debug_option dbg_authority (key_authority k)]"

fun weak_opt_debug :: "'p weak_opt \<Rightarrow> string" where
  "weak_opt_debug (WeakOpt (Some _)) = debug_tuple ''WeakOpt'' [debug_literal id ''Some(...)'']"
| "weak_opt_debug (WeakOpt None) = debug_tuple ''WeakOpt'' [debug_literal id ''None'']"

fun waiting_debug :: "waiting \<Rightarrow> string" where
  "waiting_debug (Waiting_Idle _) = debug_tuple ''Idle'' []"
| "waiting_debug (Waiting_Connecting _) = debug_tuple ''Connecting'' []"
| "waiting_debug NoPool = debug_tuple ''NoPool'' []"

definition connector_debug :: "'f \<Rightarrow> string" where
  "connector_debug c = debug_struct ''Connector'' []"

fun inner_checkout_debug :: "('f, 't) inner_checkout \<Rightarrow> string" where
  "inner_checkout_debug Inner_Waiting = debug_tuple ''Waiting'' []"
| "inner_checkout_debug Inner_Connected = debug_tuple ''Connected'' []"
| "inner_checkout_debug (Inner_Connecting _) = debug_tuple ''Connecting'' []"
| "inner_checkout_debug (Inner_Handshaking _) = debug_tuple ''Handshaking'' []"

definition checkout_debug ::
  "(string \<Rightarrow> string) \<Rightarrow> (authority \<Rightarrow> string) \<Rightarrow> (key, 'c, 'f, 't) checkout \<Rightarrow> string" where
  "checkout_debug dbg_scheme dbg_authority co =
     debug_struct ''Checkout''
       [(''key'', key_debug dbg_scheme dbg_authority (ck_key co)),
        (''pool'', weak_opt_debug (ck_pool co)),
        (''waiter'', waiting_debug (ck_waiter co)),
        (''inner'', inner_checkout_debug (ck_inner co))]"

definition idle_debug :: "(instant \<Rightarrow> string) \<Rightarrow> ('c \<Rightarrow> string) \<Rightarrow> 'c idle \<Rightarrow> string" where
  "idle_debug dbg_instant dbg e = debug_struct ''Idle'' [(''at'', dbg_instant (idle_at e)), (''inner'', dbg (idle_inner e))]"

definition idle_connections_debug ::
  "(instant \<Rightarrow> string) \<Rightarrow> ('c \<Rightarrow> string) \<Rightarrow> 'c idle_connections \<Rightarrow> string" where
  "idle_connections_debug dbg_instant dbg xs =
     debug_struct ''IdleConnections'' [(''inner'', debug_list (map (idle_debug dbg_instant dbg) xs))]"

text \<open>The identifiers of checkouts, which builds with debug assertions have.\<close>

datatype checkout_id = CheckoutId usize

definition checkout_id_new :: "usize \<Rightarrow> checkout_id \<times> usize" where
  "checkout_id_new counter = (CheckoutId counter, counter + 1)"

fun checkout_id_display :: "checkout_id \<Rightarrow> string" where
  "checkout_id_display (CheckoutId n) = ''checkout-'' @ decimal (unat n)"

fun checkout_id_debug :: "checkout_id \<Rightarrow> string" where
  "checkout_id_debug (CheckoutId n) = debug_tuple ''CheckoutId'' [decimal (unat n)]"

section \<open>Streams and connections\<close>

definition stream_id_display :: "u16 \<Rightarrow> string" where
  "stream_id_display ident = ''stream-'' @ decimal (unat ident)"

definition mock_stream_debug :: "flags \<Rightarrow> mock_stream \<Rightarrow> string" where
  "mock_stream_debug fl s =
     debug_struct ''MockStream''
       [(''open'', debug_bool (fl (ms_open s))), (''reuse'', debug_bool (ms_reuse s)),
        (''ident'', debug_tuple ''StreamID'' [decimal (unat (ms_ident s))])]"

definition http_connection_debug :: "('h1, 'h2) http_connection \<Rightarrow> string" where
  "http_connection_debug c = debug_struct ''HttpConnection'' [(''version'', version_debug (http_version c))]"

fun client_tls_state_debug :: "('h, 's) tls_state \<Rightarrow> string" where
  "client_tls_state_debug (Handshake _) = ''State::Handshake''"
| "client_tls_state_debug (Streaming _) = ''State::Streaming''"

fun server_tls_state_debug :: "('h, 's) tls_state \<Rightarrow> string" where
  "server_tls_state_debug (Handshake _) = ''State::Handshake''"
| "server_tls_state_debug (Streaming _) = ''State::Streaming''"

fun tls_future_debug :: "('f, 'cfg, 'st, 'e) tls_future \<Rightarrow> string" where
  "tls_future_debug (TF_Connecting _ _ _) = debug_struct ''Connecting'' []"
| "tls_future_debug (TF_Handshake _) = debug_struct ''Handshake'' []"
| "tls_future_debug (TF_Error _) = debug_struct ''Error'' []"
| "tls_future_debug TF_Invalid = debug_struct ''Invalid'' []"

fun braid_future_debug :: "('f, 'tf) braid_future \<Rightarrow> string" where
  "braid_future_debug (BF_Plain _) = debug_struct ''Braid::Plain'' []"
| "braid_future_debug (BF_Tls _) = debug_struct ''Braid::Tls'' []"

fun connection_state_debug ::
  "('s read_version \<Rightarrow> string) \<Rightarrow> ('c2 \<Rightarrow> string) \<Rightarrow> ('s, 'svc, 'c1, 'c2) connection_state \<Rightarrow> string" where
  "connection_state_debug dbg_version dbg_conn (CS_ReadVersion rv _) = debug_struct ''ReadVersion'' [(''read_version'', dbg_version rv)]"
| "connection_state_debug dbg_version dbg_conn (CS_Http1 _) = debug_struct ''ConnectionState::Http1'' []"
| "connection_state_debug dbg_version dbg_conn (CS_Http2 conn) = debug_struct ''ConnectionState::Http2'' [(''connection'', dbg_conn conn)]"

fun body_debug :: "'b body \<Rightarrow> string" where
  "body_debug Empty_Body = debug_struct ''Empty'' []"
| "body_debug (Full_Body _) = debug_struct ''Full'' []"
| "body_debug (Boxed _) = debug_struct ''Boxed'' []"
| "body_debug (Http_Body _) = debug_struct ''Http'' []"
| "body_debug (HttpSync _) = debug_struct ''HttpSync'' []"
| "body_debug (Incoming _) = debug_struct ''Incoming'' []"
| "body_debug (AxumBody _) = debug_struct ''AxumBody'' []"

end
