(* ===== verification/Test_Prelude.thy ===== *)
theory Test_Prelude
  imports Prelude
begin

text \<open>
  What the repository's unit tests use of the language. A test is a program that returns, or
  panics where an assertion fails or an \<open>unwrap\<close> finds nothing.
\<close>

definition assert_that :: "bool \<Rightarrow> unit run" where
  "assert_that b = (if b then Return () else Panic)"

definition unwrap :: "'a option \<Rightarrow> 'a run" where
  "unwrap x = (case x of None \<Rightarrow> Panic | Some v \<Rightarrow> Return v)"

lemma assert_that_simps [simp]: "assert_that True = Return ()" "assert_that False = Panic"
  by (simp_all add: assert_that_def)

lemma unwrap_simps [simp]: "unwrap (Some v) = Return v" "unwrap None = Panic"
  by (simp_all add: unwrap_def)

definition assert_panics :: "'a run \<Rightarrow> unit run" where
  "assert_panics r = (case r of Panic \<Rightarrow> Return () | Return _ \<Rightarrow> Panic)"

lemma assert_panics_simps [simp]: "assert_panics Panic = Return ()" "assert_panics (Return v) = Panic"
  by (simp_all add: assert_panics_def)

definition expect_err :: "'e + 'a \<Rightarrow> 'e run" where
  "expect_err r = (case r of Inl e \<Rightarrow> Return e | Inr _ \<Rightarrow> Panic)"

lemma expect_err_simps [simp]: "expect_err (Inl e) = Return e" "expect_err (Inr v) = Panic"
  by (simp_all add: expect_err_def)

text \<open>The statements of a test that bind nothing, in order.\<close>

fun assert_all :: "bool list \<Rightarrow> unit run" where
  "assert_all [] = Return ()"
| "assert_all (b # bs) = run_bind (assert_that b) (\<lambda>_. assert_all bs)"

lemma assert_all_iff: "assert_all bs = Return () \<longleftrightarrow> (\<forall>b \<in> set bs. b)"
  by (induction bs) (auto simp: assert_that_def)

text \<open>An await in a test where nothing else runs: a pending future is never woken.\<close>

fun await_poll :: "'a poll \<Rightarrow> 'a run" where
  "await_poll (Ready v) = Return v"
| "await_poll Pending = Panic"
| "await_poll Panicked = Panic"

text \<open>The numerals that the tests print.\<close>

lemma digit_chars:
  "char_of (48 :: nat) = CHR ''0''" "char_of (49 :: nat) = CHR ''1''" "char_of (50 :: nat) = CHR ''2''"
  "char_of (51 :: nat) = CHR ''3''" "char_of (52 :: nat) = CHR ''4''" "char_of (53 :: nat) = CHR ''5''"
  "char_of (54 :: nat) = CHR ''6''" "char_of (55 :: nat) = CHR ''7''" "char_of (56 :: nat) = CHR ''8''"
  "char_of (57 :: nat) = CHR ''9''"
  by code_simp+

end
