(* ===== verification/Pool_Tests.thy ===== *)
theory Pool_Tests
  imports Pool_System Formatting Test_Prelude
begin

text \<open>
  The unit tests of the pool (client/pool/mod.rs, checkout.rs, idle.rs, weakopt.rs, key.rs) as
  programs over the model: one definition per test, each assertion a branch that panics. They
  run over the mock connections and transports the tests use, and pass whatever the clock shows
  while they run and whatever number the counter of stream identifiers has reached.
\<close>

section \<open>Running a test\<close>

text \<open>
  The transport future of a connector: one of the mock transport's, that are ready at once, or
  the receiver of the channel of \<open>checkout_multiplex_contended\<close>, which panics when it is closed.
\<close>

datatype test_connector = At_Once "unit + transport_mode" | On_Channel

definition single :: test_connector where
  "single = At_Once (Inr (mock_transport_new False))"

definition reusable :: test_connector where
  "reusable = At_Once (Inr (mock_transport_new True))"

definition transport_error :: test_connector where
  "transport_error = At_Once (Inl ())"

text \<open>
  A test's world: its pool, the flags of the mock streams with the next address and the next
  identifier, the channel, and what the clock shows each time it is read.
\<close>

record test_state =
  ts_world :: "(key, mock_stream, test_connector, transport_mode) world"
  ts_flags :: flags
  ts_next :: nat
  ts_ident :: u16
  ts_channel :: "transport_mode cell"
  ts_clock :: "nat \<Rightarrow> instant"
  ts_reads :: nat

definition test_start :: "config \<Rightarrow> u16 \<Rightarrow> (nat \<Rightarrow> instant) \<Rightarrow> test_state" where
  "test_start c ident clock =
     \<lparr>ts_world = world_init c, ts_flags = \<lambda>_. False, ts_next = 0, ts_ident = ident, ts_channel = Empty,
      ts_clock = clock, ts_reads = 0\<rparr>"

definition ts_now :: "test_state \<Rightarrow> instant" where
  "ts_now t = ts_clock t (ts_reads t)"

definition tick :: "test_state \<Rightarrow> test_state" where
  "tick t = t\<lparr>ts_reads := Suc (ts_reads t)\<rparr>"

text \<open>\<open>MockStream::new\<close>.\<close>

definition test_stream :: "bool \<Rightarrow> test_state \<Rightarrow> mock_stream \<times> test_state" where
  "test_stream re t =
     (let (s, ident, fl) = mock_new re (ts_next t) (ts_ident t) (ts_flags t)
      in (s, t\<lparr>ts_flags := fl, ts_ident := ident, ts_next := Suc (ts_next t)\<rparr>))"

text \<open>\<open>pool.checkout(key, multiplex, Connector::new(source, MockTransport::handshake))\<close>.\<close>

definition test_checkout :: "key \<Rightarrow> bool \<Rightarrow> test_connector \<Rightarrow> test_state \<Rightarrow> test_state" where
  "test_checkout key multiplex source t =
     tick (t\<lparr>ts_world := do_checkout (mock_ops (ts_flags t)) (ts_now t) key multiplex source (ts_world t)\<rparr>)"

definition source_poll :: "test_state \<Rightarrow> test_connector \<Rightarrow> (unit + transport_mode) poll" where
  "source_poll t source =
     (case source of
        At_Once r \<Rightarrow> Ready r
      | On_Channel \<Rightarrow>
          (case fst (rx_poll (ts_channel t)) of
             Ready (Inl _) \<Rightarrow> Panicked
           | Ready (Inr mode) \<Rightarrow> Ready (Inr mode)
           | Pending \<Rightarrow> Pending
           | Panicked \<Rightarrow> Panicked))"

text \<open>
  One poll of the checkout \<open>j\<close>. The handshake makes the stream it answers with when it runs, which
  the result shows: that stream has the fresh address.
\<close>

definition test_poll :: "nat \<Rightarrow> test_state \<Rightarrow> (unit pool_error + (key, mock_stream) pooled) poll \<times> test_state" where
  "test_poll j t =
     (let tr = (case ck_inner (w_checkouts (ts_world t) ! j) of
                  Inner_Connecting source \<Rightarrow> source_poll t source | _ \<Rightarrow> Pending);
          hs = (\<lambda>mode. Ready (Inr (fst (mock_transport_handshake mode (ts_next t) (ts_ident t) (ts_flags t)))));
          ops = mock_ops ((ts_flags t)(ts_next t := True));
          (w, r) = do_poll ops mock_transport_can_share (ts_now t) tr hs j (ts_world t);
          made = (case r of Ready (Inr p) \<Rightarrow> map_option ms_open (p_connection p) = Some (ts_next t) | _ \<Rightarrow> False);
          t' = (if made then snd (test_stream True t) else t)
      in (r, tick (t'\<lparr>ts_world := w\<rparr>)))"

text \<open>
  \<open>.await\<close> in a test where nothing else runs, so that a pending future is never woken; and
  \<open>now_or_never().unwrap()\<close>: both are one poll that has to be ready.
\<close>

definition test_await :: "nat \<Rightarrow> test_state \<Rightarrow> ((unit pool_error + (key, mock_stream) pooled) \<times> test_state) run" where
  "test_await j t = (case test_poll j t of (Ready r, t') \<Rightarrow> Return (r, t') | _ \<Rightarrow> Panic)"

text \<open>\<open>.await.unwrap()\<close>: the connection, which is the last one held.\<close>

definition await_conn :: "nat \<Rightarrow> test_state \<Rightarrow> (mock_stream \<times> test_state) run" where
  "await_conn j t =
     run_bind (test_await j t) (\<lambda>(r, t').
       run_bind (expect r) (\<lambda>p. run_bind (unwrap (p_connection p)) (\<lambda>c. Return (c, t'))))"

definition checkout_conn :: "key \<Rightarrow> bool \<Rightarrow> test_connector \<Rightarrow> test_state \<Rightarrow> (mock_stream \<times> test_state) run" where
  "checkout_conn key multiplex source t =
     (let t' = test_checkout key multiplex source t in await_conn (length (w_checkouts (ts_world t)) ) t')"

definition test_drop :: "nat \<Rightarrow> test_state \<Rightarrow> test_state" where
  "test_drop j t = tick (t\<lparr>ts_world := do_release (mock_ops (ts_flags t)) (ts_now t) j (ts_world t)\<rparr>)"

definition test_drop_checkout :: "nat \<Rightarrow> test_state \<Rightarrow> test_state" where
  "test_drop_checkout j t = tick (t\<lparr>ts_world := do_cancel (mock_ops (ts_flags t)) (ts_now t) j (ts_world t)\<rparr>)"

definition test_drop_pool :: "test_state \<Rightarrow> test_state" where
  "test_drop_pool t = t\<lparr>ts_world := do_drop_pool (ts_world t)\<rparr>"

definition test_close :: "mock_stream \<Rightarrow> test_state \<Rightarrow> test_state" where
  "test_close s t = t\<lparr>ts_flags := mock_close (ts_flags t) s\<rparr>"

definition test_open :: "mock_stream \<Rightarrow> test_state \<Rightarrow> bool" where
  "test_open s t = mock_is_open (ts_flags t) s"

text \<open>\<open>pool.inner.lock().unwrap().push(key, connection, pool_ref)\<close>.\<close>

definition test_push :: "key \<Rightarrow> mock_stream \<Rightarrow> test_state \<Rightarrow> test_state run" where
  "test_push key c t =
     run_bind (unwrap (w_heap (ts_world t) 0)) (\<lambda>i.
       let (i', sends) = push (mock_ops (ts_flags t)) (rx_closed (w_cells (ts_world t))) (ts_now t) key c (weak_downgrade 0) i
       in Return (tick (t\<lparr>ts_world := (ts_world t)\<lparr>w_heap := (w_heap (ts_world t))(0 \<mapsto> i'),
                     w_cells := deliver sends (w_cells (ts_world t))\<rparr>\<rparr>)))"

section \<open>The tests of the pool (client/pool/mod.rs)\<close>

definition test_config :: config where
  "test_config = \<lparr>idle_timeout = Some (10 * 10 ^ 9), max_idle_per_host = 5\<rparr>"

definition localhost :: authority where
  "localhost = \<lparr>au_text = ''localhost:8080'', au_host = ''localhost'', au_port = Some 8080\<rparr>"

definition sensible_config :: "unit run" where
  "sensible_config =
     (let i = (pool_new config_default :: (key, mock_stream) pool_inner)
      in run_bind (unwrap (idle_timeout (cfg i))) (\<lambda>d.
         run_bind (assert_that (d > 10 ^ 9)) (\<lambda>_.
         run_bind (assert_that (max_idle_per_host (cfg i) > 0)) (\<lambda>_.
         assert_that (max_idle_per_host (cfg i) < 2048)))))"

text \<open>
  The body of \<open>checkout_simple\<close>, \<open>checkout_multiplex\<close> and \<open>checkout_simple_cloned\<close>: a connection
  that is dropped is found again, one that is closed is not.
\<close>

definition reused_until_closed :: "key \<Rightarrow> bool \<Rightarrow> test_connector \<Rightarrow> test_state \<Rightarrow> unit run" where
  "reused_until_closed key multiplex source t0 =
     run_bind (checkout_conn key multiplex source t0) (\<lambda>(conn, t1).
     run_bind (assert_that (test_open conn t1)) (\<lambda>_.
     let cid = ms_ident conn; t2 = test_drop 0 t1 in
     run_bind (checkout_conn key multiplex source t2) (\<lambda>(conn, t3).
     run_bind (assert_that (test_open conn t3)) (\<lambda>_.
     run_bind (assert_that (ms_ident conn = cid)) (\<lambda>_.
     let t4 = test_drop 0 (test_close conn t3) in
     run_bind (checkout_conn key multiplex source t4) (\<lambda>(c2, t5).
     run_bind (assert_that (test_open c2 t5)) (\<lambda>_.
     assert_that (ms_ident c2 \<noteq> cid))))))))"

definition checkout_simple :: "test_state \<Rightarrow> unit run" where
  "checkout_simple = reused_until_closed (key_from_pair (''http'', localhost)) False single"

definition checkout_multiplex :: "test_state \<Rightarrow> unit run" where
  "checkout_multiplex = reused_until_closed (key_from_pair (''https'', localhost)) True reusable"

text \<open>A clone of the pool is another reference to the same \<open>PoolInner\<close>.\<close>

definition checkout_simple_cloned :: "test_state \<Rightarrow> unit run" where
  "checkout_simple_cloned = reused_until_closed (key_from_pair (''http'', localhost)) False single"

text \<open>
  The two futures are pinned on the stack, and dropped at the end of the test; here they are
  dropped when they are ready, after which the test asks only the connections.
\<close>

definition checkout_multiplex_contended :: "test_state \<Rightarrow> unit run" where
  "checkout_multiplex_contended t0 =
     (let key = key_from_pair (''https'', localhost);
          t1 = test_checkout key True On_Channel t0;
          (ra, t2) = test_poll 0 t1 in
      run_bind (assert_that (ra = Pending)) (\<lambda>_.
      let t3 = test_checkout key True reusable t2; (rb, t4) = test_poll 1 t3 in
      run_bind (assert_that (rb = Pending)) (\<lambda>_.
      run_bind (assert_that (ts_channel t4 = Empty)) (\<lambda>_.
      let t5 = t4\<lparr>ts_channel := Full (mock_transport_new True)\<rparr>; (rb, t6) = test_poll 1 t5 in
      run_bind (assert_that (rb = Pending)) (\<lambda>_.
      run_bind (await_conn 0 t6) (\<lambda>(conn_a, t7).
      run_bind (assert_that (test_open conn_a t7)) (\<lambda>_.
      run_bind (await_conn 0 t7) (\<lambda>(conn_b, t8).
      run_bind (assert_that (test_open conn_b t8)) (\<lambda>_.
      assert_that (ms_ident conn_b = ms_ident conn_a))))))))))"

definition checkout_idle_returned :: "test_state \<Rightarrow> unit run" where
  "checkout_idle_returned t0 =
     (let key = key_from_pair (''https'', localhost);
          (conn, t1) = test_stream False t0;
          first_id = ms_ident conn;
          t2 = test_checkout key False single t1 in
      run_bind (test_push key conn t2) (\<lambda>t3.
      run_bind (await_conn 0 t3) (\<lambda>(conn, t4).
      run_bind (assert_that (test_open conn t4)) (\<lambda>_.
      assert_that (ms_ident conn = first_id)))))"

definition checkout_idle_connected :: "test_state \<Rightarrow> unit run" where
  "checkout_idle_connected t0 =
     (let key = key_from_pair (''https'', localhost);
          (conn_first, t1) = test_stream False t0;
          first_id = ms_ident conn_first;
          t2 = test_checkout key False single t1 in
      run_bind (unwrap (w_heap (ts_world t2) 0)) (\<lambda>i.
      run_bind (unwrap (waiting i key)) (\<lambda>ws.
      run_bind (assert_that (ws \<noteq> [])) (\<lambda>_.
      run_bind (await_conn 0 t2) (\<lambda>(conn, t3).
      run_bind (test_push key conn_first t3) (\<lambda>t4.
      run_bind (assert_that (test_open conn t4)) (\<lambda>_.
      assert_that (ms_ident conn \<noteq> first_id))))))))"

definition checkout_drop_pool_err :: "test_state \<Rightarrow> unit run" where
  "checkout_drop_pool_err t0 =
     (let key = key_from_pair (''https'', localhost);
          t1 = test_checkout key True reusable t0;
          t2 = test_checkout key True reusable t1;
          t3 = test_drop_pool (test_drop_checkout 0 t2) in
      run_bind (test_await 0 t3) (\<lambda>(r, _). assert_that (case r of Inl _ \<Rightarrow> True | Inr _ \<Rightarrow> False)))"

definition checkout_drop_pool :: "test_state \<Rightarrow> unit run" where
  "checkout_drop_pool t0 =
     (let key = key_from_pair (''https'', localhost);
          t1 = test_drop_pool (test_checkout key True reusable t0) in
      run_bind (test_await 0 t1) (\<lambda>(r, _). assert_that (case r of Inl _ \<Rightarrow> False | Inr _ \<Rightarrow> True)))"

definition checkout_connection_error :: "test_state \<Rightarrow> unit run" where
  "checkout_connection_error t0 =
     (let key = key_from_pair (''https'', localhost);
          t1 = test_checkout key True transport_error t0 in
      run_bind (test_await 0 t1) (\<lambda>(outcome, _).
      case outcome of Inr _ \<Rightarrow> Panic | Inl error \<Rightarrow> assert_that (error = Connecting_Error ())))"

section \<open>The tests of the idle connections (client/pool/idle.rs)\<close>

definition starts_with :: "string \<Rightarrow> string \<Rightarrow> bool" where
  "starts_with s prefix = (take (length prefix) s = prefix)"

definition verify_idle :: "(instant \<Rightarrow> string) \<Rightarrow> test_state \<Rightarrow> unit run" where
  "verify_idle dbg_instant t0 =
     (let (conn, t1) = test_stream False t0; idle = idle_new (ts_now t1) conn;
          dbg = idle_debug dbg_instant (mock_stream_debug (ts_flags t1)) idle
      in assert_that (starts_with dbg ''Idle { at: Instant {''))"

definition test_pop :: "duration option \<Rightarrow> mock_stream idle_connections \<Rightarrow> test_state
    \<Rightarrow> mock_stream idle_connections \<times> mock_stream option \<times> test_state" where
  "test_pop timeout idle t =
     (let (idle', conn) = idle_pop (mock_is_open (ts_flags t)) (ts_now t) timeout idle in (idle', conn, tick t))"

definition verify_idle_connections :: "(instant \<Rightarrow> string) \<Rightarrow> test_state \<Rightarrow> unit run" where
  "verify_idle_connections dbg_instant t0 =
     (let idle = ([] :: mock_stream idle_connections) in
      run_bind (assert_that (length idle = 0)) (\<lambda>_.
      run_bind (assert_that (idle = [])) (\<lambda>_.
      run_bind (assert_that (idle_connections_debug dbg_instant (mock_stream_debug (ts_flags t0)) idle =
        ''IdleConnections { inner: [] }'')) (\<lambda>_.
      let (conn, t1) = test_stream False t0; idle = idle_push (ts_now t1) conn idle; t2 = tick t1 in
      run_bind (assert_that (length idle = 1)) (\<lambda>_.
      run_bind (assert_that (idle \<noteq> [])) (\<lambda>_.
      let (idle, conn, t3) = test_pop None idle t2 in
      run_bind (assert_that (conn \<noteq> None)) (\<lambda>_.
      run_bind (assert_that (length idle = 0)) (\<lambda>_.
      assert_that (idle = [])))))))))"

text \<open>How the next three begin: three streams, pushed one after the other.\<close>

definition three_idle :: "test_state \<Rightarrow> (mock_stream idle_connections \<times> test_state) run" where
  "three_idle t0 =
     (let idle = ([] :: mock_stream idle_connections) in
      run_bind (assert_that (length idle = 0)) (\<lambda>_.
      let (conn1, t1) = test_stream False t0; (conn2, t2) = test_stream False t1; (conn3, t3) = test_stream False t2;
          idle = idle_push (ts_now t3) conn1 idle; t4 = tick t3;
          idle = idle_push (ts_now t4) conn2 idle; t5 = tick t4;
          idle = idle_push (ts_now t5) conn3 idle; t6 = tick t5 in
      run_bind (assert_that (length idle = 3)) (\<lambda>_. Return (idle, t6))))"

definition pops_to :: "bool \<Rightarrow> nat \<Rightarrow> duration option \<Rightarrow> mock_stream idle_connections \<times> test_state
    \<Rightarrow> (mock_stream idle_connections \<times> test_state) run" where
  "pops_to found n timeout s =
     (case s of (idle, t) \<Rightarrow>
        let (idle', conn, t') = test_pop timeout idle t in
        run_bind (assert_that ((conn \<noteq> None) = found)) (\<lambda>_.
        run_bind (assert_that (length idle' = n)) (\<lambda>_. Return (idle', t'))))"

definition test_idle_connections :: "test_state \<Rightarrow> unit run" where
  "test_idle_connections t =
     run_bind (three_idle t) (\<lambda>s.
     run_bind (pops_to True 2 None s) (\<lambda>s.
     run_bind (pops_to True 1 None s) (\<lambda>s.
     run_bind (pops_to True 0 None s) (\<lambda>s.
     run_bind (pops_to False 0 None s) (\<lambda>_. Return ())))))"

definition test_idle_connections_with_timeout :: "test_state \<Rightarrow> unit run" where
  "test_idle_connections_with_timeout t =
     (let second = Some (10 ^ 9) in
      run_bind (three_idle t) (\<lambda>s.
      run_bind (pops_to True 2 second s) (\<lambda>s.
      run_bind (pops_to True 1 second s) (\<lambda>s.
      run_bind (pops_to True 0 second s) (\<lambda>s.
      run_bind (pops_to False 0 second s) (\<lambda>_. Return ()))))))"

text \<open>Here the thread sleeps before it pops, which is a matter of the clock.\<close>

definition test_idle_connections_with_timeout_expired :: "test_state \<Rightarrow> unit run" where
  "test_idle_connections_with_timeout_expired t =
     run_bind (three_idle t) (\<lambda>s. run_bind (pops_to False 0 (Some (10 ^ 6)) s) (\<lambda>_. Return ()))"

section \<open>The tests of keys, references and checkouts\<close>

definition key_from_uri :: "(string \<Rightarrow> uri option) \<Rightarrow> unit run" where
  "key_from_uri parse =
     run_bind (unwrap (parse ''http://localhost:8080'')) (\<lambda>uri.
     run_bind (expect (key_try_from uri)) (\<lambda>key.
     run_bind (assert_that (key_scheme key = ''http'')) (\<lambda>_.
     assert_that (key_authority key = Some localhost))))"

definition test_key_display :: "unit run" where
  "test_key_display = assert_that (key_display (Key ''http'' (Some localhost)) = ''http://localhost:8080'')"

definition key_from_tuple :: "unit run" where
  "key_from_tuple =
     (let key = key_from_pair (''http'', localhost) in
      run_bind (assert_that (key_scheme key = ''http'')) (\<lambda>_. assert_that (key_authority key = Some localhost)))"

definition test_key_debug :: "(string \<Rightarrow> string) \<Rightarrow> (authority \<Rightarrow> string) \<Rightarrow> unit run" where
  "test_key_debug dbg_scheme dbg_authority =
     assert_that (key_debug dbg_scheme dbg_authority (Key ''http'' (Some localhost)) = ''Key(\"http\", Some(localhost:8080))'')"

definition test_weak_opt :: "unit run" where
  "test_weak_opt =
     (let arc = (0 :: nat); heap = [arc \<mapsto> ()]; weak = weak_downgrade arc in
      run_bind (assert_that (weak_upgrade heap weak \<noteq> None)) (\<lambda>_.
      let heap = heap(arc := None) in assert_that (weak_upgrade heap weak = None)))"

definition test_weak_opt_none :: "unit run" where
  "test_weak_opt_none = (let weak = (weak_none :: nat weak_opt) in assert_that (weak_upgrade Map.empty weak = (None :: unit option)))"

definition test_weak_opt_debug :: "unit run" where
  "test_weak_opt_debug =
     (let arc = (0 :: nat); weak = weak_downgrade arc in
      run_bind (assert_that (weak_opt_debug weak = ''WeakOpt(Some(...))'')) (\<lambda>_.
      let weak = (weak_none :: nat weak_opt) in assert_that (weak_opt_debug weak = ''WeakOpt(None)'')))"

definition verify_checkout_id :: "unit run" where
  "verify_checkout_id =
     (let i = CheckoutId 0 in
      run_bind (assert_that (checkout_id_display i = ''checkout-0'')) (\<lambda>_.
      run_bind (assert_that (i = CheckoutId 0)) (\<lambda>_.
      run_bind (assert_that (checkout_id_debug i = ''CheckoutId(0)'')) (\<lambda>_.
      assert_that (i = CheckoutId 0)))))"

text \<open>A checkout with no pool is polled over no heap; the stream it makes is a fresh one.\<close>

definition detatched_checkout ::
  "(string \<Rightarrow> uri option) \<Rightarrow> (string \<Rightarrow> string) \<Rightarrow> (authority \<Rightarrow> string) \<Rightarrow> test_state \<Rightarrow> unit run" where
  "detatched_checkout parse dbg_scheme dbg_authority t0 =
     run_bind (expect (key_from_str parse ''http://localhost:8080'')) (\<lambda>key.
     let checkout = (checkout_detached key single :: (key, mock_stream, test_connector, transport_mode) checkout);
         dbg = checkout_debug dbg_scheme dbg_authority checkout in
     run_bind (assert_that (dbg =
       ''Checkout { key: Key(\"http\", Some(localhost:8080)), pool: WeakOpt(None), waiter: NoPool, inner: Connecting }'')) (\<lambda>_.
     let (connection, t1) = test_poll 0 (t0\<lparr>ts_world := (ts_world t0)\<lparr>w_heap := Map.empty, w_checkouts := [checkout]\<rparr>\<rparr>) in
     run_bind (await_poll connection) (\<lambda>r.
     run_bind (expect r) (\<lambda>p.
     run_bind (unwrap (p_connection p)) (\<lambda>c.
     assert_that (test_open c t1))))))"

definition verify_stream :: "test_state \<Rightarrow> unit run" where
  "verify_stream t0 =
     (let (conn, t1) = test_stream False t0 in
      run_bind (assert_that (test_open conn t1)) (\<lambda>_.
      run_bind (assert_that (\<not> mock_can_share conn)) (\<lambda>_.
      run_bind (assert_that (mock_stream_reuse (ts_flags t1) conn = None)) (\<lambda>_.
      let (conn, t2) = test_stream False t1; t3 = test_close conn t2 in
      run_bind (assert_that (\<not> test_open conn t3)) (\<lambda>_.
      run_bind (assert_that (remote_addr (info_default ()) = ())) (\<lambda>_.
      let dbg = mock_stream_debug (ts_flags t3) conn in
      assert_that (starts_with dbg ''MockStream { '')))))))"

section \<open>They pass\<close>

text \<open>No two readings of the clock are further apart than the pool lets a connection be idle.\<close>

definition within_timeout :: "config \<Rightarrow> (nat \<Rightarrow> instant) \<Rightarrow> bool" where
  "within_timeout c clock \<longleftrightarrow> (\<forall>i j d. idle_timeout c = Some d \<longrightarrow> clock j - clock i \<le> int d)"

lemmas test_ops = test_start_def ts_now_def tick_def test_stream_def test_checkout_def source_poll_def test_poll_def
  test_await_def await_conn_def checkout_conn_def test_drop_def test_drop_checkout_def test_drop_pool_def test_close_def
  test_open_def test_push_def single_def reusable_def transport_error_def

lemmas pool_ops = world_init_def do_checkout_def do_poll_def do_release_def do_cancel_def do_drop_pool_def end_checkout_def
  drop_rx_def release_def rx_closed_def pool_checkout_def checkout_new_def checkout_poll_def poll_connect_def
  poll_handshaking_def connected_def checkout_drop_def drop_pooled_def push_def pop_def push_waiter_def store_idle_def
  idle_push_def idle_new_def idle_pop_def cancel_connection_def
  connected_in_handshake_def pool_new_def weak_downgrade_def weak_none_def remove_at_def

lemmas mock_defs = mock_transport_new_def mock_transport_can_share_def mock_transport_handshake_def mock_new_def
  stream_id_new_def mock_close_def mock_is_open_def mock_stream_reuse_def

lemmas run_tests = test_ops pool_ops mock_defs Let_def

lemma not_expired:
  assumes "within_timeout c clock"
  shows "\<not> expired_at (expiry (clock j) (idle_timeout c)) \<lparr>idle_at = clock i, idle_inner = x\<rparr>"
proof (cases "idle_timeout c")
  case (Some d)
  with assms have "clock j - clock i \<le> int d" unfolding within_timeout_def by blast
  with Some show ?thesis by (simp add: expired_at_def expiry_def checked_sub_def)
qed (simp add: expired_at_def expiry_def)

lemma drop_pool_passes: "checkout_drop_pool (test_start c ident clock) = Return ()"
  by (simp add: checkout_drop_pool_def run_tests)

lemma drop_pool_err_passes: "checkout_drop_pool_err (test_start c ident clock) = Return ()"
  by (simp add: checkout_drop_pool_err_def run_tests)

lemma connection_error_passes: "checkout_connection_error (test_start c ident clock) = Return ()"
  by (simp add: checkout_connection_error_def run_tests)

lemma idle_connected_passes: "checkout_idle_connected (test_start c ident clock) = Return ()"
  by (simp add: checkout_idle_connected_def run_tests)

lemma idle_returned_passes: "checkout_idle_returned (test_start c ident clock) = Return ()"
  by (simp add: checkout_idle_returned_def run_tests)

lemma contended_passes: "checkout_multiplex_contended (test_start c ident clock) = Return ()"
  by (simp add: checkout_multiplex_contended_def run_tests)

lemma simple_passes:
  assumes "within_timeout c clock"
  shows "reused_until_closed key multiplex single (test_start c ident clock) = Return ()"
  by (cases multiplex; simp add: reused_until_closed_def run_tests not_expired [OF assms])

lemma multiplex_passes:
  assumes "within_timeout c clock"
  shows "reused_until_closed key multiplex reusable (test_start c ident clock) = Return ()"
  by (cases multiplex; simp add: reused_until_closed_def run_tests not_expired [OF assms])

text \<open>Within a second, and after a sleep of ten milliseconds.\<close>

lemma idle_passes:
  "test_idle_connections (test_start c ident clock) = Return ()"
  "verify_idle_connections dbg_instant (test_start c ident clock) = Return ()"
  by (simp_all add: test_idle_connections_def verify_idle_connections_def three_idle_def pops_to_def test_pop_def
      debug_struct_def idle_connections_debug_def debug_list_def expiry_def expired_at_def run_tests)

lemma verify_idle_passes:
  assumes "\<forall>i. starts_with (dbg_instant i) ''Instant {''"
  shows "verify_idle dbg_instant (test_start c ident clock) = Return ()"
proof -
  obtain rest where "dbg_instant (clock 0) = ''Instant {'' @ rest"
    using assms unfolding starts_with_def by (metis append_take_drop_id)
  then show ?thesis
    by (simp add: verify_idle_def idle_debug_def debug_struct_def starts_with_def run_tests)
qed

lemma idle_timeout_passes:
  assumes "\<forall>i j. clock j - clock i \<le> 10 ^ 9"
  shows "test_idle_connections_with_timeout (test_start c ident clock) = Return ()"
proof -
  have "\<not> expired_at (expiry (clock j) (Some (10 ^ 9))) \<lparr>idle_at = clock i, idle_inner = x\<rparr>" for i j and x :: mock_stream
  proof -
    from assms have "clock j - clock i \<le> 10 ^ 9" by blast
    then show ?thesis by (simp add: expired_at_def expiry_def checked_sub_def)
  qed
  then show ?thesis
    by (simp add: test_idle_connections_with_timeout_def three_idle_def pops_to_def test_pop_def run_tests)
qed

lemma idle_expired_passes:
  assumes "clock 2 + 10 * 10 ^ 6 \<le> clock 3" and "instant_min + 10 ^ 6 \<le> clock 3"
  shows "test_idle_connections_with_timeout_expired (test_start c ident clock) = Return ()"
proof -
  have "expired_at (expiry (clock (Suc (Suc (Suc 0)))) (Some (10 ^ 6))) \<lparr>idle_at = clock (Suc (Suc 0)), idle_inner = x\<rparr>" for x :: mock_stream
    using assms by (simp add: expired_at_def expiry_def checked_sub_def numeral_2_eq_2 numeral_3_eq_3)
  then show ?thesis
    by (simp add: test_idle_connections_with_timeout_expired_def three_idle_def pops_to_def test_pop_def run_tests)
qed

lemma key_tests_pass:
  assumes "parse ''http://localhost:8080'' = Some \<lparr>u_scheme = Some ''http'', u_authority = Some localhost, u_path = Some ''/''\<rparr>"
  shows "key_from_uri parse = Return ()" "test_key_display = Return ()" "key_from_tuple = Return ()"
  by (simp_all add: key_from_uri_def assms key_try_from_def test_key_display_def key_display_def localhost_def key_from_tuple_def
      key_from_pair_def)

lemma debug_tests_pass:
  assumes "dbg_scheme ''http'' = ''\"http\"''" and "dbg_authority localhost = ''localhost:8080''"
  shows "test_key_debug dbg_scheme dbg_authority = Return ()"
    and "parse ''http://localhost:8080'' = Some \<lparr>u_scheme = Some ''http'', u_authority = Some localhost, u_path = Some ''/''\<rparr> \<Longrightarrow>
      detatched_checkout parse dbg_scheme dbg_authority (test_start c ident clock) = Return ()"
  using assms
  by (simp_all add: test_key_debug_def key_debug_def debug_tuple_def debug_option_def detatched_checkout_def key_from_str_def
      key_try_from_def checkout_debug_def debug_struct_def checkout_detached_def debug_literal_def run_tests)

lemma decimal_0: "decimal 0 = ''0''"
  by code_simp

lemma reference_tests_pass:
  "test_weak_opt = Return ()" "test_weak_opt_none = Return ()" "test_weak_opt_debug = Return ()" "verify_checkout_id = Return ()"
  by (simp_all add: test_weak_opt_def test_weak_opt_none_def test_weak_opt_debug_def verify_checkout_id_def weak_downgrade_def
      weak_none_def debug_tuple_def debug_literal_def decimal_0)

lemma stream_test_passes: "verify_stream (test_start c ident clock) = Return ()"
  by (simp add: verify_stream_def mock_can_share_def info_default_def mock_stream_debug_def debug_struct_def starts_with_def run_tests)

lemma config_test_passes: "sensible_config = Return ()"
  by (simp add: sensible_config_def pool_new_def config_default_def)

text \<open>C8: The pool's own tests, with its parts put together, pass for every configuration, every clock
  that stays within the idle timeout and every state of the counter of streams: a connection that
  is dropped is found again and one that is closed is not, whatever the key, and whether the
  connection can be shared or not; a checkout that waits for another's connection gets the
  same one; a returned connection reaches the checkout that waits, and one that comes too late does
  not disturb it; a waiting checkout fails when its pool is gone, one that connects does not; the
  error of a transport is the error of the checkout.\<close>

theorem pool_tests_pass:
  assumes "within_timeout c clock"
  shows "reused_until_closed key multiplex single (test_start c ident clock) = Return () \<and>
    reused_until_closed key multiplex reusable (test_start c ident clock) = Return () \<and>
    checkout_multiplex_contended (test_start c ident clock) = Return () \<and>
    checkout_idle_returned (test_start c ident clock) = Return () \<and>
    checkout_idle_connected (test_start c ident clock) = Return () \<and>
    checkout_drop_pool_err (test_start c ident clock) = Return () \<and>
    checkout_drop_pool (test_start c ident clock) = Return () \<and>
    checkout_connection_error (test_start c ident clock) = Return ()"
  by (intro conjI simple_passes [OF assms] multiplex_passes [OF assms] contended_passes idle_returned_passes
      idle_connected_passes drop_pool_err_passes drop_pool_passes connection_error_passes)

theorem pool_tests_pass_witness:
  "checkout_simple (test_start test_config 1 (\<lambda>n. int n mod 3)) = Return () \<and>
   checkout_multiplex (test_start test_config 1 (\<lambda>n. int n mod 3)) = Return ()"
proof -
  have "int j mod 3 - int i mod 3 \<le> int (10 * 10 ^ 9)" for i j :: nat
  proof -
    have "int j mod 3 < 3" and "0 \<le> int i mod 3" by simp_all
    then have "int j mod 3 - int i mod 3 \<le> 3" by linarith
    then show ?thesis by simp
  qed
  then have "within_timeout test_config (\<lambda>n. int n mod 3)"
    by (auto simp: within_timeout_def test_config_def)
  from pool_tests_pass [OF this] show ?thesis
    by (simp add: checkout_simple_def checkout_multiplex_def)
qed

end
