(* ===== verification/Client_Tests.thy ===== *)
theory Client_Tests
  imports Client_System Layers Tcp Formatting Test_Prelude
begin

text \<open>
  The unit tests of the client (client/service.rs, client/conn/transport/tcp.rs, happy_eyeballs.rs)
  over the model. The http crate's parser is a parameter; what it answers for the texts that the
  tests parse is the table \<open>test_uris\<close>.
\<close>

section \<open>The URIs of the tests\<close>

definition plain_authority :: "string \<Rightarrow> authority" where
  "plain_authority host = \<lparr>au_text = host, au_host = host, au_port = None\<rparr>"

definition port_authority :: "string \<Rightarrow> u16 \<Rightarrow> authority" where
  "port_authority host port = \<lparr>au_text = host @ '':'' @ decimal (unat port), au_host = host, au_port = Some port\<rparr>"

definition full_uri :: "string \<Rightarrow> authority \<Rightarrow> string \<Rightarrow> uri" where
  "full_uri scheme a path = \<lparr>u_scheme = Some scheme, u_authority = Some a, u_path = Some path\<rparr>"

definition test_uris :: "(string \<times> uri) list" where
  "test_uris =
     [(''http://example.com'', full_uri ''http'' (plain_authority ''example.com'') ''/''),
      (''http://example.com:8080'', full_uri ''http'' (port_authority ''example.com'' 8080) ''/''),
      (''https://example.com'', full_uri ''https'' (plain_authority ''example.com'') ''/''),
      (''https://example.com:8443'', full_uri ''https'' (port_authority ''example.com'' 8443) ''/''),
      (''ws://example.com'', full_uri ''ws'' (plain_authority ''example.com'') ''/''),
      (''wss://example.com'', full_uri ''wss'' (plain_authority ''example.com'') ''/''),
      (''/'', uri_of_path ''/''),
      (''/some/path/here'', uri_of_path ''/some/path/here''),
      (''/some/path?query'', uri_of_path ''/some/path?query''),
      (''http://example.com:8080/some/path?query#fragment'', full_uri ''http'' (port_authority ''example.com'' 8080) ''/some/path?query''),
      (''https://example.com/some/path?query'', full_uri ''https'' (plain_authority ''example.com'') ''/some/path?query''),
      (''http://example.com:443'', full_uri ''http'' (port_authority ''example.com'' 443) ''/''),
      (''https://example.com:80'', full_uri ''https'' (port_authority ''example.com'' 80) ''/''),
      (''mock://somewhere'', full_uri ''mock'' (plain_authority ''somewhere'') ''/''),
      (''grpc://example.com'', full_uri ''grpc'' (plain_authority ''example.com'') ''/''),
      (''grpc://[::1]'', full_uri ''grpc'' (plain_authority ''[::1]'') ''/''),
      (''/path/'', uri_of_path ''/path/'')]"

type_synonym parser = "string \<Rightarrow> uri option"

text \<open>\<open>s.parse().unwrap()\<close>, and the comparison of a URI with a text.\<close>

definition parsed :: "parser \<Rightarrow> string \<Rightarrow> (uri \<Rightarrow> 'a run) \<Rightarrow> 'a run" where
  "parsed parse s f = run_bind (unwrap (parse s)) f"

definition uri_is :: "parser \<Rightarrow> uri \<Rightarrow> string \<Rightarrow> bool" where
  "uri_is parse u s = (parse s = Some u)"

definition http_request_new :: "'b \<Rightarrow> 'b request" where
  "http_request_new body =
     \<lparr>rq_method = ''GET'', rq_uri = uri_of_path ''/'', rq_version = HTTP_11, rq_headers = [], rq_extensions = [], rq_body = body\<rparr>"

section \<open>The tests of the client's service (client/service.rs)\<close>

definition host_header_is :: "parser \<Rightarrow> string \<Rightarrow> string \<Rightarrow> unit run" where
  "host_header_is parse s host =
     (let request = http_request_new () in
      parsed parse s (\<lambda>u.
      run_bind (set_host_header (request\<lparr>rq_uri := u\<rparr>)) (\<lambda>request.
      run_bind (unwrap (map_of (rq_headers request) ''host'')) (\<lambda>value. assert_that (value = host)))))"

definition test_set_host_header :: "parser \<Rightarrow> unit run" where
  "test_set_host_header parse =
     run_bind (host_header_is parse ''http://example.com'' ''example.com'') (\<lambda>_.
     run_bind (host_header_is parse ''http://example.com:8080'' ''example.com:8080'') (\<lambda>_.
     run_bind (host_header_is parse ''https://example.com'' ''example.com'') (\<lambda>_.
     host_header_is parse ''https://example.com:8443'' ''example.com:8443'')))"

definition test_is_schema_secure :: "parser \<Rightarrow> unit run" where
  "test_is_schema_secure parse =
     parsed parse ''http://example.com'' (\<lambda>u. run_bind (assert_that (\<not> is_schema_secure u)) (\<lambda>_.
     parsed parse ''https://example.com'' (\<lambda>u. run_bind (assert_that (is_schema_secure u)) (\<lambda>_.
     parsed parse ''ws://example.com'' (\<lambda>u. run_bind (assert_that (\<not> is_schema_secure u)) (\<lambda>_.
     parsed parse ''wss://example.com'' (\<lambda>u. assert_that (is_schema_secure u))))))))"

definition test_get_non_default_port :: "parser \<Rightarrow> unit run" where
  "test_get_non_default_port parse =
     parsed parse ''http://example.com'' (\<lambda>u. run_bind (assert_that (get_non_default_port u = None)) (\<lambda>_.
     parsed parse ''http://example.com:8080'' (\<lambda>u. run_bind (assert_that (get_non_default_port u = Some 8080)) (\<lambda>_.
     parsed parse ''https://example.com'' (\<lambda>u. run_bind (assert_that (get_non_default_port u = None)) (\<lambda>_.
     parsed parse ''https://example.com:8443'' (\<lambda>u. assert_that (get_non_default_port u = Some 8443))))))))"

definition test_origin_form :: "parser \<Rightarrow> unit run" where
  "test_origin_form parse =
     parsed parse ''http://example.com'' (\<lambda>u. run_bind (assert_that (uri_is parse (origin_form u) ''/'')) (\<lambda>_.
     parsed parse ''/some/path/here'' (\<lambda>u. run_bind (assert_that (uri_is parse (origin_form u) ''/some/path/here'')) (\<lambda>_.
     parsed parse ''http://example.com:8080/some/path?query#fragment'' (\<lambda>u.
       run_bind (assert_that (uri_is parse (origin_form u) ''/some/path?query'')) (\<lambda>_.
     parsed parse ''/'' (\<lambda>u. assert_that (uri_is parse (origin_form u) ''/''))))))))"

text \<open>Tests are built with debug assertions.\<close>

fun all_absolute :: "parser \<Rightarrow> string list \<Rightarrow> unit run" where
  "all_absolute parse [] = Return ()"
| "all_absolute parse (s # ss) =
     parsed parse s (\<lambda>u.
     run_bind (absolute_form True u) (\<lambda>u'.
     run_bind (assert_that (uri_is parse u' s)) (\<lambda>_. all_absolute parse ss)))"

definition test_absolute_form :: "parser \<Rightarrow> unit run" where
  "test_absolute_form parse =
     all_absolute parse
       [''http://example.com'', ''http://example.com:8080'', ''https://example.com/some/path?query'',
        ''https://example.com:8443'', ''http://example.com:443'', ''https://example.com:80'']"

text \<open>
  The two tests that send a request over mocks. What the code boxes is an error of the mock
  transport or of the mock protocol; the fresh stream has the address 0.
\<close>

datatype mock_boxed = Box_Mock_Connection_Error | Box_Protocol_Error "unit conn_error"

definition mock_transport_ops ::
  "u16 \<Rightarrow> (transport_mode, (mock_boxed + (mock_stream, unit) transport_stream) option, mock_stream, unit, mock_boxed) transport_ops" where
  "mock_transport_ops ident =
     \<lparr>t_poll_ready = \<lambda>t. (Ready (Inr ()), t),
      t_connect = \<lambda>mode u. (Some (map_err (\<lambda>_. Box_Mock_Connection_Error) (fst (mock_transport_call mode 0 ident (\<lambda>_. False)))), mode),
      t_fpoll = ready_poll\<rparr>"

definition mock_protocol_boxed ::
  "(unit, (mock_stream, unit) protocol_request, (unit conn_error + unit) option, unit, mock_boxed) service" where
  "mock_protocol_boxed =
     \<lparr>s_ready = (\<lambda>p. (Ready (Inr ()), p)), s_call = s_call mock_protocol_service,
      s_fpoll = (\<lambda>f. let (r, f') = ready_poll f in (map_ready (map_err Box_Protocol_Error) r, f'))\<rparr>"

definition mock_request :: "parser \<Rightarrow> u16 \<Rightarrow> instant \<Rightarrow> transport_mode
    \<Rightarrow> (((mock_boxed, unit) client_error + unit body response)) run" where
  "mock_request parse ident now transport =
     (let (client, heap) = client_service_new transport () config_default 0 Map.empty;
          net = \<lparr>nt_heap = heap, nt_cells = [], nt_tasks = []\<rparr> in
      parsed parse ''mock://somewhere'' (\<lambda>u.
      run_bind (client_call sender_ops now id client ((http_request_new Empty_Body)\<lparr>rq_uri := u\<rparr>) net) (\<lambda>(f, net).
      case f of
        RF_Checkout checkout request \<Rightarrow>
          (let tr = (case ck_inner checkout of
                       Inner_Connecting cn \<Rightarrow> fst (transport_future_poll (mock_transport_ops ident) (cn_transport cn)) | _ \<Rightarrow> Pending);
               hs = (\<lambda>st. fst (protocol_future_poll mock_protocol_boxed (Prot_Ready () st http_proto.Http1)))
           in await_poll (fst (response_poll True sender_ops mock_sender_connection id transport_can_share now tr hs f net)))
      | _ \<Rightarrow> Panic)))"

definition test_client_mock_transport :: "parser \<Rightarrow> u16 \<Rightarrow> instant \<Rightarrow> unit run" where
  "test_client_mock_transport parse ident now =
     run_bind (mock_request parse ident now (mock_transport_new False)) (\<lambda>r. run_bind (expect r) (\<lambda>_. Return ()))"

definition test_client_mock_connection_error :: "parser \<Rightarrow> u16 \<Rightarrow> instant \<Rightarrow> unit run" where
  "test_client_mock_connection_error parse ident now =
     run_bind (mock_request parse ident now ConnectionError) (\<lambda>r.
     case r of
       Inl (Error_Connection (Box_Connection (Connect_Failed Box_Mock_Connection_Error))) \<Rightarrow> Return ()
     | _ \<Rightarrow> Panic)"

section \<open>The tests of the TCP transport (client/conn/transport/tcp.rs)\<close>

definition host_and_port_is :: "parser \<Rightarrow> string \<Rightarrow> string \<times> u16 \<Rightarrow> unit run" where
  "host_and_port_is parse s hp =
     parsed parse s (\<lambda>u. run_bind (expect (get_host_and_port u)) (\<lambda>r. assert_that (r = hp)))"

definition test_get_host_and_port :: "parser \<Rightarrow> unit run" where
  "test_get_host_and_port parse =
     run_bind (host_and_port_is parse ''http://example.com'' (''example.com'', 80)) (\<lambda>_.
     run_bind (host_and_port_is parse ''http://example.com:8080'' (''example.com'', 8080)) (\<lambda>_.
     run_bind (host_and_port_is parse ''https://example.com'' (''example.com'', 443)) (\<lambda>_.
     run_bind (host_and_port_is parse ''https://example.com:8443'' (''example.com'', 8443)) (\<lambda>_.
     parsed parse ''grpc://example.com'' (\<lambda>u. run_bind (assert_panics (expect (get_host_and_port u))) (\<lambda>_.
     parsed parse ''grpc://[::1]'' (\<lambda>u. assert_panics (expect (get_host_and_port u)))))))))"

text \<open>The resolvers of the tests: one address, none, an error.\<close>

datatype test_resolver = Resolver u16 | EmptyResolver | ErrorResolver

definition ipv4_localhost :: "32 word" where
  "ipv4_localhost = 0x7F000001"

fun test_resolve :: "test_resolver \<Rightarrow> string \<Rightarrow> io_kind + socket_addrs" where
  "test_resolve (Resolver port) host = Inr [SocketV4 ipv4_localhost port]"
| "test_resolve EmptyResolver host = Inr []"
| "test_resolve ErrorResolver host = Inl OtherKind"

definition test_tcp :: "test_resolver \<Rightarrow> test_resolver tcp_transport" where
  "test_tcp resolver = tcp_build (with_resolver resolver (with_config tcp_config_default tcp_builder))"

text \<open>
  \<open>transport.oneshot(uri)\<close>: the readiness of the resolver, then the call. The stream an attempt
  answers is the address it reached; the events are the runtime's.
\<close>

definition tcp_oneshot :: "test_resolver \<Rightarrow> uri \<Rightarrow> instant \<Rightarrow> (socket_addr, tcp_error) event list
    \<Rightarrow> (tcp_error + (socket_addr, socket_addr) transport_stream) run option" where
  "tcp_oneshot resolver u now evs =
     (case tcp_poll_ready (\<lambda>r. (Ready (Inr ()), r)) (test_tcp resolver) of
        (Ready (Inr _), t) \<Rightarrow>
          tcp_call test_resolve id (\<lambda>peer. \<lparr>local_addr = SocketV4 ipv4_localhost 0, remote_addr = peer, buffer_size = None\<rparr>) t u now evs
      | _ \<Rightarrow> None)"

definition tcp_await :: "(tcp_error + 'a) run option \<Rightarrow> (tcp_error + 'a) run" where
  "tcp_await r = (case r of None \<Rightarrow> Panic | Some v \<Rightarrow> v)"

definition is_err :: "'e + 'a \<Rightarrow> bool" where
  "is_err r = (case r of Inl _ \<Rightarrow> True | Inr _ \<Rightarrow> False)"

fun contains :: "string \<Rightarrow> string \<Rightarrow> bool" where
  "contains [] sub = (sub = [])"
| "contains (c # cs) sub = (take (length sub) (c # cs) = sub \<or> contains cs sub)"

definition test_tcp_invalid_uri :: "parser \<Rightarrow> instant \<Rightarrow> unit run" where
  "test_tcp_invalid_uri parse now =
     parsed parse ''/path/'' (\<lambda>u.
     run_bind (tcp_await (tcp_oneshot (Resolver 0) u now [])) (\<lambda>result. assert_that (is_err result)))"

text \<open>The listener on \<open>port\<close> accepts, so that the attempt completes with its address.\<close>

definition test_transport :: "parser \<Rightarrow> u16 \<Rightarrow> instant \<Rightarrow> unit run" where
  "test_transport parse port now =
     parsed parse (''http://example.com:'' @ decimal (unat port)) (\<lambda>u.
     run_bind (tcp_await (tcp_oneshot (Resolver port) u now [Completes 0 (Inr (SocketV4 ipv4_localhost port))])) (\<lambda>r.
     run_bind (expect r) (\<lambda>stream.
     let info = ts_info stream in assert_that (remote_addr info = SocketV4 ipv4_localhost port))))"

definition test_transport_no_candidates :: "parser \<Rightarrow> (tcp_source \<Rightarrow> string) \<Rightarrow> instant \<Rightarrow> unit run" where
  "test_transport_no_candidates parse show_source now =
     parsed parse ''http://example.com'' (\<lambda>u.
     run_bind (tcp_await (tcp_oneshot EmptyResolver u now [])) (\<lambda>result.
     run_bind (assert_that (is_err result)) (\<lambda>_.
     case result of Inr _ \<Rightarrow> Panic | Inl err \<Rightarrow> assert_that (\<not> contains (tcp_error_display show_source err) ''timed out''))))"

definition test_transport_error :: "parser \<Rightarrow> (tcp_source \<Rightarrow> string) \<Rightarrow> instant \<Rightarrow> unit run" where
  "test_transport_error parse show_source now =
     parsed parse ''http://example.com'' (\<lambda>u.
     run_bind (tcp_await (tcp_oneshot ErrorResolver u now [])) (\<lambda>result.
     run_bind (assert_that (is_err result)) (\<lambda>_.
     case result of Inr _ \<Rightarrow> Panic | Inl err \<Rightarrow> assert_that (contains (tcp_error_display show_source err) ''no address found''))))"

section \<open>The tests of the race (happy_eyeballs.rs)\<close>

text \<open>
  The timeouts are zero or absent; the schedule says in which order the runtime sees the attempts
  complete. \<open>eyeballs.await\<close> is \<open>finish\<close>.
\<close>

definition eyeballs_await :: "instant \<Rightarrow> ('t, 'e) event list \<Rightarrow> ('f, 'e) eyeball_set \<Rightarrow> ('e happy_error + 't) run" where
  "eyeballs_await now evs s = (case eyeball_finish now evs s of None \<Rightarrow> Panic | Some r \<Rightarrow> r)"

definition one_future_success :: "instant \<Rightarrow> unit run" where
  "one_future_success now =
     (let eyeballs = eyeball_push () (eyeball_new (Some 0) (Some 0) :: (unit, string) eyeball_set) in
      run_bind (assert_that (\<not> eyeball_is_empty eyeballs)) (\<lambda>_.
      run_bind (eyeballs_await now [Completes 0 (Inr (5 :: int))] eyeballs) (\<lambda>result.
      run_bind (expect result) (\<lambda>v. assert_that (v = 5)))))"

definition one_future_error :: "instant \<Rightarrow> unit run" where
  "one_future_error now =
     (let eyeballs = eyeball_push () (eyeball_new (Some 0) (Some 0)) in
      run_bind (eyeballs_await now [Completes 0 (Inl ''error'' :: string + unit)] eyeballs) (\<lambda>result.
      assert_that (result = Inl (Attempt_Error ''error''))))"

definition one_future_timeout :: "instant \<Rightarrow> instant \<Rightarrow> unit run" where
  "one_future_timeout now later =
     (let eyeballs = eyeball_push () (eyeball_new (Some 0) (Some 0)) in
      run_bind (eyeballs_await now [Deadline later :: (unit, string) event] eyeballs) (\<lambda>result.
      assert_that (case result of Inl (Timeout _) \<Rightarrow> True | _ \<Rightarrow> False)))"

definition empty_set :: "instant \<Rightarrow> unit run" where
  "empty_set now =
     (let eyeballs = (eyeball_new (Some 0) (Some 0) :: (unit, string) eyeball_set) in
      run_bind (assert_that (eyeball_is_empty eyeballs)) (\<lambda>_.
      run_bind (eyeballs_await now ([] :: (unit, string) event list) eyeballs) (\<lambda>result.
      assert_that (result = Inl NoProgress))))"

text \<open>Three attempts that are ready at once: they complete in the order they were started.\<close>

definition in_order :: "('e + 't) list \<Rightarrow> ('t, 'e) event list" where
  "in_order rs = map (Completes 0) rs"

definition multiple_futures_success :: "instant \<Rightarrow> unit run" where
  "multiple_futures_success now =
     (let eyeballs = eyeball_extend [(), (), ()] (eyeball_new (Some 0) (Some 0)) in
      run_bind (eyeballs_await now (in_order [Inl ''error'', Inr (5 :: u32), Inr 10]) eyeballs) (\<lambda>result.
      run_bind (expect result) (\<lambda>v. assert_that (v = 5))))"

definition multiple_futures_until_finished :: "instant \<Rightarrow> unit run" where
  "multiple_futures_until_finished now =
     (let eyeballs = eyeball_push () (eyeball_push () (eyeball_push () (eyeball_new (Some 0) (Some 0)))) in
      run_bind (assert_that (eyeball_len eyeballs = 3)) (\<lambda>_.
      run_bind (eyeballs_await now (in_order [Inl ''error'', Inr (5 :: u32), Inr 10]) eyeballs) (\<lambda>result.
      run_bind (expect result) (\<lambda>v. assert_that (v = 5)))))"

definition three_errors :: "duration option \<Rightarrow> instant \<Rightarrow> unit run" where
  "three_errors timeout now =
     (let eyeballs = eyeball_extend [(), (), ()] (eyeball_new timeout timeout) in
      run_bind (eyeballs_await now (in_order [Inl ''error 1'' :: string + u32, Inl ''error 2'', Inl ''error 3'']) eyeballs) (\<lambda>result.
      assert_that (result = Inl (Attempt_Error ''error 1''))))"

definition multiple_futures_error :: "instant \<Rightarrow> unit run" where
  "multiple_futures_error now = three_errors (Some 0) now"

definition no_timeout :: "instant \<Rightarrow> unit run" where
  "no_timeout now = three_errors None now"

section \<open>They pass\<close>

lemma sender_fields: "is_open sender_ops c" "can_share sender_ops c" "reuse sender_ops c = Some c"
  by (simp_all add: sender_ops_def)

definition test_parser :: "parser \<Rightarrow> bool" where
  "test_parser parse \<longleftrightarrow> (\<forall>(s, u) \<in> set test_uris. parse s = Some u)"

lemma parses:
  assumes "test_parser parse"
  shows "parse ''http://example.com'' = Some (full_uri ''http'' (plain_authority ''example.com'') ''/'')"
    "parse ''http://example.com:8080'' = Some (full_uri ''http'' (port_authority ''example.com'' 8080) ''/'')"
    "parse ''https://example.com'' = Some (full_uri ''https'' (plain_authority ''example.com'') ''/'')"
    "parse ''https://example.com:8443'' = Some (full_uri ''https'' (port_authority ''example.com'' 8443) ''/'')"
    "parse ''ws://example.com'' = Some (full_uri ''ws'' (plain_authority ''example.com'') ''/'')"
    "parse ''wss://example.com'' = Some (full_uri ''wss'' (plain_authority ''example.com'') ''/'')"
    "parse ''/'' = Some (uri_of_path ''/'')"
    "parse ''/some/path/here'' = Some (uri_of_path ''/some/path/here'')"
    "parse ''/some/path?query'' = Some (uri_of_path ''/some/path?query'')"
    "parse ''http://example.com:8080/some/path?query#fragment'' = Some (full_uri ''http'' (port_authority ''example.com'' 8080) ''/some/path?query'')"
    "parse ''https://example.com/some/path?query'' = Some (full_uri ''https'' (plain_authority ''example.com'') ''/some/path?query'')"
    "parse ''http://example.com:443'' = Some (full_uri ''http'' (port_authority ''example.com'' 443) ''/'')"
    "parse ''https://example.com:80'' = Some (full_uri ''https'' (port_authority ''example.com'' 80) ''/'')"
    "parse ''mock://somewhere'' = Some (full_uri ''mock'' (plain_authority ''somewhere'') ''/'')"
    "parse ''grpc://example.com'' = Some (full_uri ''grpc'' (plain_authority ''example.com'') ''/'')"
    "parse ''grpc://[::1]'' = Some (full_uri ''grpc'' (plain_authority ''[::1]'') ''/'')"
    "parse ''/path/'' = Some (uri_of_path ''/path/'')"
  using assms by (simp_all add: test_parser_def test_uris_def)

lemma service_tests_pass:
  assumes "test_parser parse"
  shows "test_is_schema_secure parse = Return ()" "test_get_non_default_port parse = Return ()"
    "test_origin_form parse = Return ()" "test_absolute_form parse = Return ()"
  by (simp_all add: test_is_schema_secure_def test_get_non_default_port_def test_origin_form_def test_absolute_form_def
      parsed_def parses [OF assms] full_uri_def plain_authority_def port_authority_def uri_of_path_def is_schema_secure_def
      get_non_default_port_def uri_port_def origin_form_def absolute_form_def uri_is_def)

lemma decimals: "decimal 8080 = ''8080''" "decimal 8443 = ''8443''"
  by (simp_all add: decimal.simps digit_chars)

lemma host_values:
  "header_value_from_str ''example.com'' = Some ''example.com''"
  "header_value_from_str ''example.com:8080'' = Some ''example.com:8080''"
  "header_value_from_str ''example.com:8443'' = Some ''example.com:8443''"
  "header_value_from_str ''somewhere'' = Some ''somewhere''"
  by (simp_all add: header_value_from_str_def header_byte_def)

lemma host_test_passes:
  assumes "test_parser parse"
  shows "test_set_host_header parse = Return ()"
  by (simp add: test_set_host_header_def host_header_is_def parsed_def parses [OF assms] http_request_new_def set_host_header_def
      or_insert_with_def host_value_def uri_host_def full_uri_def plain_authority_def port_authority_def get_non_default_port_def
      uri_port_def is_schema_secure_def decimals host_values)

lemmas request_ops = client_service_new_def client_call_def client_connect_to_def key_try_from_def client_connector_def
  pool_checkout_def pop_def push_waiter_def checkout_new_def pool_new_def do_poll_def checkout_poll_def poll_connect_def
  poll_handshaking_def connected_def push_def store_idle_def end_checkout_def drop_rx_def checkout_drop_def
  cancel_connection_def connected_in_handshake_def weak_downgrade_def weak_none_def rx_closed_def release_def drop_pooled_def
  transport_connecting_poll_def protocol_handshaking_poll_def protocol_connect_def mock_transport_ops_def mock_protocol_boxed_def
  mock_protocol_service_def mock_sender_connection_def mock_sender_send_def sender_ops_def response_request_poll_def
  exec_sending_poll_def net_release_def remove_at_def idle_push_def idle_new_def

lemma client_tests_pass:
  assumes "test_parser parse"
  shows "test_client_mock_transport parse ident now = Return ()"
    and "test_client_mock_connection_error parse ident now = Return ()"
  by (simp_all add: test_client_mock_transport_def test_client_mock_connection_error_def mock_request_def parsed_def
      parses [OF assms] http_request_new_def full_uri_def plain_authority_def mock_transport_new_def mock_transport_call_def
      mock_new_def stream_id_new_def transport_stream_new_def request_ops prepare_request_def or_insert_with_def request_map_def
      set_host_header_def host_value_def uri_host_def get_non_default_port_def uri_port_def is_schema_secure_def host_values
      origin_form_def uri_of_path_def Let_def)

lemma host_and_port_passes:
  assumes "test_parser parse"
  shows "test_get_host_and_port parse = Return ()"
  by (simp add: test_get_host_and_port_def host_and_port_is_def parsed_def parses [OF assms] get_host_and_port_def uri_host_def
      uri_port_def full_uri_def plain_authority_def port_authority_def trim_end_matches_def trim_start_matches_def Let_def)

lemma no_candidates:
  "tcp_race tcp_config_default (tcp_connecting t (addrs_set_port port [])) now [] =
     Some (Return (Inl (tcp_error_new ''Exhausted connection candidates'')))"
proof -
  have "sort_preferred v [] = []" for v
    by (cases v) (simp_all add: sort_preferred_def addrs_remove_def split: ip_version.splits)
  then have "tcp_connecting t (addrs_set_port port []) = []"
    by (simp add: tcp_connecting_def addrs_set_port_def)
  then show ?thesis
    by (simp add: tcp_race_def tcp_attempts_def tcp_delay_def eyeball_finish_def eb_start_def eyeball_new_def
        process_all.simps join_next_def eb_begin_def)
qed

lemma tcp_tests_pass:
  assumes "test_parser parse"
  shows "test_tcp_invalid_uri parse now = Return ()"
    and "test_transport_no_candidates parse show_source now = Return ()"
    and "show_source (Source_Io OtherKind) = ''no address found'' \<Longrightarrow> test_transport_error parse show_source now = Return ()"
  by (simp_all add: test_tcp_invalid_uri_def test_transport_no_candidates_def test_transport_error_def parsed_def parses [OF assms]
      tcp_oneshot_def tcp_poll_ready_def test_tcp_def tcp_build_def with_resolver_def with_config_def tcp_builder_def tcp_call_def
      get_host_and_port_def uri_host_def uri_port_def full_uri_def plain_authority_def uri_of_path_def trim_end_matches_def
      trim_start_matches_def tcp_connect_def tcp_await_def is_err_def tcp_error_msg_def tcp_error_new_def tcp_error_display_def Let_def
      no_candidates)

lemma test_transport_passes:
  assumes "parse (''http://example.com:'' @ decimal (unat port)) = Some (full_uri ''http'' (port_authority ''example.com'' port) ''/'')"
  shows "test_transport parse port now = Return ()"
proof -
  have "sort_preferred v [SocketV4 a p] = [SocketV4 a p]" for v a p
    by (cases v) (simp_all add: sort_preferred_def addrs_remove_def remove_at_def split: ip_version.splits)
  then have "tcp_connecting t (addrs_set_port port [SocketV4 ipv4_localhost port]) = [SocketV4 ipv4_localhost port]" for t :: "test_resolver tcp_transport"
    by (simp add: tcp_connecting_def addrs_set_port_def)
  then show ?thesis
    using assms
    by (simp add: test_transport_def parsed_def tcp_oneshot_def tcp_poll_ready_def test_tcp_def tcp_build_def with_resolver_def
        with_config_def tcp_builder_def tcp_call_def get_host_and_port_def uri_host_def uri_port_def full_uri_def port_authority_def
        trim_end_matches_def trim_start_matches_def tcp_connect_def tcp_race_def tcp_attempts_def tcp_delay_def tcp_config_default_def
        duration_div_def eyeball_finish_def eb_start_def eyeball_new_def eyeball_push_def process_success tcp_await_def
        transport_stream_new_def Let_def)
qed

lemmas race_ops = eyeballs_await_def eyeball_push_def eyeball_extend_def eyeball_new_def eyeball_is_empty_def eyeball_len_def
  eyeball_finish_def eb_start_def in_order_def process_success process_failure eb_begin_def remove_at_def

lemma race_tests_pass:
  "one_future_success now = Return ()" "one_future_error now = Return ()" "one_future_timeout now later = Return ()"
  "empty_set now = Return ()"
  by (simp_all add: one_future_success_def one_future_error_def one_future_timeout_def empty_set_def race_ops process_all.simps
      join_next_def joined_def eb_timed_out_def Let_def)

lemma races_pass:
  "multiple_futures_success now = Return ()" "multiple_futures_until_finished now = Return ()"
  "multiple_futures_error now = Return ()" "no_timeout now = Return ()"
  by (simp_all add: multiple_futures_success_def multiple_futures_until_finished_def multiple_futures_error_def no_timeout_def
      three_errors_def race_ops process_all.simps [of now "[]"] join_next_def Let_def)

end
