(* ===== verification/Value_Tests.thy ===== *)
theory Value_Tests
  imports Duplex Body Lazy Pidfile Test_Prelude
begin

text \<open>
  The unit tests of connection information (info/mod.rs, info/tls.rs), bodies (body/mod.rs), lazy
  futures (lazy.rs) and PID files (pidfile.rs) over the model. What the operating system and
  rustls answer in them is a parameter.
\<close>

section \<open>Connection information (info/mod.rs)\<close>

definition test_protocol_display :: "unit run" where
  "test_protocol_display =
     run_bind (assert_that (protocol_display (Http HTTP_11) = ''HTTP/1.1'')) (\<lambda>_.
     run_bind (assert_that (protocol_display (Http HTTP_2) = ''HTTP/2.0'')) (\<lambda>_.
     run_bind (assert_that (protocol_display (Http HTTP_3) = ''HTTP/3.0'')) (\<lambda>_.
     run_bind (assert_that (protocol_display (Http HTTP_10) = ''HTTP/1.0'')) (\<lambda>_.
     run_bind (assert_that (protocol_display Grpc = ''gRPC'')) (\<lambda>_.
     assert_that (protocol_display WebSocket = ''WebSocket''))))))"

text \<open>\<open>FromStr for Protocol\<close> cannot fail.\<close>

definition parse_protocol :: "unit run" where
  "parse_protocol =
     run_bind (assert_that (protocol_from_str ''http/1.1'' = Http HTTP_11)) (\<lambda>_.
     run_bind (assert_that (protocol_from_str ''h2'' = Http HTTP_2)) (\<lambda>_.
     run_bind (assert_that (protocol_from_str ''h3'' = Http HTTP_3)) (\<lambda>_.
     run_bind (assert_that (protocol_from_str ''http/1.0'' = Http HTTP_10)) (\<lambda>_.
     run_bind (assert_that (protocol_from_str ''gRPC'' = Grpc)) (\<lambda>_.
     run_bind (assert_that (protocol_from_str ''WebSocket'' = WebSocket)) (\<lambda>_.
     assert_that (protocol_from_str ''foo'' = Other ''foo'')))))))"

definition test_make_canonical :: "(string \<Rightarrow> socket_addr option) \<Rightarrow> unit run" where
  "test_make_canonical parse =
     run_bind (unwrap (parse ''[::1]:8080'')) (\<lambda>a.
     run_bind (assert_that (make_canonical a = a)) (\<lambda>_.
     run_bind (unwrap (parse ''[::ffff:192.0.2.128]:8080'')) (\<lambda>a.
     run_bind (unwrap (parse ''192.0.2.128:8080'')) (\<lambda>b. assert_that (make_canonical a = b)))))"

definition connection_info_default :: "unit run" where
  "connection_info_default =
     (let info = info_default duplex_addr_new in
      run_bind (assert_that (local_addr info = duplex_addr_new)) (\<lambda>_.
      run_bind (assert_that (remote_addr info = duplex_addr_new)) (\<lambda>_.
      assert_that (buffer_size info = None))))"

definition test_unix_addr :: "unit run" where
  "test_unix_addr =
     (let addr = unix_from_pathbuf ''/tmp/foo.sock'' in
      run_bind (assert_that (unix_path addr = Some ''/tmp/foo.sock'')) (\<lambda>_.
      let addr = unix_unnamed in assert_that (unix_path addr = None)))"

definition connection_info_map :: "(string \<Rightarrow> string) \<Rightarrow> unit run" where
  "connection_info_map to_string =
     (let info = \<lparr>local_addr = ''local'', remote_addr = ''remote'', buffer_size = Some 1024\<rparr>;
          mapped = info_map to_string info
      in assert_that (local_addr mapped = to_string ''local''))"

text \<open>The two ends of a socket pair have no names, a connected socket has none of its own.\<close>

definition unix_connection_info_unnamed :: "(byte list \<Rightarrow> string option) \<Rightarrow> unit run" where
  "unix_connection_info_unnamed utf8 =
     run_bind (unix_info_try utf8 id (Inr None) (Inr None)) (\<lambda>r.
     run_bind (expect r) (\<lambda>info. assert_that (local_addr info = unix_unnamed)))"

definition unix_connection_info_named :: "(byte list \<Rightarrow> string option) \<Rightarrow> byte list \<Rightarrow> unit run" where
  "unix_connection_info_named utf8 path =
     run_bind (unix_info_try utf8 id (Inr None) (Inr (Some path))) (\<lambda>r.
     run_bind (expect r) (\<lambda>info.
     run_bind (unwrap (utf8 path)) (\<lambda>p. assert_that (remote_addr info = unix_from_pathbuf p))))"

text \<open>\<open>peer\<close> is the peer of a socket connected to an address; \<open>0.0.0.0\<close> is this host.\<close>

definition tcp_connection_info :: "(socket_addr \<Rightarrow> socket_addr) \<Rightarrow> socket_addr \<Rightarrow> u16 \<Rightarrow> unit run" where
  "tcp_connection_info peer local port =
     (let addr = SocketV4 0 port in
      run_bind (expect (tcp_info_try id (Inr local) (Inr (peer addr)))) (\<lambda>info.
      run_bind (assert_that (addr_ip (remote_addr info) = V4 0x7F000001)) (\<lambda>_.
      assert_that (addr_port (remote_addr info) = addr_port addr))))"

section \<open>TLS information (info/tls.rs)\<close>

text \<open>Both sides of rustls before their handshake: no server name, no protocol.\<close>

definition no_tls_facts :: "tls_info \<Rightarrow> unit run" where
  "no_tls_facts info =
     run_bind (assert_that (server_name info = None)) (\<lambda>_.
     run_bind (assert_that (\<not> validated_server_name info)) (\<lambda>_. assert_that (alpn info = None)))"

definition tls_server_info :: "(byte list \<Rightarrow> string option) \<Rightarrow> unit run" where
  "tls_server_info utf8 = no_tls_facts (tls_info_server utf8 None None)"

definition tls_client_info :: "(byte list \<Rightarrow> string option) \<Rightarrow> unit run" where
  "tls_client_info utf8 = no_tls_facts (tls_info_client utf8 None)"

section \<open>Bodies (body/mod.rs)\<close>

definition ascii_bytes :: "string \<Rightarrow> byte list" where
  "ascii_bytes s = map of_char s"

definition body_is :: "('b, 't, 'e) body_ops \<Rightarrow> nat \<Rightarrow> bool \<Rightarrow> 'b body \<Rightarrow> unit run" where
  "body_is x n over body =
     run_bind (assert_that (hint_lower (body_size_hint x body) = n)) (\<lambda>_.
     run_bind (assert_that (hint_upper (body_size_hint x body) = Some n)) (\<lambda>_.
     assert_that (body_is_end_stream x body = over)))"

text \<open>The second half of the test: the box of an empty body.\<close>

definition check_try_downcast :: "('b, 't, 'e) body_ops \<Rightarrow> unit run" where
  "check_try_downcast x =
     run_bind (expect_err (try_downcast (Is_Other (body_as_boxed body_empty)))) (\<lambda>original.
     assert_that (dyn_end x original))"

definition check_body_from_string :: "('b, 't, 'e) body_ops \<Rightarrow> unit run" where
  "check_body_from_string x = body_is x 13 False (body_from_string (ascii_bytes ''Hello, World!''))"

definition check_body_from_empty_string :: "('b, 't, 'e) body_ops \<Rightarrow> unit run" where
  "check_body_from_empty_string x = body_is x 0 True (body_from_string (ascii_bytes []))"

definition check_body_empty :: "('b, 't, 'e) body_ops \<Rightarrow> unit run" where
  "check_body_empty x = body_is x 0 True body_empty"

definition check_body_from_bytes :: "('b, 't, 'e) body_ops \<Rightarrow> unit run" where
  "check_body_from_bytes x = body_is x 13 False (body_from_bytes (ascii_bytes ''Hello, World!''))"

definition check_body_from_empty_bytes :: "('b, 't, 'e) body_ops \<Rightarrow> unit run" where
  "check_body_from_empty_bytes x = body_is x 0 True (body_from_bytes [])"

section \<open>Lazy futures (lazy.rs)\<close>

text \<open>
  The future of an \<open>async\<close> block: what it shares with the test is the count, which the closure
  captures and the block increments when it is over; a finished block panics when it is polled.
\<close>

record counting =
  cn_count :: nat
  cn_over :: bool

definition block_poll :: "bool \<Rightarrow> counting \<Rightarrow> unit poll \<times> counting" where
  "block_poll goes_on f =
     (if cn_over f then (Panicked, f)
      else if goes_on then (Ready (), \<lparr>cn_count = Suc (cn_count f), cn_over = True\<rparr>)
      else (Pending, f))"

fun counted :: "(nat, counting) lazy \<Rightarrow> nat" where
  "counted (Lazy_Init n) = n"
| "counted (Lazy_Future f) = cn_count f"
| "counted Lazy_Empty = 0"

definition poll_block :: "bool \<Rightarrow> (nat, counting) lazy \<Rightarrow> unit poll \<times> (nat, counting) lazy" where
  "poll_block goes_on = lazy_poll (\<lambda>n. Return \<lparr>cn_count = n, cn_over = False\<rparr>) (block_poll goes_on)"

text \<open>The block waits for the channel, which is sent to between the polls.\<close>

definition lazy_future :: "unit run" where
  "lazy_future =
     (let future = lazy_new 0 in
      run_bind (assert_that (counted future = 0)) (\<lambda>_.
      let (r, future) = poll_block False future in
      run_bind (assert_that (r = Pending)) (\<lambda>_.
      let (r, future) = poll_block True future in
      run_bind (assert_that (r = Ready ())) (\<lambda>_. assert_that (counted future = 1)))))"

definition lazy_future_panic :: "unit run" where
  "lazy_future_panic =
     (let future = lazy_new 0 in
      run_bind (assert_that (counted future = 0)) (\<lambda>_.
      let (r, future) = poll_block True future in
      run_bind (assert_that (\<exists>v. r = Ready v)) (\<lambda>_.
      run_bind (assert_that (counted future = 1)) (\<lambda>_.
      let (r, future) = poll_block True future in if r = Panicked then Panic else Return ()))))"

section \<open>PID files (pidfile.rs)\<close>

definition test_pid_file :: "host \<Rightarrow> files \<Rightarrow> string \<Rightarrow> unit run" where
  "test_pid_file os fs path =
     (let (r, fs1) = pid_file_new os fs path in
      run_bind (expect r) (\<lambda>pid_file.
      run_bind (expect (pid_file_is_locked os fs1 path)) (\<lambda>locked.
      run_bind (assert_that locked) (\<lambda>_.
      let fs2 = pid_file_drop os fs1 pid_file in
      run_bind (expect (pid_file_is_locked os fs2 path)) (\<lambda>locked. assert_that (\<not> locked))))))"

definition test_invalid_file :: "host \<Rightarrow> files \<Rightarrow> unit run" where
  "test_invalid_file os fs =
     (let path = ''/tmp/pidfile-test.pid''; (r, fs1) = write_file os fs path ''not a pid'' in
      run_bind (expect r) (\<lambda>_.
      run_bind (expect (pid_file_is_locked os fs1 path)) (\<lambda>locked.
      run_bind (assert_that (\<not> locked)) (\<lambda>_.
      run_bind (assert_that (fs1 path \<noteq> None)) (\<lambda>_.
      let (r, fs2) = pid_file_new os fs1 path in
      run_bind (expect r) (\<lambda>pid_file.
      run_bind (expect (pid_file_is_locked os fs2 path)) (\<lambda>locked.
      run_bind (assert_that locked) (\<lambda>_.
      let fs3 = pid_file_drop os fs2 pid_file in
      run_bind (expect (pid_file_is_locked os fs3 path)) (\<lambda>locked. assert_that (\<not> locked))))))))))"

section \<open>They pass\<close>

lemma protocol_text_tests_pass: "test_protocol_display = Return ()" "parse_protocol = Return ()"
  by (simp_all add: test_protocol_display_def parse_protocol_def protocol_from_str_def)

lemma canonical_test_passes:
  assumes "parse ''[::1]:8080'' = Some (SocketV6 1 8080 0 0)"
    and "parse ''[::ffff:192.0.2.128]:8080'' = Some (SocketV6 (ipv4_to_mapped 0xC0000280) 8080 0 0)"
    and "parse ''192.0.2.128:8080'' = Some (SocketV4 0xC0000280 8080)"
  shows "test_make_canonical parse = Return ()"
  using assms by (simp add: test_make_canonical_def make_canonical_def to_ipv4_mapped_def drop_mapped ucast_mapped)

lemma info_tests_pass:
  "connection_info_default = Return ()" "test_unix_addr = Return ()" "connection_info_map to_string = Return ()"
  "unix_connection_info_unnamed utf8 = Return ()" "utf8 path = Some p \<Longrightarrow> unix_connection_info_named utf8 path = Return ()"
  "peer (SocketV4 0 port) = SocketV4 0x7F000001 port \<Longrightarrow> tcp_connection_info peer local port = Return ()"
  "tls_server_info utf8 = Return ()" "tls_client_info utf8 = Return ()"
  by (simp_all add: connection_info_default_def info_default_def test_unix_addr_def unix_from_pathbuf_def unix_unnamed_def
      connection_info_map_def info_map_def unix_connection_info_unnamed_def unix_connection_info_named_def unix_info_try_def
      unix_side_def tokio_unix_try_from_def tcp_connection_info_def tcp_info_try_def tls_server_info_def tls_client_info_def
      no_tls_facts_def tls_info_server_def tls_info_client_def alpn_of_def)

lemma body_tests_pass:
  "check_try_downcast x = Return ()" "check_body_from_string x = Return ()" "check_body_from_empty_string x = Return ()"
  "check_body_empty x = Return ()" "check_body_from_bytes x = Return ()" "check_body_from_empty_bytes x = Return ()"
  by (simp_all add: check_try_downcast_def check_body_from_string_def check_body_from_empty_string_def check_body_empty_def
      check_body_from_bytes_def check_body_from_empty_bytes_def body_is_def body_empty_def body_from_string_def
      body_from_bytes_def inner_from_string_def full_new_def ascii_bytes_def with_exact_def)

lemma lazy_tests: "lazy_future = Return ()" "lazy_future_panic = Panic"
  by (simp_all add: lazy_future_def lazy_future_panic_def lazy_new_def poll_block_def block_poll_def)

text \<open>A host that refuses nothing on the path, where this process has a PID and is alive.\<close>

definition owns_path :: "host \<Rightarrow> string \<Rightarrow> bool" where
  "owns_path os path \<longleftrightarrow> 0 < os_pid os \<and> os_pid os < 2 ^ 31 \<and> os_kill os (os_pid os) = 0 \<and>
     os_read_refused os path = None \<and> os_write_refused os path = None \<and> os_remove_refused os path = None"

lemma own_lock:
  assumes "owns_path os path"
  shows "pid_file_is_locked os (fs(path \<mapsto> int_text (os_pid os))) path = Inr True"
proof -
  have "names_live os (fs(path \<mapsto> int_text (os_pid os))) path (os_pid os)"
    using assms by (simp add: names_live_def owns_path_def)
  from names_live_in_use [OF this] show ?thesis by (simp add: pid_file_is_locked_def)
qed

lemma no_lock:
  assumes "owns_path os path" and "fs path = None"
  shows "pid_file_is_locked os fs path = Inr False"
  using assms by (simp add: pid_file_is_locked_def pid_file_in_use_def read_to_string_def owns_path_def)

lemma pid_file_test_passes:
  assumes "owns_path os path" and "fs path = None"
  shows "test_pid_file os fs path = Return ()"
proof -
  have "pid_file_new os fs path = (Inr \<lparr>pf_path = path\<rparr>, fs(path \<mapsto> int_text (os_pid os)))"
    using assms by (simp add: pid_file_new_def pid_file_check_def pid_file_create_def write_file_def owns_path_def)
  then show ?thesis
    using assms by (simp add: test_pid_file_def own_lock no_lock pid_file_drop_def remove_file_def owns_path_def)
qed

lemma not_a_pid: "parse_i32 (trim ''not a pid'') = None"
  by code_simp

lemma invalid_file_test_passes:
  assumes "owns_path os ''/tmp/pidfile-test.pid''"
  shows "test_invalid_file os fs = Return ()"
proof -
  let ?path = "''/tmp/pidfile-test.pid''"
  let ?fs = "fs(?path \<mapsto> ''not a pid'')"
  have use: "pid_file_in_use os ?fs ?path = Inl InvalidData"
    using assms by (simp add: pid_file_in_use_def read_to_string_def owns_path_def not_a_pid)
  then have "pid_file_new os ?fs ?path = (Inr \<lparr>pf_path = ?path\<rparr>, fs(?path \<mapsto> int_text (os_pid os)))"
    using assms by (simp add: pid_file_new_def pid_file_check_def pid_file_create_def write_file_def remove_file_def owns_path_def)
  moreover have "pid_file_is_locked os ?fs ?path = Inr False"
    using use by (simp add: pid_file_is_locked_def)
  moreover have "write_file os fs ?path ''not a pid'' = (Inr (), ?fs)"
    using assms by (simp add: write_file_def owns_path_def)
  ultimately show ?thesis
    using assms by (simp add: test_invalid_file_def own_lock no_lock pid_file_drop_def remove_file_def owns_path_def Let_def)
qed

end
