(* ===== verification/Server_Tests.thy ===== *)
theory Server_Tests
  imports Registry_Transport Server_Info Auto_Server Value_Tests
begin

text \<open>
  The unit tests of the server's side over the model: protocol detection (server/conn/auto.rs),
  server names (server/conn/tls/sni.rs), connection information (server/conn/info.rs), in-memory
  connections (stream/duplex.rs and the transports over them) and the registry (discovery/).
\<close>

section \<open>Detection (server/conn/auto.rs)\<close>

text \<open>\<open>read_to_end\<close>: reads into a buffer with 32 bytes to spare until there is nothing more.\<close>

fun read_to_end :: "('s, 'e) aio \<Rightarrow> nat \<Rightarrow> 's \<Rightarrow> byte list run" where
  "read_to_end io 0 s = Panic"
| "read_to_end io (Suc fuel) s =
     (case a_read io 32 s of
        (Ready (Inr bs), s') \<Rightarrow>
          (if bs = [] then Return [] else run_bind (read_to_end io fuel s') (\<lambda>rest. Return (bs @ rest)))
      | _ \<Rightarrow> Panic)"

text \<open>
  What the other end of the pipe writes arrives at once; it then shuts its end down, and is not
  read again before.
\<close>

definition written :: "byte list \<Rightarrow> pipe" where
  "written bs = \<lparr>pipe_in = [bs], pipe_out = []\<rparr>"

abbreviation test_io :: "(pipe, io_kind) aio" where
  "test_io \<equiv> pipe_io"

definition http1_request :: "byte list" where
  "http1_request = ascii_bytes ''GET / HTTP/1.1'' @ [13, 10, 13, 10]"

definition detect :: "byte list \<Rightarrow> (http_protocol \<times> pipe tokio_io rewind) run" where
  "detect bs =
     run_bind (await_poll (fst (read_version_poll (tokio_io test_io) (read_version_new (TokioIo (written bs)))))) expect"

definition prefix_read :: "byte list \<Rightarrow> http_protocol \<Rightarrow> unit run" where
  "prefix_read bs protocol =
     run_bind (detect bs) (\<lambda>(version, rewind).
     run_bind (assert_that (version = protocol)) (\<lambda>_.
     let io = rw_inner rewind; prefix = rw_prefix rewind in
     run_bind (assert_that (prefix = Some bs)) (\<lambda>_.
     run_bind (read_to_end (tokio_io test_io) 4 io) (\<lambda>buf. assert_that (buf = [])))))"

definition test_read_version_h2 :: "unit run" where
  "test_read_version_h2 = prefix_read http2_prefix Http2"

definition test_read_version_h1 :: "unit run" where
  "test_read_version_h1 = prefix_read http1_request Http1"

definition test_rewind_returns_full_data :: "unit run" where
  "test_rewind_returns_full_data =
     run_bind (detect http1_request) (\<lambda>(version, rewind).
     run_bind (assert_that (version = Http1)) (\<lambda>_.
     let io = TokioIo rewind in
     run_bind (read_to_end (tokio_io (rewind_io (tokio_io test_io))) 4 io) (\<lambda>buf. assert_that (http1_request = buf))))"

section \<open>Server names (server/conn/tls/sni.rs)\<close>

definition sni_request :: "uri \<Rightarrow> (string \<times> string) list \<Rightarrow> tls_info option \<Rightarrow> (unit, unit) info_request" where
  "sni_request u headers tls =
     \<lparr>rq_method = ''GET'', rq_uri = u, rq_version = HTTP_11, rq_headers = headers, rq_extensions = [], rq_body = (),
      rq_info = None, rq_tls = tls\<rparr>"

definition tls_named :: "string option \<Rightarrow> tls_info" where
  "tls_named name = \<lparr>server_name = name, validated_server_name = False, alpn = None\<rparr>"

type_synonym authority_parser = "string \<Rightarrow> authority option"

definition root_uri :: uri where
  "root_uri = \<lparr>u_scheme = None, u_authority = None, u_path = Some ''/''\<rparr>"

definition host_header :: "(string \<times> string) list" where
  "host_header = [(''host'', ''example.com'')]"

definition sni_error :: "authority_parser \<Rightarrow> (unit, unit) info_request \<Rightarrow> validate_sni_error option" where
  "sni_error parse req = fst (sni_handle parse req)"

definition test_handle_no_sni :: "authority_parser \<Rightarrow> unit run" where
  "test_handle_no_sni parse =
     run_bind (unwrap (sni_error parse (sni_request root_uri host_header (Some (tls_named None))))) (\<lambda>error.
     assert_that (error = MissingSNI ''example.com''))"

definition test_handle_no_host :: "authority_parser \<Rightarrow> unit run" where
  "test_handle_no_host parse =
     assert_that (sni_error parse (sni_request root_uri [] (Some (tls_named (Some ''example.com'')))) = None)"

definition test_handle_mismatched_sni :: "authority_parser \<Rightarrow> unit run" where
  "test_handle_mismatched_sni parse =
     run_bind (unwrap (sni_error parse (sni_request root_uri host_header (Some (tls_named (Some ''example.org'')))))) (\<lambda>error.
     assert_that (error = InvalidSNI ''example.com'' ''example.org''))"

definition test_handle_matching_sni :: "authority_parser \<Rightarrow> unit run" where
  "test_handle_matching_sni parse =
     assert_that (sni_error parse (sni_request root_uri host_header (Some (tls_named (Some ''example.com'')))) = None)"

definition test_handle_http2_matches_authority :: "authority_parser \<Rightarrow> uri \<Rightarrow> unit run" where
  "test_handle_http2_matches_authority parse u =
     assert_that (sni_error parse (sni_request u [] (Some (tls_named (Some ''example.com'')))) = None)"

definition test_handle_missing_tls_info :: "authority_parser \<Rightarrow> unit run" where
  "test_handle_missing_tls_info parse = assert_that (sni_error parse (sni_request root_uri host_header None) = None)"

section \<open>In-memory connections (stream/duplex.rs, client/conn/transport/)\<close>

text \<open>
  The two ends of a pipe: what one wrote is what the other reads. The second of the futures that
  are joined makes the first go on.
\<close>

definition carry :: "pipe duplex_stream \<Rightarrow> pipe duplex_stream \<Rightarrow> pipe duplex_stream \<times> pipe duplex_stream" where
  "carry a b =
     (a\<lparr>ds_inner := (ds_inner a)\<lparr>pipe_out := []\<rparr>\<rparr>,
      b\<lparr>ds_inner := (ds_inner b)\<lparr>pipe_in := pipe_in (ds_inner b) @ [pipe_out (ds_inner a)]\<rparr>\<rparr>)"

definition fresh_pipes :: "nat \<Rightarrow> usize \<Rightarrow> pipe \<times> pipe" where
  "fresh_pipes k n = (\<lparr>pipe_in = [], pipe_out = []\<rparr>, \<lparr>pipe_in = [], pipe_out = []\<rparr>)"

definition write_all :: "byte list \<Rightarrow> pipe duplex_stream \<Rightarrow> pipe duplex_stream run" where
  "write_all bs s =
     (case a_write (duplex_io test_io) bs s of
        (Ready (Inr n), s') \<Rightarrow> if n = length bs then Return s' else Panic
      | _ \<Rightarrow> Panic)"

definition read_exact :: "nat \<Rightarrow> pipe duplex_stream \<Rightarrow> (byte list \<times> pipe duplex_stream) run" where
  "read_exact n s =
     (case a_read (duplex_io test_io) n s of
        (Ready (Inr bs), s') \<Rightarrow> if length bs = n then Return (bs, s') else Panic
      | _ \<Rightarrow> Panic)"

definition sent_over :: "byte list \<Rightarrow> pipe duplex_stream \<Rightarrow> pipe duplex_stream \<Rightarrow> (byte list \<times> pipe duplex_stream \<times> pipe duplex_stream) run" where
  "sent_over bs a b =
     run_bind (write_all bs a) (\<lambda>a.
     let (a, b) = carry a b in run_bind (read_exact (length bs) b) (\<lambda>(buf, b). Return (buf, a, b)))"

definition test_duplex :: "unit run" where
  "test_duplex =
     (let (net, incoming) = duplex_pair; (r, c, net) = connect_poll (Start 1024) net in
      run_bind (assert_that (r = Pending)) (\<lambda>_.
      let (accepted, net) = duplex_poll_next fresh_pipes incoming net in
      run_bind (await_poll accepted) (\<lambda>next.
      run_bind (unwrap next) (\<lambda>server.
      run_bind (expect server) (\<lambda>server_stream.
      run_bind (run_bind (await_poll (fst (connect_poll c net))) expect) (\<lambda>client_stream.
      run_bind (sent_over (ascii_bytes ''hello'') client_stream server_stream) (\<lambda>(buf, client_stream, server_stream).
      run_bind (assert_that (buf = ascii_bytes ''hello'')) (\<lambda>_.
      run_bind (sent_over (ascii_bytes ''world'') server_stream client_stream) (\<lambda>(buf, _, _).
      assert_that (buf = ascii_bytes ''world''))))))))))"

text \<open>\<open>transport.oneshot(uri)\<close> joined with \<open>srv.accept()\<close>.\<close>

definition duplex_oneshot ::
  "uri \<Rightarrow> (((pipe duplex_stream, duplex_addr) transport_stream) \<times> (io_kind + pipe duplex_stream)) run" where
  "duplex_oneshot u =
     (let (net, srv) = duplex_pair; transport = duplex_transport_new 1024 in
      run_bind (await_poll (duplex_transport_ready transport)) (\<lambda>_.
      let (f, net) = duplex_transport_call transport u net; (r, f, net) = duplex_transport_poll f net in
      run_bind (assert_that (r = Pending)) (\<lambda>_.
      let (accepted, net) = duplex_poll_accept fresh_pipes srv net in
      run_bind (await_poll accepted) (\<lambda>conn.
      run_bind (run_bind (await_poll (fst (duplex_transport_poll f net))) expect) (\<lambda>io. Return (io, conn))))))"

definition test_duplex_transport :: "uri \<Rightarrow> unit run" where
  "test_duplex_transport u =
     run_bind (duplex_oneshot u) (\<lambda>(io, conn).
     run_bind (expect conn) (\<lambda>_.
     let info = ts_info io in
     run_bind (assert_that (local_addr info = duplex_addr_new)) (\<lambda>_. assert_that (remote_addr info = duplex_addr_new))))"

text \<open>\<open>IntoStream\<close> maps the transport's stream once its future is ready.\<close>

definition transport_into_stream :: "uri \<Rightarrow> unit run" where
  "transport_into_stream u =
     run_bind (duplex_oneshot u) (\<lambda>(io, conn).
     run_bind (expect conn) (\<lambda>_.
     let into_braid = (\<lambda>d. Braid_Duplex d :: (unit, pipe duplex_stream, unit) braid);
         info = ts_info (transport_stream_map braid_addr_from_duplex into_braid io) in
     run_bind (assert_that (local_addr info = Addr_Duplex)) (\<lambda>_. assert_that (remote_addr info = Addr_Duplex))))"

section \<open>The information of a connection (server/conn/info.rs)\<close>

text \<open>
  The service of the test as its future, which is ready unless the closure panicked. \<open>Shared\<close>
  is a maker that answers a clone of the service it holds.
\<close>

definition info_service ::
  "(unit, (unit body, duplex_addr) info_request, unit run, unit response, unit) service" where
  "info_service =
     \<lparr>s_ready = (\<lambda>s. (Ready (Inr ()), s)),
      s_call = (\<lambda>s req.
        (run_bind (unwrap (rq_info req)) (\<lambda>info. assert_that (remote_addr info = duplex_addr_new)), s)),
      s_fpoll = (\<lambda>f. (case f of
          Return _ \<Rightarrow> Ready (Inr \<lparr>rs_status = 200, rs_headers = [], rs_body = ()\<rparr>)
        | Panic \<Rightarrow> Panicked, f))\<rparr>"

definition shared_maker :: "('svc, 'target, 'svc, 'svc, unit) service" where
  "shared_maker = \<lparr>s_ready = (\<lambda>s. (Ready (Inr ()), s)), s_call = (\<lambda>s target. (s, s)), s_fpoll = (\<lambda>f. (Ready (Inr f), f))\<rparr>"

definition empty_request :: "(unit body, duplex_addr) info_request" where
  "empty_request =
     \<lparr>rq_method = ''GET'', rq_uri = root_uri, rq_version = HTTP_11, rq_headers = [], rq_extensions = [], rq_body = body_empty,
      rq_info = None, rq_tls = None\<rparr>"

definition connection_info_from_service :: "uri \<Rightarrow> unit run" where
  "connection_info_from_service u =
     (let make_service = make_connection_info id duplex_info shared_maker in
      run_bind (duplex_oneshot u) (\<lambda>(_, accepted).
      run_bind (expect accepted) (\<lambda>conn.
      let (f, _) = s_call make_service (MakeInfo ()) conn in
      run_bind (run_bind (await_poll (fst (s_fpoll make_service f))) expect) (\<lambda>svc.
      let (f, _) = connection_info_call id info_service svc empty_request in
      run_bind (run_bind (await_poll (fst (s_fpoll info_service f))) expect) (\<lambda>_. Return ())))))"

section \<open>The registry (discovery/mod.rs, discovery/transport.rs)\<close>

definition service_with_dots :: string where
  "service_with_dots = ''service.with.dots''"

definition test_service_handle :: "host \<Rightarrow> files \<Rightarrow> string \<Rightarrow> unit run" where
  "test_service_handle os fs tmp =
     (let name = service_with_dots; handle = (handle_unix tmp name :: unit service_handle) in
      run_bind (assert_that (\<not> handle_available os fs handle)) (\<lambda>_.
      case handle of
        SH_Duplex _ _ \<Rightarrow> Panic
      | SH_Unix path pidfile \<Rightarrow>
          (let expected = path_join tmp (name @ ''.svc'') in
           run_bind (assert_that (path = expected)) (\<lambda>_.
           assert_that (case pidfile of Lock_Path _ \<Rightarrow> True | Lock_Held _ \<Rightarrow> False)))))"

text \<open>Connecting to a Unix socket that is not there fails at once; the streams and servers here are of no type that matters.\<close>

type_synonym test_registry = "(unit, unit, unit, unit) registry"

definition no_socket :: "string \<Rightarrow> (io_kind + unit) poll \<times> string" where
  "no_socket path = (Ready (Inl NotFound), path)"

type_synonym test_stream = "(unit, unit, unit, (unit, unit duplex_stream, unit) braid) client_stream"

definition connect_to_handle_unix :: "instant \<Rightarrow> string \<Rightarrow> unit run" where
  "connect_to_handle_unix now tmp =
     (let name = service_with_dots; handle = (handle_unix tmp name :: unit service_handle);
          config = registry_config_default;
          w = waiting_connect_start config now (handle_connect_start id config handle);
          result = (fst (waiting_connect_poll no_socket now name w []) :: (registry_error + test_stream) poll) in
      run_bind (run_bind (await_poll result) expect_err) (\<lambda>error.
      case error of
        Unix_Error error path name' \<Rightarrow>
          run_bind (assert_that (error = NotFound)) (\<lambda>_.
          run_bind (assert_that (path = path_join tmp (name' @ ''.svc''))) (\<lambda>_. assert_that (name' = name')))
      | _ \<Rightarrow> Panic))"

definition test_svc_scheme :: "(string \<Rightarrow> uri option) \<Rightarrow> unit run" where
  "test_svc_scheme parse =
     (let scheme = svc_scheme_default in
      run_bind (unwrap (parse ''svc://service'')) (\<lambda>u. assert_that (sc_service scheme u = Some ''service'')))"

definition test_grpc_scheme :: "(string \<Rightarrow> uri option) \<Rightarrow> unit run" where
  "test_grpc_scheme parse =
     (let scheme = grpc_scheme_default in
      run_bind (unwrap (parse ''grpc://host/service/method'')) (\<lambda>u. assert_that (sc_service scheme u = Some ''service'')))"

text \<open>\<open>transport.oneshot(uri).await.unwrap_err()\<close> on a fresh registry.\<close>

definition registry_oneshot_err ::
  "('h, 's, (unit, unit duplex_stream, unit) braid) rustls \<Rightarrow> instant \<Rightarrow> service_registry \<Rightarrow> uri \<Rightarrow> registry_error run" where
  "registry_oneshot_err rt now registry u =
     (let transport = with_default_schemes registry in
      run_bind (run_bind (await_poll (registry_transport_ready transport)) expect) (\<lambda>_.
      run_bind (unwrap (registry_call_poll rt (\<lambda>_. info_default ()) (\<lambda>_. 0) id no_socket transport now
          (registry_transport_call transport u) (registry_new :: test_registry))) (\<lambda>(r, _, _).
      run_bind (await_poll r) expect_err)))"

definition test_transport_not_found ::
  "(string \<Rightarrow> uri option) \<Rightarrow> ('h, 's, (unit, unit duplex_stream, unit) braid) rustls \<Rightarrow> instant \<Rightarrow> unit run" where
  "test_transport_not_found parse rt now =
     (let registry = \<lparr>sr_config = registry_config_default\<lparr>rc_connect_timeout := Some 0\<rparr>\<rparr> in
      run_bind (unwrap (parse ''svc://service'')) (\<lambda>u.
      run_bind (registry_oneshot_err rt now registry u) (\<lambda>err.
      assert_that (case err of ConnectionTimeout _ \<Rightarrow> True | _ \<Rightarrow> False))))"

definition test_transport_unix_not_found ::
  "(string \<Rightarrow> uri option) \<Rightarrow> ('h, 's, (unit, unit duplex_stream, unit) braid) rustls \<Rightarrow> instant \<Rightarrow> string \<Rightarrow> unit run" where
  "test_transport_unix_not_found parse rt now tmp =
     (let registry = \<lparr>sr_config = registry_config_default\<lparr>rc_connect_timeout := Some 0, rc_discovery := Unix_Directory tmp\<rparr>\<rparr> in
      run_bind (unwrap (parse ''svc://service'')) (\<lambda>u.
      run_bind (registry_oneshot_err rt now registry u) (\<lambda>err.
      case err of
        Unix_Error error path name \<Rightarrow>
          run_bind (assert_that (error = NotFound)) (\<lambda>_.
          run_bind (assert_that (path = path_join tmp (name @ ''.svc''))) (\<lambda>_. assert_that (name = ''service'')))
      | _ \<Rightarrow> Panic)))"

section \<open>They pass\<close>

lemma pipe_first:
  assumes "bs \<noteq> []" and "length bs \<le> n"
  shows "a_read (tokio_io test_io) n (TokioIo (written bs)) = (Ready (Inr bs), TokioIo \<lparr>pipe_in = [], pipe_out = []\<rparr>)"
  using assms by (simp add: tokio_io_def tokio_poll_read_def pipe_io_def written_def)

lemma pipe_end: "a_read (tokio_io test_io) n (TokioIo \<lparr>pipe_in = [], pipe_out = []\<rparr>) = (Ready (Inr []), TokioIo \<lparr>pipe_in = [], pipe_out = []\<rparr>)"
  by (simp add: tokio_io_def tokio_poll_read_def pipe_io_def)

lemma detected:
  assumes "bs \<noteq> []" and "length bs \<le> 24"
  shows "detect bs = Return (if bs = http2_prefix then Http2 else Http1, rewind_new (TokioIo \<lparr>pipe_in = [], pipe_out = []\<rparr>) bs)"
  using rv_loop_first [OF pipe_first [OF assms]]
  by (simp add: detect_def read_version_poll_def read_version_new_def)

lemma http1_size: "http1_request \<noteq> []" "length http1_request \<le> 24" "http1_request \<noteq> http2_prefix"
  by (simp_all add: http1_request_def ascii_bytes_def http2_prefix_def)

lemma prefix_size: "http2_prefix \<noteq> []" "length http2_prefix \<le> 24"
  by (simp_all add: http2_prefix_def)

lemma fuel_4: "(4 :: nat) = Suc (Suc (Suc (Suc 0)))"
  by simp

lemma ended_read: "read_to_end (tokio_io test_io) 4 (TokioIo \<lparr>pipe_in = [], pipe_out = []\<rparr>) = Return []"
  unfolding fuel_4 by (simp add: pipe_end)

lemma rewound_reads:
  "a_read (tokio_io (rewind_io io)) n (TokioIo rw) = wrap_tokio (rewind_read io n rw)"
  by (simp add: tokio_io_def tokio_poll_read_def rewind_io_def)

lemma rewound_read:
  "read_to_end (tokio_io (rewind_io (tokio_io test_io))) 4
     (TokioIo (rewind_new (TokioIo \<lparr>pipe_in = [], pipe_out = []\<rparr>) http1_request)) = Return http1_request"
  unfolding fuel_4 using http1_size by (simp add: rewound_reads rewind_read_def rewind_new_def pipe_end)

lemma detection_tests_pass:
  "test_read_version_h2 = Return ()" "test_read_version_h1 = Return ()" "test_rewind_returns_full_data = Return ()"
  by (simp_all add: test_read_version_h2_def test_read_version_h1_def test_rewind_returns_full_data_def prefix_read_def
      detected [OF prefix_size] detected [OF http1_size(1,2)] http1_size(3) ended_read rewound_read)
    (simp_all add: rewind_new_def ended_read)

lemma sni_tests_pass:
  assumes "parse ''example.com'' = Some \<lparr>au_text = ''example.com'', au_host = ''example.com'', au_port = None\<rparr>"
    and "parse ''example.org'' = Some \<lparr>au_text = ''example.org'', au_host = ''example.org'', au_port = None\<rparr>"
  shows "test_handle_no_sni parse = Return ()" "test_handle_no_host parse = Return ()"
    "test_handle_mismatched_sni parse = Return ()" "test_handle_matching_sni parse = Return ()"
    "test_handle_http2_matches_authority parse u = Return ()" "test_handle_missing_tls_info parse = Return ()"
  using assms
  by (simp_all add: test_handle_no_sni_def test_handle_no_host_def test_handle_mismatched_sni_def test_handle_matching_sni_def
      test_handle_http2_matches_authority_def test_handle_missing_tls_info_def sni_error_def sni_handle_def sni_request_def
      request_host_def host_header_def header_to_str_def tls_named_def)

text \<open>
  \<open>test_handle_http2_matches_authority\<close> says nothing of HTTP/2: the request it builds is of
  HTTP/1.1 and has no host, so it passes for every URI and every server name.
\<close>

lemma authority_test_vacuous:
  assumes "parse name = Some a"
  shows "sni_error parse (sni_request u [] (Some (tls_named (Some name)))) = None"
  using assms by (simp add: sni_error_def sni_handle_def sni_request_def request_host_def tls_named_def)

lemmas duplex_ops = duplex_pair_def incoming_new_def connect_send_def connect_await_def request_new_def channel_capacity_def
  duplex_poll_next_def duplex_poll_accept_def poll_recv_def request_ack_def duplex_stream_new_def fresh_pipes_def
  info_duplex_def info_map_def duplex_addr_new_def

lemma duplex_test_passes: "test_duplex = Return ()"
  by (simp add: test_duplex_def duplex_ops sent_over_def write_all_def read_exact_def carry_def duplex_io_def duplex_lift_def
      pipe_io_def pipe_write_def ascii_bytes_def Let_def)

lemma oneshot_ready:
  "\<exists>io conn. duplex_oneshot u = Return (io, Inr conn) \<and>
     ts_info io = \<lparr>local_addr = (), remote_addr = (), buffer_size = Some 1024\<rparr> \<and> duplex_info conn = ts_info io"
  by (simp add: duplex_oneshot_def duplex_transport_new_def duplex_transport_ready_def duplex_transport_call_def
      duplex_transport_poll_def transport_stream_new_def duplex_info_def duplex_ops Let_def)

lemma transport_tests_pass:
  "test_duplex_transport u = Return ()" "transport_into_stream u = Return ()" "connection_info_from_service u = Return ()"
  using oneshot_ready [of u]
  by (auto simp: test_duplex_transport_def transport_into_stream_def connection_info_from_service_def transport_stream_map_def
      info_map_def braid_addr_from_duplex_def make_connection_info_def make_info_call_def service_ref_call_def shared_maker_def
      connection_info_call_def info_service_def empty_request_def Let_def)

lemma registry_tests_pass:
  assumes "os_read_refused os (path_join tmp (service_with_dots @ ''.pid'')) = None" and "fs (path_join tmp (service_with_dots @ ''.pid'')) = None"
  shows "test_service_handle os fs tmp = Return ()" "connect_to_handle_unix now tmp = Return ()"
  using assms
  by (simp_all add: test_service_handle_def handle_unix_def handle_available_def pid_lock_available_def pid_file_is_locked_def
      pid_file_in_use_def read_to_string_def connect_to_handle_unix_def handle_connect_start_def waiting_connect_start_def
      registry_config_default_def no_socket_def Let_def)

lemma scheme_tests_pass:
  assumes "parse ''svc://service'' = Some \<lparr>u_scheme = Some ''svc'',
      u_authority = Some \<lparr>au_text = ''service'', au_host = ''service'', au_port = None\<rparr>, u_path = Some ''/''\<rparr>"
    and "parse ''grpc://host/service/method'' = Some \<lparr>u_scheme = Some ''grpc'',
      u_authority = Some \<lparr>au_text = ''host'', au_host = ''host'', au_port = None\<rparr>, u_path = Some ''/service/method''\<rparr>"
  shows "test_svc_scheme parse = Return ()" "test_grpc_scheme parse = Return ()"
    "test_transport_not_found parse rt now = Return ()" "test_transport_unix_not_found parse rt now tmp = Return ()"
  using assms
  by (simp_all add: test_svc_scheme_def svc_scheme_default_def svc_scheme_new_def uri_host_def test_grpc_scheme_def
      grpc_scheme_default_def grpc_scheme_new_def grpc_service_def uri_path_def path_components_def Let_def
      test_transport_not_found_def test_transport_unix_not_found_def registry_oneshot_err_def with_default_schemes_def
      add_default_schemes_def add_scheme_def transport_builder_def transport_build_def registry_transport_ready_def
      registry_transport_call_def registry_get_def registry_get_mut_def write_blocked_def registry_new_def
      registry_config_default_def registry_connect_waiting_def waiting_connect_start_def handle_connect_start_def
      handle_duplex_def handle_unix_def no_socket_def duplex_ops)

end
