(* ===== verification/Tls_System.thy ===== *)
theory Tls_System
  imports Server_Tests
begin

text \<open>
  A client and a server that meet over an in-memory connection with TLS around it: the client's
  \<open>TlsTransport\<close> (client/conn/transport), the server's acceptor (server/conn/acceptor.rs), the
  handshakes of both, and the information of the handshake in the server's requests
  (server/conn/tls/info.rs). The unit tests of these files are programs over it. rustls is a
  parameter for both sides; all that is asked of it is that a handshake, polled again and
  again, ends with a session.
\<close>

section \<open>Both sides\<close>

type_synonym 'io server_end = "(unit, 'io duplex_stream, unit) braid"

text \<open>
  rustls on both sides with the parser of server names, the connector and the acceptor that
  start the handshakes, and the runtime's pipes.
\<close>

record ('h, 's, 'g, 't, 'n, 'cc, 'sc, 'io) tls_peers =
  tp_client :: "('h, 's, 'io duplex_stream) rustls"
  tp_server :: "('g, 't, 'io server_end) rustls"
  tp_name :: "string \<Rightarrow> 'n option"
  tp_connect :: "'cc \<Rightarrow> 'n \<Rightarrow> 'io duplex_stream \<Rightarrow> 'h"
  tp_accept :: "'sc \<Rightarrow> 'io server_end \<Rightarrow> 'g"
  tp_pipes :: "nat \<Rightarrow> usize \<Rightarrow> 'io \<times> 'io"

text \<open>The in-memory transport with the network its futures work on.\<close>

type_synonym 'io dialing = "connecting \<times> 'io duplex_net"

definition net_connect :: "duplex_transport \<times> 'io duplex_net \<Rightarrow> uri \<Rightarrow> 'io dialing \<times> duplex_transport \<times> 'io duplex_net" where
  "net_connect tn u =
     (let (t, net) = tn; (c, net') = duplex_transport_call t u net in ((c, net'), t, net'))"

definition net_fpoll :: "'io dialing \<Rightarrow> (io_kind + ('io duplex_stream, duplex_addr) transport_stream) poll \<times> 'io dialing" where
  "net_fpoll d = (let (c, net) = d; (r, c', net') = duplex_transport_poll c net in (r, (c', net')))"

definition net_transport ::
  "(duplex_transport \<times> 'io duplex_net, 'io dialing, 'io duplex_stream, duplex_addr, io_kind) transport_ops" where
  "net_transport =
     \<lparr>t_poll_ready = \<lambda>tn. (duplex_transport_ready (fst tn), tn), t_connect = net_connect, t_fpoll = net_fpoll\<rparr>"

type_synonym ('h, 's, 'io) duplex_client = "('h, 's, duplex_addr, 'io duplex_stream) client_stream"

type_synonym ('h, 's, 'cc, 'io) tls_dialing =
  "('io dialing, ('io dialing, 'cc, ('h, 's, 'io) duplex_client, io_kind) tls_future) braid_future"

definition tls_client_new ::
  "('h, 's, 'g, 't, 'n, 'cc, 'sc, 'io) tls_peers \<Rightarrow> 'io duplex_stream \<Rightarrow> string \<Rightarrow> 'cc \<Rightarrow> ('h, 's, duplex_addr) client_tls run" where
  "tls_client_new p io domain config =
     client_tls_new (tp_client p) duplex_info (tp_name p) (tp_connect p config) io domain"

definition dialing_poll ::
  "('h, 's, 'g, 't, 'n, 'cc, 'sc, 'io) tls_peers \<Rightarrow> ('h, 's, 'cc, 'io) tls_dialing
     \<Rightarrow> ('h, 's, duplex_addr, 'io duplex_stream, io_kind) tls_output \<times> ('h, 's, 'cc, 'io) tls_dialing" where
  "dialing_poll p = braid_future_poll (tp_client p) duplex_info net_transport (tls_client_new p)"

text \<open>The network a dialing client works on, which the acceptor works on in its turn.\<close>

fun dialing_net :: "('h, 's, 'cc, 'io) tls_dialing \<Rightarrow> 'io duplex_net option" where
  "dialing_net (BF_Tls (TF_Connecting (c, net) config domain)) = Some net"
| "dialing_net (BF_Plain (c, net)) = Some net"
| "dialing_net _ = None"

fun dialing_on :: "'io duplex_net \<Rightarrow> ('h, 's, 'cc, 'io) tls_dialing \<Rightarrow> ('h, 's, 'cc, 'io) tls_dialing" where
  "dialing_on net (BF_Tls (TF_Connecting (c, _) config domain)) = BF_Tls (TF_Connecting (c, net) config domain)"
| "dialing_on net (BF_Plain (c, _)) = BF_Plain (c, net)"
| "dialing_on net f = f"

type_synonym ('g, 't, 'io) duplex_server = "('g, 't, braid_addr, 'io server_end) server_stream"

definition end_info :: "'io server_end \<Rightarrow> braid_addr connection_info" where
  "end_info b = (case b of Braid_Duplex d \<Rightarrow> info_map (\<lambda>_. Addr_Duplex) (duplex_info d) | _ \<Rightarrow> info_default Addr_Duplex)"

definition net_accept :: "(nat \<Rightarrow> usize \<Rightarrow> 'io \<times> 'io) \<Rightarrow> (duplex_incoming \<times> 'io duplex_net, 'io duplex_stream) acceptor" where
  "net_accept mk a = (let (inc, net) = a; (r, net') = duplex_poll_accept mk inc net in (r, (inc, net')))"

type_synonym ('sc, 'io) net_acceptor = "('sc, (unit, duplex_incoming \<times> 'io duplex_net, unit) braid) acceptor_inner"

definition net_poll_accept ::
  "('h, 's, 'g, 't, 'n, 'cc, 'sc, 'io) tls_peers
     \<Rightarrow> (('sc, 'io) net_acceptor, ('g, 't, 'io) duplex_server) acceptor" where
  "net_poll_accept p =
     acceptor_poll_accept (tp_server p) end_info
       (core_poll_accept (\<lambda>a. (Pending, a)) (net_accept (tp_pipes p)) (\<lambda>a. (Pending, a))) (tp_accept p)"

text \<open>\<open>Acceptor::from(incoming).with_tls(config)\<close>, over the network as it is.\<close>

definition net_acceptor :: "'sc \<Rightarrow> duplex_incoming \<Rightarrow> 'io duplex_net \<Rightarrow> ('sc, 'io) net_acceptor run" where
  "net_acceptor config inc net = acceptor_with_tls config (acceptor_new (Braid_Duplex (inc, net)))"

definition acceptor_net :: "('sc, 'io) net_acceptor \<Rightarrow> 'io duplex_net option" where
  "acceptor_net a = (case a of Acc_Tls _ (Braid_Duplex (_, net)) \<Rightarrow> Some net | Acc_NoTls (Braid_Duplex (_, net)) \<Rightarrow> Some net | _ \<Rightarrow> None)"

text \<open>\<open>.await\<close> of a future that is woken at most \<open>fuel\<close> times.\<close>

fun await_with :: "nat \<Rightarrow> ('f \<Rightarrow> 'a poll \<times> 'f) \<Rightarrow> 'f \<Rightarrow> ('a \<times> 'f) run" where
  "await_with 0 poll f = Panic"
| "await_with (Suc fuel) poll f =
     (case poll f of
        (Ready v, f') \<Rightarrow> Return (v, f')
      | (Pending, f') \<Rightarrow> await_with fuel poll f'
      | (Panicked, _) \<Rightarrow> Panic)"

definition finish_with :: "nat \<Rightarrow> ('f \<Rightarrow> ('e + 'a) poll \<times> 'f) \<Rightarrow> 'f \<Rightarrow> ('a \<times> 'f) run" where
  "finish_with fuel poll f = run_bind (await_with fuel poll f) (\<lambda>(r, f'). run_bind (expect r) (\<lambda>v. Return (v, f')))"

text \<open>
  The two tasks that a test joins: the client dials, which sends its request, the server accepts
  it, and both finish their handshakes. \<open>start\<close> is the client's future on a network.
\<close>

definition tls_join ::
  "('h, 's, 'g, 't, 'n, 'cc, 'sc, 'io) tls_peers \<Rightarrow> nat \<Rightarrow> 'sc \<Rightarrow> ('io duplex_net \<Rightarrow> ('h, 's, 'cc, 'io) tls_dialing)
     \<Rightarrow> ((('h, 's, 'io) duplex_client, duplex_addr) transport_stream \<times> ('g, 't, 'io) duplex_server) run" where
  "tls_join p fuel config start =
     (let (net, inc) = duplex_pair; (r, f) = dialing_poll p (start net) in
      run_bind (assert_that (r = Pending)) (\<lambda>_.
      run_bind (unwrap (dialing_net f)) (\<lambda>net.
      run_bind (net_acceptor config inc net) (\<lambda>acceptor.
      let (accepted, acceptor) = net_poll_accept p acceptor in
      run_bind (run_bind (await_poll accepted) expect) (\<lambda>conn.
      run_bind (unwrap (acceptor_net acceptor)) (\<lambda>net.
      run_bind (finish_with fuel (dialing_poll p) (dialing_on net f)) (\<lambda>(stream, _).
      run_bind (finish_with fuel (client_stream_handshake (tp_client p)) (ts_stream stream)) (\<lambda>(_, io).
      run_bind (finish_with fuel (server_stream_handshake (tp_server p)) conn) (\<lambda>(_, conn).
      Return (stream\<lparr>ts_stream := io\<rparr>, conn))))))))))"

section \<open>The tests\<close>

text \<open>\<open>DuplexTransport::new(1024, client).with_tls(config)\<close>, and a call of it.\<close>

definition tls_transport_start ::
  "'cc \<Rightarrow> uri \<Rightarrow> 'io duplex_net \<Rightarrow> ('h, 's, 'cc, 'io) tls_dialing" where
  "tls_transport_start config u net =
     fst (tls_transport_call net_transport u
       (tls_transport_with_tls config (tls_transport_new (duplex_transport_new 1024, net))))"

definition tls_wrapper_start ::
  "'cc \<Rightarrow> uri \<Rightarrow> 'io duplex_net \<Rightarrow> ('h, 's, 'cc, 'io) tls_dialing" where
  "tls_wrapper_start config u net =
     BF_Tls (fst (tls_wrapper_call net_transport u \<lparr>tw_transport = (duplex_transport_new 1024, net), tw_config = config\<rparr>))"

text \<open>The services of the tests: \<open>Ok\<close> for every request, or only for one with the TLS information.\<close>

type_synonym 'a tls_service = "(unit, (unit body, 'a) info_request, unit run, unit response, unit) service"

definition ok_future :: "unit run \<Rightarrow> (unit + unit response) poll \<times> unit run" where
  "ok_future f =
     (case f of Return _ \<Rightarrow> Ready (Inr \<lparr>rs_status = 200, rs_headers = [], rs_body = ()\<rparr>) | Panic \<Rightarrow> Panicked, f)"

definition ok_service :: "'a tls_service" where
  "ok_service = \<lparr>s_ready = (\<lambda>s. (Ready (Inr ()), s)), s_call = (\<lambda>s req. (Return (), s)), s_fpoll = ok_future\<rparr>"

definition tls_info_service :: "'a tls_service" where
  "tls_info_service =
     \<lparr>s_ready = (\<lambda>s. (Ready (Inr ()), s)),
      s_call = (\<lambda>s req. (run_bind (unwrap (rq_tls req)) (\<lambda>_. Return ()), s)), s_fpoll = ok_future\<rparr>"

definition tls_request :: "(unit body, 'a) info_request" where
  "tls_request =
     \<lparr>rq_method = ''GET'', rq_uri = root_uri, rq_version = HTTP_11, rq_headers = [], rq_extensions = [], rq_body = body_empty,
      rq_info = None, rq_tls = None\<rparr>"

text \<open>
  \<open>tls_client_server\<close>: a plain service made for the connection. The test calls the maker before
  the server's handshake, which the maker does not see.
\<close>

definition tls_client_server ::
  "('h, 's, 'g, 't, 'n, 'cc, 'sc, 'io) tls_peers \<Rightarrow> nat \<Rightarrow> 'cc \<Rightarrow> 'sc \<Rightarrow> uri \<Rightarrow> unit run" where
  "tls_client_server p fuel cc sc u =
     run_bind (tls_join p fuel sc (tls_transport_start cc u)) (\<lambda>(stream, conn).
     let make_service = shared_maker; (f, _) = s_call make_service () conn in
     run_bind (run_bind (await_poll (fst (s_fpoll make_service f))) expect) (\<lambda>svc.
     let service = (ok_service :: unit tls_service); (f, _) = s_call service svc tls_request in
     run_bind (run_bind (await_poll (fst (s_fpoll service f))) expect) (\<lambda>_. Return ())))"

text \<open>The receiver that the layer takes from the connection is of the channel of its TLS stream.\<close>

definition conn_channel :: "('g, 't, 'io) duplex_server \<Rightarrow> tls_channel" where
  "conn_channel conn = (case ss_inner conn of Tls st \<Rightarrow> st_channel st | NoTls _ \<Rightarrow> tls_channel_empty)"

definition test_tls_server_info ::
  "('h, 's, 'g, 't, 'n, 'cc, 'sc, 'io) tls_peers \<Rightarrow> nat \<Rightarrow> 'cc \<Rightarrow> 'sc \<Rightarrow> uri \<Rightarrow> unit run" where
  "test_tls_server_info p fuel cc sc u =
     run_bind (tls_join p fuel sc (tls_transport_start cc u)) (\<lambda>(stream, conn).
     let make_service = make_tls_connection_info id (\<lambda>_. ()) shared_maker;
         (f, _) = s_call make_service (MakeTlsInfo ()) conn in
     run_bind (run_bind (await_poll (fst (s_fpoll make_service f))) expect) (\<lambda>svc.
     let (f, _) = tls_connection_call id svc (tls_request :: (unit body, unit) info_request) in
     run_bind (run_bind (await_poll (fst (tls_request_poll tls_info_service f (\<lambda>_. conn_channel conn)))) expect) (\<lambda>_. Return ())))"

definition test_tls_transport_wrapper ::
  "('h, 's, 'g, 't, 'n, 'cc, 'sc, 'io) tls_peers \<Rightarrow> nat \<Rightarrow> 'cc \<Rightarrow> 'sc \<Rightarrow> uri \<Rightarrow> unit run" where
  "test_tls_transport_wrapper p fuel cc sc u =
     run_bind (tls_join p fuel sc (tls_wrapper_start cc u)) (\<lambda>(stream, _).
     run_bind (unwrap (ts_tls stream)) (\<lambda>tls. assert_that (alpn tls = Some (Http HTTP_2))))"

section \<open>Handshakes that end\<close>

text \<open>After \<open>n\<close> polls that are pending, the handshake ends with the session \<open>s\<close>.\<close>

fun handshake_ends :: "('h, 's, 'io) rustls \<Rightarrow> nat \<Rightarrow> 'h \<Rightarrow> 's \<Rightarrow> bool" where
  "handshake_ends rt 0 h s = (fst (hs_poll rt h) = Ready (Inr s))"
| "handshake_ends rt (Suc n) h s = (fst (hs_poll rt h) = Pending \<and> handshake_ends rt n (snd (hs_poll rt h)) s)"

text \<open>
  Polling a future with a handshake inside: pending while the handshake is, and at its end
  what \<open>done\<close> makes of the session.
\<close>

lemma await_handshake:
  assumes pending: "\<And>h h'. hs_poll rt h = (Pending, h') \<Longrightarrow> poll (wrap h) = (Pending, wrap h')"
    and ready: "\<And>h h'. hs_poll rt h = (Ready (Inr s), h') \<Longrightarrow> poll (wrap h) = (Ready v, final)"
    and ends: "handshake_ends rt n h s" and "n < fuel"
  shows "await_with fuel poll (wrap h) = Return (v, final)"
  using ends \<open>n < fuel\<close>
proof (induction n arbitrary: h fuel)
  case 0
  then obtain k h' where "fuel = Suc k" "hs_poll rt h = (Ready (Inr s), h')"
    by (cases fuel) (auto simp: prod_eq_iff)
  with ready show ?case by simp
next
  case (Suc n)
  then obtain k h' where "fuel = Suc k" "n < k" "hs_poll rt h = (Pending, h')" "handshake_ends rt n h' s"
    by (cases fuel) (auto simp: prod_eq_iff)
  with pending Suc.IH show ?case by simp
qed

lemma await_client:
  assumes "handshake_ends rt n h s" and "n < fuel"
  shows "await_with fuel (braid_future_poll rt info ops new_tls)
      (BF_Tls (TF_Handshake (Tls \<lparr>ct_state = Handshake h, ct_info = i, ct_tls = None\<rparr>))) =
    Return (Inr \<lparr>ts_stream = Tls \<lparr>ct_state = Streaming s, ct_info = i, ct_tls = Some (sess_info rt s)\<rparr>, ts_info = i,
      ts_tls = Some (sess_info rt s)\<rparr>, BF_Tls TF_Invalid)"
  by (rule await_handshake [OF _ _ assms,
        where wrap = "\<lambda>h. BF_Tls (TF_Handshake (Tls \<lparr>ct_state = Handshake h, ct_info = i, ct_tls = None\<rparr>))"])
    (simp_all add: tls_future_handshake_def client_stream_handshake_def client_poll_handshake_def client_handshake_def)

lemma await_server:
  assumes "handshake_ends rt n h s" and "n < fuel"
  shows "await_with fuel (server_stream_handshake rt)
      \<lparr>ss_info = i, ss_inner = Tls \<lparr>st_state = Handshake h, st_channel = ch\<rparr>\<rparr> =
    Return (Inr (), \<lparr>ss_info = i, ss_inner = Tls \<lparr>st_state = Streaming s, st_channel = tls_send (sess_info rt s) ch\<rparr>\<rparr>)"
  by (rule await_handshake [OF _ _ assms,
        where wrap = "\<lambda>h. \<lparr>ss_info = i, ss_inner = Tls \<lparr>st_state = Handshake h, st_channel = ch\<rparr>\<rparr>"])
    (simp_all add: server_stream_handshake_def server_poll_handshake_def server_handshake_def)

section \<open>Meeting\<close>

definition pipe_ends :: "('h, 's, 'g, 't, 'n, 'cc, 'sc, 'io) tls_peers \<Rightarrow> 'io duplex_stream \<times> 'io duplex_stream" where
  "pipe_ends p = duplex_stream_new (tp_pipes p) 0 1024"

text \<open>
  What is asked of rustls: the name is valid, a handshake that has begun gives access to its
  stream, and both handshakes end within the fuel.
\<close>

definition peers_agree ::
  "('h, 's, 'g, 't, 'n, 'cc, 'sc, 'io) tls_peers \<Rightarrow> nat \<Rightarrow> 'cc \<Rightarrow> 'sc \<Rightarrow> string \<Rightarrow> 's \<Rightarrow> 't \<Rightarrow> bool" where
  "peers_agree p fuel cc sc host s t \<longleftrightarrow>
     (\<exists>name n m. tp_name p host = Some name \<and> n < fuel \<and> m < fuel \<and>
        hs_get_ref (tp_client p) (tp_connect p cc name (fst (pipe_ends p))) = Some (fst (pipe_ends p)) \<and>
        hs_get_ref (tp_server p) (tp_accept p sc (Braid_Duplex (snd (pipe_ends p)))) = Some (Braid_Duplex (snd (pipe_ends p))) \<and>
        handshake_ends (tp_client p) n (tp_connect p cc name (fst (pipe_ends p))) s \<and>
        handshake_ends (tp_server p) m (tp_accept p sc (Braid_Duplex (snd (pipe_ends p)))) t)"

definition dial_info :: "duplex_addr connection_info" where
  "dial_info = \<lparr>local_addr = (), remote_addr = (), buffer_size = Some 1024\<rparr>"

lemma ends_info: "duplex_info (fst (pipe_ends p)) = dial_info" "duplex_info (snd (pipe_ends p)) = dial_info"
  by (simp_all add: pipe_ends_def duplex_ops duplex_info_def dial_info_def Let_def split: prod.splits)

abbreviation connecting_on :: "'io dialing \<Rightarrow> 'cc \<Rightarrow> string \<Rightarrow> ('h, 's, 'cc, 'io) tls_dialing" where
  "connecting_on d config host \<equiv> BF_Tls (TF_Connecting d config host)"

lemma dial_sends:
  assumes "dn_open net" and "length (dn_queue net) < channel_capacity"
  shows "\<exists>net'. dialing_poll p (connecting_on (Start n, net) config host) = (Pending, connecting_on (Awaiting (dn_next net), net') config host) \<and>
    dn_queue net' = dn_queue net @ [\<lparr>dr_ack = dn_next net, dr_size = n\<rparr>] \<and> dn_cells net' (dn_next net) = Empty \<and>
    dn_pipes net' = dn_pipes net"
  using assms
  by (auto simp: dialing_poll_def net_transport_def net_fpoll_def duplex_transport_poll_def connect_send_def connect_await_def
      request_new_def)

lemma accept_answers:
  assumes "dn_queue net = [\<lparr>dr_ack = c, dr_size = n\<rparr>]" and "dn_cells net c = Empty" and "dn_pipes net = k"
    and "hs_get_ref (tp_server p) (tp_accept p sc (Braid_Duplex (snd (duplex_stream_new (tp_pipes p) k n)))) =
      Some (Braid_Duplex (snd (duplex_stream_new (tp_pipes p) k n)))"
  shows "\<exists>acc net'. net_poll_accept p (Acc_Tls sc (Braid_Duplex (incoming_new, net))) =
      (Ready (Inr \<lparr>ss_info = end_info (Braid_Duplex (snd (duplex_stream_new (tp_pipes p) k n))),
         ss_inner = Tls (server_tls_new (tp_accept p sc (Braid_Duplex (snd (duplex_stream_new (tp_pipes p) k n)))))\<rparr>), acc) \<and>
    acceptor_net acc = Some net' \<and> dn_cells net' c = Full (fst (duplex_stream_new (tp_pipes p) k n))"
proof -
  obtain a b where e: "duplex_stream_new (tp_pipes p) k n = (a, b)" by fastforce
  show ?thesis
    using assms unfolding e
    by (simp add: net_poll_accept_def tls_poll_accept_def net_accept_def duplex_poll_accept_def poll_recv_def request_ack_def
        incoming_new_def e server_stream_from_tls_def server_tls_info_def server_tls_new_def acceptor_net_def Let_def)
qed

lemma dial_shakes:
  assumes "dn_cells net c = Full io" and "tp_name p host = Some name"
    and "hs_get_ref (tp_client p) (tp_connect p cc name io) = Some io"
  shows "dialing_poll p (connecting_on (Awaiting c, net) cc host) =
    dialing_poll p (BF_Tls (TF_Handshake
      (Tls \<lparr>ct_state = Handshake (tp_connect p cc name io), ct_info = duplex_info io, ct_tls = None\<rparr>)))"
  using assms
  by (simp add: dialing_poll_def net_transport_def net_fpoll_def duplex_transport_poll_def connect_await_def
      transport_stream_new_def tls_client_new_def client_tls_new_def client_tls_from_def client_stream_new_def ok_or_def Let_def)

lemma await_poll_eq: "poll f = poll g \<Longrightarrow> await_with fuel poll f = await_with fuel poll g"
  by (cases fuel) simp_all

text \<open>A client that dials with TLS and a server that accepts with TLS meet: both end up with a
  stream over the session of their handshake, on the two ends of one pipe.\<close>

lemma tls_meet:
  fixes p :: "('h, 's, 'g, 't, 'n, 'cc, 'sc, 'io) tls_peers"
  assumes "peers_agree p fuel cc sc host s t" and "\<And>net. start net = connecting_on (Start 1024, client net) cc host"
    and "\<And>net. dn_queue (client net) = dn_queue net \<and> dn_open (client net) = dn_open net \<and> dn_next (client net) = dn_next net \<and>
      dn_pipes (client net) = dn_pipes net"
  shows "tls_join p fuel sc start =
    Return (\<lparr>ts_stream = Tls \<lparr>ct_state = Streaming s, ct_info = dial_info, ct_tls = Some (sess_info (tp_client p) s)\<rparr>,
              ts_info = dial_info, ts_tls = Some (sess_info (tp_client p) s)\<rparr>,
            \<lparr>ss_info = end_info (Braid_Duplex (snd (pipe_ends p))),
              ss_inner = Tls \<lparr>st_state = Streaming t, st_channel = tls_send (sess_info (tp_server p) t) tls_channel_new\<rparr>\<rparr>)"
proof -
  obtain name n m where name: "tp_name p host = Some name" and fuel: "n < fuel" "m < fuel"
    and ref: "hs_get_ref (tp_client p) (tp_connect p cc name (fst (pipe_ends p))) = Some (fst (pipe_ends p))"
      "hs_get_ref (tp_server p) (tp_accept p sc (Braid_Duplex (snd (pipe_ends p)))) = Some (Braid_Duplex (snd (pipe_ends p)))"
    and ends: "handshake_ends (tp_client p) n (tp_connect p cc name (fst (pipe_ends p))) s"
      "handshake_ends (tp_server p) m (tp_accept p sc (Braid_Duplex (snd (pipe_ends p)))) t"
    using assms(1) unfolding peers_agree_def by blast
  obtain net0 :: "'io duplex_net" where pair: "duplex_pair = (net0, incoming_new)" by (simp add: duplex_pair_def)
  let ?net = "client net0"
  have net: "dn_queue ?net = []" "dn_open ?net" "dn_next ?net = 0" "dn_pipes ?net = 0"
    using assms(3) [of net0] pair by (auto simp: duplex_pair_def)
  obtain net1 where dial: "dialing_poll p (connecting_on (Start 1024, ?net) cc host) = (Pending, connecting_on (Awaiting 0, net1) cc host)"
    and net1: "dn_queue net1 = [\<lparr>dr_ack = 0, dr_size = 1024\<rparr>]" "dn_cells net1 0 = Empty" "dn_pipes net1 = 0"
    using dial_sends [of ?net p 1024 cc host] net by (auto simp: channel_capacity_def)
  obtain acc net2 where accept: "net_poll_accept p (Acc_Tls sc (Braid_Duplex (incoming_new, net1))) =
      (Ready (Inr \<lparr>ss_info = end_info (Braid_Duplex (snd (pipe_ends p))),
         ss_inner = Tls (server_tls_new (tp_accept p sc (Braid_Duplex (snd (pipe_ends p)))))\<rparr>), acc)"
    and net2: "acceptor_net acc = Some net2" "dn_cells net2 0 = Full (fst (pipe_ends p))"
    using accept_answers [OF net1, of p sc] ref(2) unfolding pipe_ends_def by blast
  note shakes = await_poll_eq [OF dial_shakes [OF net2(2) name ref(1)]]
  have client: "await_with fuel (dialing_poll p) (connecting_on (Awaiting 0, net2) cc host) =
      Return (Inr \<lparr>ts_stream = Tls \<lparr>ct_state = Streaming s, ct_info = dial_info, ct_tls = Some (sess_info (tp_client p) s)\<rparr>,
        ts_info = dial_info, ts_tls = Some (sess_info (tp_client p) s)\<rparr>, BF_Tls TF_Invalid)"
    unfolding shakes unfolding dialing_poll_def ends_info by (rule await_client [OF ends(1) fuel(1)])
  have server: "await_with fuel (server_stream_handshake (tp_server p))
      \<lparr>ss_info = end_info (Braid_Duplex (snd (pipe_ends p))),
        ss_inner = Tls (server_tls_new (tp_accept p sc (Braid_Duplex (snd (pipe_ends p)))))\<rparr> =
      Return (Inr (), \<lparr>ss_info = end_info (Braid_Duplex (snd (pipe_ends p))),
        ss_inner = Tls \<lparr>st_state = Streaming t, st_channel = tls_send (sess_info (tp_server p) t) tls_channel_new\<rparr>\<rparr>)"
    unfolding server_tls_new_def by (rule await_server [OF ends(2) fuel(2)])
  have again: "await_with fuel (client_stream_handshake (tp_client p))
      (Tls \<lparr>ct_state = Streaming s, ct_info = dial_info, ct_tls = i\<rparr>) =
      Return (Inr (), Tls \<lparr>ct_state = Streaming s, ct_info = dial_info, ct_tls = i\<rparr>)" for i
    using fuel by (cases fuel)
      (simp_all add: client_stream_handshake_def client_poll_handshake_def client_handshake_def)
  show ?thesis
    unfolding tls_join_def pair using dial accept net2(1)
    by (simp add: assms(2) net_acceptor_def acceptor_new_def finish_with_def client server again)
qed

lemma start_connecting:
  "use_tls u \<Longrightarrow> uri_host u = Some host \<Longrightarrow> tls_transport_start cc u net =
     connecting_on (Start 1024, net\<lparr>dn_senders := Suc (dn_senders net)\<rparr>) cc host"
  "uri_host u = Some host \<Longrightarrow> tls_wrapper_start cc u net =
     connecting_on (Start 1024, net\<lparr>dn_senders := Suc (dn_senders net)\<rparr>) cc host"
  by (simp_all add: tls_transport_start_def tls_wrapper_start_def tls_transport_new_def tls_wrapper_call_def net_transport_def
      net_connect_def duplex_transport_call_def duplex_transport_new_def)

lemma meet_transport:
  assumes "peers_agree p fuel cc sc host s t" and "use_tls u" and "uri_host u = Some host"
  shows "tls_join p fuel sc (tls_transport_start cc u) =
    Return (\<lparr>ts_stream = Tls \<lparr>ct_state = Streaming s, ct_info = dial_info, ct_tls = Some (sess_info (tp_client p) s)\<rparr>,
              ts_info = dial_info, ts_tls = Some (sess_info (tp_client p) s)\<rparr>,
            \<lparr>ss_info = end_info (Braid_Duplex (snd (pipe_ends p))),
              ss_inner = Tls \<lparr>st_state = Streaming t, st_channel = tls_send (sess_info (tp_server p) t) tls_channel_new\<rparr>\<rparr>)"
  by (rule tls_meet [OF assms(1), where client = "\<lambda>net. net\<lparr>dn_senders := Suc (dn_senders net)\<rparr>"])
    (simp_all add: start_connecting assms)

lemma meet_wrapper:
  assumes "peers_agree p fuel cc sc host s t" and "uri_host u = Some host"
  shows "\<exists>stream conn. tls_join p fuel sc (tls_wrapper_start cc u) = Return (stream, conn) \<and>
    ts_tls stream = Some (sess_info (tp_client p) s)"
proof -
  note meet = tls_meet [OF assms(1), where start = "tls_wrapper_start cc u" and client = "\<lambda>net. net\<lparr>dn_senders := Suc (dn_senders net)\<rparr>"]
  show ?thesis by (subst meet) (simp_all add: start_connecting assms)
qed

lemma sent_recv: "tls_recv (tls_send i tls_channel_new) = (Ready (Some i), \<lparr>tc_cell = Taken, tc_tx = False, tc_rx = Tls_Received i\<rparr>)"
  by (simp add: tls_recv_def tls_send_def tls_channel_new_def)

lemma calling_poll: "fst (tls_calling_poll fpoll f) = fst (fpoll f)"
  by (simp add: tls_calling_poll_def split: prod.splits poll.splits)

lemma tls_tests_pass:
  assumes "peers_agree p fuel cc sc host s t" and "use_tls u" and "uri_host u = Some host"
  shows "tls_client_server p fuel cc sc u = Return ()" and "test_tls_server_info p fuel cc sc u = Return ()"
    and "alpn (sess_info (tp_client p) s) = Some (Http HTTP_2) \<Longrightarrow> test_tls_transport_wrapper p fuel cc sc u = Return ()"
  using meet_wrapper [OF assms(1,3)]
  by (auto simp: tls_client_server_def test_tls_server_info_def test_tls_transport_wrapper_def meet_transport [OF assms]
      shared_maker_def ok_service_def ok_future_def make_tls_connection_info_def make_tls_call_def service_ref_call_def
      tls_connection_call_def tls_info_service_def conn_channel_def sent_recv tls_calling_poll_def tls_request_def)

text \<open>C15: A client that dials an https URI through a transport with TLS, and a server that accepts
  with TLS, meet over one pipe, however often their handshakes have to wait: both hold a stream over the
  session of their handshake, the client knows its TLS information when its future is ready,
  and a request on the server's side is given the server's before the service is called.\<close>

theorem tls_end_to_end:
  assumes "peers_agree p fuel cc sc host s t" and "use_tls u" and "uri_host u = Some host"
  shows "\<exists>stream conn ct st. tls_join p fuel sc (tls_transport_start cc u) = Return (stream, conn) \<and>
    ts_stream stream = Tls ct \<and> ct_state ct = Streaming s \<and> ts_tls stream = Some (sess_info (tp_client p) s) \<and>
    ss_inner conn = Tls st \<and> st_state st = Streaming t \<and> remote_addr (ss_info conn) = Addr_Duplex \<and>
    fst (tls_request_poll svc (Tls_Waiting () inner req) (\<lambda>_. conn_channel conn)) =
      fst (s_fpoll svc (fst (s_call svc inner (req\<lparr>rq_tls := Some (sess_info (tp_server p) t)\<rparr>))))"
  by (simp add: meet_transport [OF assms] conn_channel_def sent_recv calling_poll end_info_def info_map_def split_beta Let_def)

definition stub_io :: "('s, io_kind) aio" where
  "stub_io = \<lparr>a_read = \<lambda>n s. (Pending, s), a_write = \<lambda>bs s. (Pending, s), a_flush = \<lambda>s. (Ready (Inr ()), s),
     a_shutdown = \<lambda>s. (Ready (Inr ()), s), a_is_vectored = \<lambda>_. False, a_write_vectored = \<lambda>bufs s. (Pending, s)\<rparr>"

text \<open>Handshakes that wait a number of polls.\<close>

definition waiting_rustls :: "tls_info \<Rightarrow> (nat \<times> 'io, 'io, 'io) rustls" where
  "waiting_rustls i =
     \<lparr>hs_poll = \<lambda>(n, io). (case n of 0 \<Rightarrow> (Ready (Inr io), (0, io)) | Suc k \<Rightarrow> (Pending, (k, io))),
      hs_get_ref = \<lambda>(n, io). Some io, sess_get_ref = id, sess_info = \<lambda>_. i, sess_io = stub_io\<rparr>"

definition example_peers ::
  "(nat \<times> nat duplex_stream, nat duplex_stream, nat \<times> nat server_end, nat server_end, string, unit, unit, nat) tls_peers" where
  "example_peers =
     \<lparr>tp_client = waiting_rustls (tls_named None), tp_server = waiting_rustls (tls_named (Some ''example.com'')),
      tp_name = \<lambda>domain. Some domain, tp_connect = \<lambda>cc name io. (2 :: nat, io), tp_accept = \<lambda>sc io. (1 :: nat, io),
      tp_pipes = \<lambda>k (n :: usize). (2 * k, 2 * k + 1 :: nat)\<rparr>"

theorem tls_end_to_end_witness:
  "\<exists>stream conn. tls_join example_peers 3 () (tls_transport_start ()
      \<lparr>u_scheme = Some ''https'', u_authority = Some \<lparr>au_text = ''example.com'', au_host = ''example.com'', au_port = None\<rparr>,
       u_path = Some ''/''\<rparr>) = Return (stream, conn) \<and> ts_tls stream = Some (tls_named None) \<and>
    fst (tls_request_poll tls_info_service (Tls_Waiting () () (tls_request :: (unit body, unit) info_request))
      (\<lambda>_. conn_channel conn)) = Ready (Inr \<lparr>rs_status = 200, rs_headers = [], rs_body = ()\<rparr>)"
proof -
  let ?u = "\<lparr>u_scheme = Some ''https'', u_authority = Some \<lparr>au_text = ''example.com'', au_host = ''example.com'', au_port = None\<rparr>,
       u_path = Some ''/''\<rparr>"
  have agree: "peers_agree example_peers 3 () () ''example.com'' (fst (pipe_ends example_peers)) (Braid_Duplex (snd (pipe_ends example_peers)))"
    unfolding peers_agree_def
    by (rule exI [of _ "''example.com''"], rule exI [of _ 2], rule exI [of _ 1])
      (simp add: example_peers_def waiting_rustls_def numeral_2_eq_2)
  have u: "use_tls ?u" "uri_host ?u = Some ''example.com''" by (simp_all add: use_tls_def uri_host_def)
  from tls_end_to_end [OF agree u, of tls_info_service "()" "tls_request :: (unit body, unit) info_request"]
  show ?thesis
    by - (elim exE conjE, intro exI conjI, assumption, simp add: example_peers_def waiting_rustls_def, erule trans,
      simp add: example_peers_def waiting_rustls_def tls_info_service_def ok_future_def tls_request_def)
qed

end
