(* ===== verification/Protocol_Tests.thy ===== *)
theory Protocol_Tests
  imports Client_Proto Formatting Server_Tests
begin

text \<open>
  The unit tests of the client's automatic protocol (client/conn/protocol/auto.rs) over the model.
  Hyper's handshakes and senders are parameters: what a test needs of them is that the
  handshake it asks for is ready at once with a sender that is ready.
\<close>

type_synonym 'io test_stream_io = "(unit, 'io duplex_stream, unit) braid"

type_synonym ('h, 's, 'io) test_client = "('h, 's, braid_addr, 'io test_stream_io) client_stream"

definition stream_end_info :: "'io test_stream_io \<Rightarrow> braid_addr connection_info" where
  "stream_end_info b = (case b of Braid_Duplex d \<Rightarrow> info_map (\<lambda>_. Addr_Duplex) (duplex_info d) | _ \<Rightarrow> info_default Addr_Duplex)"

text \<open>\<open>transport()\<close>: both ends of a pipe, the client's in a \<open>TransportStream\<close>.\<close>

definition transport_pair ::
  "('h, 's, 'io test_stream_io) rustls \<Rightarrow> (nat \<Rightarrow> usize \<Rightarrow> 'io \<times> 'io)
     \<Rightarrow> ((('h, 's, 'io) test_client, braid_addr) transport_stream \<times> ('h, 's, 'io) test_client) run" where
  "transport_pair rt mk =
     (let (net, incoming) = duplex_pair; (r, c, net) = connect_poll (Start 1024) net in
      run_bind (assert_that (r = Pending)) (\<lambda>_.
      let (next, net) = duplex_poll_next mk incoming net in
      run_bind (run_bind (await_poll next) unwrap) (\<lambda>accepted.
      run_bind (expect accepted) (\<lambda>rx.
      run_bind (run_bind (await_poll (fst (connect_poll c net))) expect) (\<lambda>stream.
      run_bind (run_bind (await_poll (fst (transport_new_stream rt stream_end_info (client_stream_from_duplex stream)))) expect) (\<lambda>tx.
      Return (tx, client_stream_from_duplex rx)))))))"

text \<open>\<open>builder.connect(stream, protocol).await.unwrap()\<close>\<close>

definition builder_connect ::
  "('b1, 'c, 'f1, 'h1, 'd, 'e) hyper_conn \<Rightarrow> ('b2, 'c, 'f2, 'h2, 'd, 'e) hyper_conn \<Rightarrow> ('b1, 'b2) Client_Proto.http_builder
     \<Rightarrow> ('c, braid_addr) transport_stream \<Rightarrow> http_proto \<Rightarrow> ('h1, 'h2) http_connection run" where
  "builder_connect hy1 hy2 builder stream protocol =
     (let (f, _) = http_builder_call builder \<lparr>pr_transport = stream, pr_version = protocol\<rparr> in
      run_bind (await_poll (fst (http_connect_poll hy1 hy2 f))) expect)"

definition conn_is ::
  "('h1 \<Rightarrow> bool) \<Rightarrow> ('h2 \<Rightarrow> bool) \<Rightarrow> bool \<Rightarrow> version \<Rightarrow> string \<Rightarrow> ('h1, 'h2) http_connection \<Rightarrow> unit run" where
  "conn_is ready1 ready2 shared v dbg conn =
     run_bind (assert_that (http_is_open ready1 ready2 conn)) (\<lambda>_.
     run_bind (assert_that (http_can_share conn = shared)) (\<lambda>_.
     run_bind (assert_that (http_version conn = v)) (\<lambda>_.
     run_bind (assert_that ((http_reuse conn \<noteq> None) = shared)) (\<lambda>_.
     assert_that (http_connection_debug conn = dbg)))))"

text \<open>The tests up to the request, whose bytes are hyper's.\<close>

definition http_connector_request_h1 ::
  "('h, 's, 'io test_stream_io) rustls \<Rightarrow> (nat \<Rightarrow> usize \<Rightarrow> 'io \<times> 'io)
     \<Rightarrow> ('b1, ('h, 's, 'io) test_client, 'f1, 'h1, 'd, 'e) hyper_conn \<Rightarrow> ('b2, ('h, 's, 'io) test_client, 'f2, 'h2, 'd, 'e) hyper_conn
     \<Rightarrow> ('h1 \<Rightarrow> ('e + unit) poll) \<Rightarrow> ('h2 \<Rightarrow> ('e + unit) poll) \<Rightarrow> ('h1 \<Rightarrow> bool) \<Rightarrow> ('h2 \<Rightarrow> bool) \<Rightarrow> 'b1 \<Rightarrow> 'b2 \<Rightarrow> unit run" where
  "http_connector_request_h1 rt mk hy1 hy2 rdy1 rdy2 ready1 ready2 b1 b2 =
     (let builder = http_builder_default b1 b2 in
      run_bind (transport_pair rt mk) (\<lambda>(stream, rx).
      run_bind (builder_connect hy1 hy2 builder stream http_proto.Http1) (\<lambda>conn.
      run_bind (run_bind (await_poll (http_poll_ready rdy1 rdy2 conn)) expect) (\<lambda>_.
      conn_is ready1 ready2 False HTTP_11 ''HttpConnection { version: HTTP/1.1 }'' conn))))"

definition http_connector_request_h2 ::
  "('h, 's, 'io test_stream_io) rustls \<Rightarrow> (nat \<Rightarrow> usize \<Rightarrow> 'io \<times> 'io)
     \<Rightarrow> ('b1, ('h, 's, 'io) test_client, 'f1, 'h1, 'd, 'e) hyper_conn \<Rightarrow> ('b2, ('h, 's, 'io) test_client, 'f2, 'h2, 'd, 'e) hyper_conn
     \<Rightarrow> ('h1 \<Rightarrow> ('e + unit) poll) \<Rightarrow> ('h2 \<Rightarrow> ('e + unit) poll) \<Rightarrow> ('h1 \<Rightarrow> bool) \<Rightarrow> ('h2 \<Rightarrow> bool) \<Rightarrow> 'b1 \<Rightarrow> 'b2 \<Rightarrow> unit run" where
  "http_connector_request_h2 rt mk hy1 hy2 rdy1 rdy2 ready1 ready2 b1 b2 =
     (let builder = http_builder_default b1 b2 in
      run_bind (transport_pair rt mk) (\<lambda>(stream, rx).
      run_bind (builder_connect hy1 hy2 builder stream http_proto.Http2) (\<lambda>conn.
      run_bind (run_bind (await_poll (http_poll_ready rdy1 rdy2 conn)) expect) (\<lambda>_.
      conn_is ready1 ready2 True HTTP_2 ''HttpConnection { version: HTTP/2.0 }'' conn))))"

text \<open>The ALPN protocol of the stream makes an HTTP/2 connection of one that asked for HTTP/1.\<close>

definition http_connector_alpn_h2 ::
  "('h, 's, 'io test_stream_io) rustls \<Rightarrow> (nat \<Rightarrow> usize \<Rightarrow> 'io \<times> 'io)
     \<Rightarrow> ('b1, ('h, 's, 'io) test_client, 'f1, 'h1, 'd, 'e) hyper_conn \<Rightarrow> ('b2, ('h, 's, 'io) test_client, 'f2, 'h2, 'd, 'e) hyper_conn
     \<Rightarrow> ('h1 \<Rightarrow> bool) \<Rightarrow> ('h2 \<Rightarrow> bool) \<Rightarrow> 'b1 \<Rightarrow> 'b2 \<Rightarrow> unit run" where
  "http_connector_alpn_h2 rt mk hy1 hy2 ready1 ready2 b1 b2 =
     run_bind (transport_pair rt mk) (\<lambda>(stream, client).
     let builder = http_builder_default b1 b2; inner = ts_stream stream;
         tls = \<lparr>server_name = None, validated_server_name = False, alpn = Some (Http HTTP_2)\<rparr>;
         stream = transport_stream_new (client_stream_info stream_end_info) inner (Some tls) in
     run_bind (run_bind (await_poll (fst (client_stream_handshake rt client))) expect) (\<lambda>_.
     run_bind (builder_connect hy1 hy2 builder stream http_proto.Http1) (\<lambda>conn.
     conn_is ready1 ready2 True HTTP_2 ''HttpConnection { version: HTTP/2.0 }'' conn)))"

section \<open>They pass\<close>

text \<open>Hyper's handshake with a builder is ready on every stream, with a sender that is ready.\<close>

definition shakes_at_once :: "('b, 'c, 'f, 'h, 'd, 'e) hyper_conn \<Rightarrow> ('h \<Rightarrow> bool) \<Rightarrow> 'b \<Rightarrow> bool" where
  "shakes_at_once hy ready b \<longleftrightarrow> (\<forall>io. \<exists>sender driver f. hc_poll hy (hc_handshake hy b io) = (Ready (Inr (sender, driver)), f) \<and> ready sender)"

lemma pair_made:
  "\<exists>stream rx. transport_pair rt mk = Return (stream, rx) \<and> ts_tls stream = None \<and> (\<exists>io. rx = NoTls io)"
  by (cases "mk 0 1024") (simp add: transport_pair_def duplex_ops transport_new_stream_def client_stream_handshake_def
      client_stream_from_duplex_def Let_def)

lemma connects:
  assumes "shakes_at_once hy1 ready1 b1" and "shakes_at_once hy2 ready2 b2"
  shows "\<exists>conn. builder_connect hy1 hy2 (http_builder_default b1 b2) stream protocol = Return conn \<and> http_is_open ready1 ready2 conn \<and>
    (if protocol = http_proto.Http2 \<or> alpn_h2 stream then \<exists>h. conn = H2 h else \<exists>h. conn = H1 h)"
proof (cases "protocol = http_proto.Http2 \<or> alpn_h2 stream")
  case True
  moreover obtain h d f where "hc_poll hy2 (hc_handshake hy2 b2 (ts_stream stream)) = (Ready (Inr (h, d)), f)" "ready2 h"
    using assms(2) unfolding shakes_at_once_def by blast
  ultimately show ?thesis
    by (cases protocol) (auto simp: builder_connect_def http_builder_call_def http_builder_default_def http_handshake_def handshake_h2_def)
next
  case False
  moreover obtain h d f where "hc_poll hy1 (hc_handshake hy1 b1 (ts_stream stream)) = (Ready (Inr (h, d)), f)" "ready1 h"
    using assms(1) unfolding shakes_at_once_def by blast
  ultimately show ?thesis
    by (cases protocol) (auto simp: builder_connect_def http_builder_call_def http_builder_default_def http_handshake_def handshake_h1_def)
qed

lemma protocol_tests_pass:
  assumes "shakes_at_once hy1 ready1 b1" and "shakes_at_once hy2 ready2 b2"
    and "\<And>h. ready1 h \<Longrightarrow> rdy1 h = Ready (Inr ())" and "\<And>h. ready2 h \<Longrightarrow> rdy2 h = Ready (Inr ())"
  shows "http_connector_request_h1 rt mk hy1 hy2 rdy1 rdy2 ready1 ready2 b1 b2 = Return ()"
    and "http_connector_request_h2 rt mk hy1 hy2 rdy1 rdy2 ready1 ready2 b1 b2 = Return ()"
    and "http_connector_alpn_h2 rt mk hy1 hy2 ready1 ready2 b1 b2 = Return ()"
proof -
  obtain stream rx where made: "transport_pair rt mk = Return (stream, rx)" "ts_tls stream = None" "\<exists>io. rx = NoTls io"
    using pair_made by blast
  let ?c = "\<lambda>s p. builder_connect hy1 hy2 (http_builder_default b1 b2) s p"
  have h1: "\<exists>h. ?c stream http_proto.Http1 = Return (H1 h) \<and> ready1 h"
    using connects [OF assms(1,2), of stream http_proto.Http1] made(2) by (auto simp: alpn_h2_def)
  have h2: "\<exists>h. ?c s p = Return (H2 h) \<and> ready2 h" if "p = http_proto.Http2 \<or> alpn_h2 s" for s p
    using connects [OF assms(1,2), of s p] that by auto
  have "alpn_h2 (transport_stream_new (client_stream_info stream_end_info) (ts_stream stream)
      (Some \<lparr>server_name = None, validated_server_name = False, alpn = Some (Http HTTP_2)\<rparr>))"
    by (simp add: alpn_h2_def transport_stream_new_def)
  note shared = h2 [OF disjI1 [OF refl], of stream] h2 [OF disjI2 [OF this], of http_proto.Http1]
  show "http_connector_request_h1 rt mk hy1 hy2 rdy1 rdy2 ready1 ready2 b1 b2 = Return ()"
    using h1 made(1) assms(3)
    by (auto simp: http_connector_request_h1_def http_poll_ready_def conn_is_def http_connection_debug_def debug_struct_def)
  show "http_connector_request_h2 rt mk hy1 hy2 rdy1 rdy2 ready1 ready2 b1 b2 = Return ()"
    using shared(1) made(1) assms(4)
    by (auto simp: http_connector_request_h2_def http_poll_ready_def conn_is_def http_connection_debug_def debug_struct_def)
  show "http_connector_alpn_h2 rt mk hy1 hy2 ready1 ready2 b1 b2 = Return ()"
    using shared(2) made(1,3)
    by (auto simp: http_connector_alpn_h2_def conn_is_def http_connection_debug_def debug_struct_def client_stream_handshake_def Let_def)
qed

end
