(* ===== verification/Messages.thy ===== *)
theory Messages
  imports Client_Service Registry_Transport Server_Info Auto_Server Tcp
begin

text \<open>
  The messages of the errors and their sources: \<open>Display\<close> and \<open>Error::source\<close> as the sources
  write them, by hand or by the attributes of thiserror. An error is seen as its message and
  the error it names as its source; what is not of this repository is seen so by a parameter.
  A transparent variant is its payload, and a field is a source only where it is marked so.
\<close>

section \<open>Errors as they are shown\<close>

datatype shown = Shown (message: string) (source: "shown option")

text \<open>The messages a logger prints that follows the sources.\<close>

fun chain :: "shown \<Rightarrow> string list" where
  "chain (Shown m None) = [m]"
| "chain (Shown m (Some s)) = m # chain s"

definition leaf :: "string \<Rightarrow> shown" where
  "leaf m = Shown m None"

definition caused :: "string \<Rightarrow> shown \<Rightarrow> shown" where
  "caused m s = Shown m (Some s)"

text \<open>\<open>#[error("prefix: {0}")]\<close> with and without the field as the source.\<close>

definition prefixed :: "string \<Rightarrow> shown \<Rightarrow> shown" where
  "prefixed p s = caused (p @ '': '' @ message s) s"

definition prefixed_only :: "string \<Rightarrow> shown \<Rightarrow> shown" where
  "prefixed_only p s = leaf (p @ '': '' @ message s)"

section \<open>The client\<close>

fun uri_error_shown :: "shown \<Rightarrow> (uri \<Rightarrow> string) \<Rightarrow> uri_error \<Rightarrow> shown" where
  "uri_error_shown invalid show_uri InvalidUri = prefixed ''invalid uri'' invalid"
| "uri_error_shown invalid show_uri (MissingScheme u) = leaf (''missing scheme in uri: '' @ show_uri u)"

text \<open>\<open>ConnectionError\<close> (client/conn/connection.rs); \<open>of_uri\<close> shows the error of a URI.\<close>

fun conn_error_shown :: "('x \<Rightarrow> shown) \<Rightarrow> (uri_error \<Rightarrow> shown) \<Rightarrow> 'x conn_error \<Rightarrow> shown" where
  "conn_error_shown view of_uri (Connect_Failed e) = view e"
| "conn_error_shown view of_uri (Handshake_Failed e) = prefixed ''handshake'' (view e)"
| "conn_error_shown view of_uri (Canceled e) = caused ''connection cancelled'' (view e)"
| "conn_error_shown view of_uri (Conn_Closed e) = caused ''connection closed'' (view e)"
| "conn_error_shown view of_uri Conn_Timeout = leaf ''connection timeout''"
| "conn_error_shown view of_uri (Invalid_Uri e) = caused ''invalid URI'' (of_uri e)"

fun boxed_shown :: "('x conn_error \<Rightarrow> shown) \<Rightarrow> ('h \<Rightarrow> shown) \<Rightarrow> ('x, 'h) boxed_error \<Rightarrow> shown" where
  "boxed_shown of_conn of_hyper (Box_Connection e) = of_conn e"
| "boxed_shown of_conn of_hyper (Box_Sender h) = of_hyper h"
| "boxed_shown of_conn of_hyper (Box_Text t) = leaf t"

text \<open>\<open>client::Error\<close>: only the variant \<open>Connection\<close>, which is transparent, passes a source on.\<close>

fun client_error_shown :: "('x conn_error \<Rightarrow> shown) \<Rightarrow> ('h \<Rightarrow> shown) \<Rightarrow> ('x, 'h) client_error \<Rightarrow> shown" where
  "client_error_shown of_conn of_hyper (Error_Connection e) = boxed_shown of_conn of_hyper e"
| "client_error_shown of_conn of_hyper (Error_Transport e) = prefixed_only ''transport'' (boxed_shown of_conn of_hyper e)"
| "client_error_shown of_conn of_hyper (Error_Protocol e) = prefixed_only ''protocol'' (boxed_shown of_conn of_hyper e)"
| "client_error_shown of_conn of_hyper (Error_User h) = prefixed_only ''user error'' (of_hyper h)"
| "client_error_shown of_conn of_hyper (InvalidMethod m) = leaf (''invalid method: '' @ m)"
| "client_error_shown of_conn of_hyper UnsupportedProtocol = leaf ''unsupported protocol''"

text \<open>\<open>TlsConnectionError\<close> (client/conn/transport/mod.rs) and \<open>TcpConnectionError\<close> (tcp.rs).\<close>

fun tls_error_shown :: "('e \<Rightarrow> shown) \<Rightarrow> (io_kind \<Rightarrow> shown) \<Rightarrow> 'e tls_connection_error \<Rightarrow> shown" where
  "tls_error_shown view of_io (Connection_Error e) = view e"
| "tls_error_shown view of_io (Handshake_Error k) = prefixed ''TLS handshake failed'' (of_io k)"
| "tls_error_shown view of_io NoDomain = leaf ''No domain found in URI''"
| "tls_error_shown view of_io TlsDisabled = leaf ''TLS is not enabled, can't connect to https''"

definition tcp_error_shown :: "(tcp_source \<Rightarrow> shown) \<Rightarrow> tcp_error \<Rightarrow> shown" where
  "tcp_error_shown view e = Shown (tcp_error_display (message \<circ> view) e) (map_option view (te_source e))"

fun happy_error_display :: "('e \<Rightarrow> string) \<Rightarrow> 'e happy_error \<Rightarrow> string" where
  "happy_error_display view NoProgress = ''no progress can be made''"
| "happy_error_display view (Attempt_Error e) = ''error: '' @ view e"
| "happy_error_display view (Timeout d) = ''timeout: '' @ decimal (d div 10 ^ 6) @ ''ms''"

section \<open>The server\<close>

fun server_error_shown :: "('e \<Rightarrow> shown) \<Rightarrow> (io_kind \<Rightarrow> shown) \<Rightarrow> 'e server_error \<Rightarrow> shown" where
  "server_error_shown view of_io (Accept_Error e) = prefixed ''accept error'' (view e)"
| "server_error_shown view of_io (Server_Io k) = of_io k"
| "server_error_shown view of_io (MakeService_Error e) = prefixed ''make service'' (view e)"

text \<open>\<open>ConnectionError\<close> of server/conn/mod.rs; the boxed error of a service is its text here.\<close>

fun connection_error_shown :: "('h \<Rightarrow> shown) \<Rightarrow> (io_kind \<Rightarrow> shown) \<Rightarrow> 'h connection_error \<Rightarrow> shown" where
  "connection_error_shown of_hyper of_io (Hyper h) = of_hyper h"
| "connection_error_shown of_hyper of_io (Service_Error e) = prefixed ''service'' (leaf e)"
| "connection_error_shown of_hyper of_io (Protocol_Error k) = prefixed ''protocol'' (of_io k)"

fun sni_error_shown :: "('e \<Rightarrow> shown) \<Rightarrow> 'e sni_error \<Rightarrow> shown" where
  "sni_error_shown view (Sni_Inner e) = view e"
| "sni_error_shown view (SNI e) = leaf (validate_sni_display e)"

section \<open>Discovery (discovery/mod.rs)\<close>

definition bind_error_shown :: "(io_kind \<Rightarrow> shown) \<Rightarrow> bind_error \<Rightarrow> shown" where
  "bind_error_shown of_io e = Shown (bind_error_display (message \<circ> of_io) e) (map_option of_io (bind_error_source e))"

fun registry_error_shown :: "(uri \<Rightarrow> string) \<Rightarrow> (io_kind \<Rightarrow> string) \<Rightarrow> (io_kind \<Rightarrow> shown) \<Rightarrow> shown \<Rightarrow> registry_error \<Rightarrow> shown" where
  "registry_error_shown show_uri show_kind of_io elapsed (InvalidName n) = leaf (''Invalid name: '' @ n)"
| "registry_error_shown show_uri show_kind of_io elapsed (ConnectionTimeout n) = caused (''Connection to '' @ n @ '' timed out'') elapsed"
| "registry_error_shown show_uri show_kind of_io elapsed (Invalid_Service_Uri u) = leaf (''Invalid URI: '' @ show_uri u)"
| "registry_error_shown show_uri show_kind of_io elapsed (Handshake_With e n) = caused (''Handshake with '' @ n) (of_io e)"
| "registry_error_shown show_uri show_kind of_io elapsed (Duplex_Error e n) =
     caused (''Error '' @ show_kind e @ '' connecting to '' @ n @ '' over a duplex socket'') (of_io e)"
| "registry_error_shown show_uri show_kind of_io elapsed (Unix_Error e path n) =
     caused (''Error '' @ show_kind e @ '' connecting to '' @ n @ '' at '' @ path) (of_io e)"

section \<open>What a caller of the client learns\<close>

text \<open>
  The error of a transport reaches the caller of the client as it is, with all its sources. The
  error of a handshake keeps its message and loses its sources.
\<close>

lemma client_error_sources:
  "chain (client_error_shown of_conn of_hyper (client_error_from_pool (Connecting_Error e))) = chain (of_conn e)"
  "chain (client_error_shown of_conn of_hyper (client_error_from_pool (Handshaking_Error e))) = [''transport: '' @ message (of_conn e)]"
  by (simp_all add: prefixed_only_def leaf_def)

text \<open>A failed attempt of the TCP transport, shown to the caller of the client: its message, then the system's.\<close>

lemma tcp_error_reaches_caller:
  assumes "te_source e = Some s"
  shows "chain (client_error_shown (conn_error_shown (tcp_error_shown view) of_uri) of_hyper
      (client_error_from_pool (Connecting_Error (Connect_Failed e)))) =
    (te_message e @ '': '' @ message (view s)) # chain (view s)"
  using assms by (simp add: tcp_error_shown_def tcp_error_display_def)

end
